(* ===== verification/Prelude.thy ===== *)
theory Prelude
  imports Main "HOL-Library.List_Lexorder" "HOL-Library.Char_ord" "HOL-Library.Sublist"
begin

text \<open>
  Shared vocabulary of the development: how a C++ call can fail, the operations of
  \<^verbatim>\<open>std::string\<close> the sources use, and \<^verbatim>\<open>std::stoi\<close> and \<^verbatim>\<open>std::to_string\<close>.

  A call that can fail has type \<open>'a res\<close>: \<open>Inr x\<close> is a normal return, \<open>Inl (Exn e)\<close> a
  C++ exception that leaves the function, and \<open>Inl (UB u)\<close> a step whose behaviour the C++
  standard leaves undefined (a read behind the end of a vector, a null dereference), or which ends the
  program (\<open>Terminated\<close>, an exception inside a \<^verbatim>\<open>noexcept\<close> function), so that a theorem about the
  normal branch also says that no undefined step was taken.
  A \<^verbatim>\<open>std::string\<close> is a \<^typ>\<open>string\<close>; \<open>npos\<close> is \<^const>\<open>None\<close>.
\<close>

section \<open>Collections of facts\<close>

named_theorems res_simps \<open>rewrite rules for the result type\<close>
named_theorems str_simps \<open>rewrite rules for the std::string operations\<close>

section \<open>Results of C++ calls\<close>

datatype cpp_exn =
    Out_of_range
  | Invalid_argument
  | Runtime_error
  | Bad_cast
  | Logic_error
  | Rsa_exception int
  | Ecdsa_exception int
  | Signature_verification_exception int
  | Signature_generation_exception int
  | Token_verification_exception int
  | Other_exception

datatype ub =
    Null_deref
  | Index_out_of_range
  | Pop_empty
  | Top_empty
  | End_iterator_deref
  | Uninitialised_read
  | Signed_overflow
  | Terminated
  | Use_after_free

datatype fault = Exn cpp_exn | UB ub

type_synonym 'a res = "fault + 'a"

definition bind_res :: "'a res \<Rightarrow> ('a \<Rightarrow> 'b res) \<Rightarrow> 'b res" where
  "bind_res m f = (case m of Inl e \<Rightarrow> Inl e | Inr x \<Rightarrow> f x)"

text \<open>Indexing a \<^verbatim>\<open>std::vector\<close> with \<open>operator[]\<close>: undefined out of range.\<close>

definition vec_at :: "'a list \<Rightarrow> nat \<Rightarrow> 'a res" where
  "vec_at xs i = (if i < length xs then Inr (xs ! i) else Inl (UB Index_out_of_range))"

section \<open>std::string\<close>

text \<open>\<^verbatim>\<open>s.substr(pos, n)\<close>: throws when \<open>pos\<close> is behind the end, clips \<open>n\<close>.\<close>

definition substr :: "string \<Rightarrow> nat \<Rightarrow> nat \<Rightarrow> string res" where
  "substr s pos n = (if pos \<le> length s then Inr (take n (drop pos s)) else Inl (Exn Out_of_range))"

text \<open>\<^verbatim>\<open>s.substr(pos)\<close>.\<close>

definition substr_from :: "string \<Rightarrow> nat \<Rightarrow> string res" where
  "substr_from s pos = (if pos \<le> length s then Inr (drop pos s) else Inl (Exn Out_of_range))"

text \<open>\<^verbatim>\<open>s.find(c, from)\<close> for a character, and \<^verbatim>\<open>s.find_last_of(c)\<close>.\<close>

fun find_char :: "char \<Rightarrow> string \<Rightarrow> nat option" where
  "find_char c [] = None"
| "find_char c (x # xs) = (if x = c then Some 0 else map_option Suc (find_char c xs))"

definition find_char_from :: "char \<Rightarrow> string \<Rightarrow> nat \<Rightarrow> nat option" where
  "find_char_from c s from = map_option (\<lambda>i. i + from) (find_char c (drop from s))"

fun find_last_of :: "char \<Rightarrow> string \<Rightarrow> nat option" where
  "find_last_of c [] = None"
| "find_last_of c (x # xs) =
     (case find_last_of c xs of
        Some i \<Rightarrow> Some (Suc i)
      | None \<Rightarrow> (if x = c then Some 0 else None))"

text \<open>\<^verbatim>\<open>s.find(t)\<close> for a string: the first position where \<open>t\<close> occurs.\<close>

fun find_str :: "string \<Rightarrow> string \<Rightarrow> nat option" where
  "find_str t [] = (if t = [] then Some 0 else None)"
| "find_str t (x # xs) =
     (if take (length t) (x # xs) = t then Some 0 else map_option Suc (find_str t xs))"

section \<open>std::to_string and std::stoi\<close>

definition int_min :: int where "int_min = - 2147483648"
definition int_max :: int where "int_max = 2147483647"

definition digit_char :: "nat \<Rightarrow> char" where
  "digit_char d = ''0123456789'' ! d"

definition is_digit :: "char \<Rightarrow> bool" where
  "is_digit c \<longleftrightarrow> c \<in> set ''0123456789''"

definition digit_val :: "char \<Rightarrow> nat" where
  "digit_val c = (of_char c :: nat) - 48"

fun show_nat :: "nat \<Rightarrow> string" where
  "show_nat n =
     (if n < 10 then [digit_char n] else show_nat (n div 10) @ [digit_char (n mod 10)])"

declare show_nat.simps [simp del]

definition to_string :: "int \<Rightarrow> string" where
  "to_string i = (if i < 0 then CHR ''-'' # show_nat (nat (- i)) else show_nat (nat i))"

text \<open>
  \<^verbatim>\<open>std::stoi\<close> calls \<^verbatim>\<open>strtol\<close>: leading white space, an optional sign, then decimal digits;
  what follows the digits is ignored. No digits is \<^verbatim>\<open>std::invalid_argument\<close>, a value outside
  \<^verbatim>\<open>int\<close> is \<^verbatim>\<open>std::out_of_range\<close>.
\<close>

definition is_space :: "char \<Rightarrow> bool" where
  "is_space c \<longleftrightarrow> c \<in> {CHR '' '', CHR 0x09, CHR 0x0A, CHR 0x0B, CHR 0x0C, CHR 0x0D}"

definition read_nat :: "string \<Rightarrow> nat" where
  "read_nat ds = foldl (\<lambda>a c. 10 * a + digit_val c) 0 ds"

fun split_sign :: "string \<Rightarrow> bool \<times> string" where
  "split_sign (c # cs) =
     (if c = CHR ''-'' then (True, cs) else if c = CHR ''+'' then (False, cs) else (False, c # cs))"
| "split_sign [] = (False, [])"

definition stoi :: "string \<Rightarrow> int res" where
  "stoi s =
     (let (neg, rest) = split_sign (dropWhile is_space s);
          ds = takeWhile is_digit rest;
          v = (if neg then - int (read_nat ds) else int (read_nat ds))
      in if ds = [] then Inl (Exn Invalid_argument)
         else if v < int_min \<or> int_max < v then Inl (Exn Out_of_range)
         else Inr v)"

section \<open>Lemmas on results\<close>

lemma bind_res_simps [simp, res_simps]:
  "bind_res (Inl e) f = Inl e"
  "bind_res (Inr x) f = f x"
  by (simp_all add: bind_res_def)

lemma bind_res_eq_Inr_conv [res_simps]:
  "bind_res m f = Inr y \<longleftrightarrow> (\<exists>x. m = Inr x \<and> f x = Inr y)"
  by (cases m) simp_all

lemma bind_res_eq_Inl_conv:
  "bind_res m f = Inl e \<longleftrightarrow> m = Inl e \<or> (\<exists>x. m = Inr x \<and> f x = Inl e)"
  by (cases m) auto

lemma bind_res_cong [fundef_cong]:
  "m = m' \<Longrightarrow> (\<And>x. m' = Inr x \<Longrightarrow> f x = f' x) \<Longrightarrow> bind_res m f = bind_res m' f'"
  by (cases m') simp_all

lemma bind_res_assoc: "bind_res (bind_res m f) g = bind_res m (\<lambda>x. bind_res (f x) g)"
  by (cases m) simp_all

lemma vec_at_less [simp, res_simps]: "i < length xs \<Longrightarrow> vec_at xs i = Inr (xs ! i)"
  by (simp add: vec_at_def)

lemma vec_at_Cons_0 [simp]: "vec_at (x # xs) 0 = Inr x"
  by simp

section \<open>Lemmas on strings\<close>

lemma substr_ok [str_simps]: "pos \<le> length s \<Longrightarrow> substr s pos n = Inr (take n (drop pos s))"
  by (simp add: substr_def)

lemma substr_from_ok [str_simps]: "pos \<le> length s \<Longrightarrow> substr_from s pos = Inr (drop pos s)"
  by (simp add: substr_from_def)

lemma substr_0 [simp, str_simps]: "substr s 0 n = Inr (take n s)"
  by (simp add: substr_def)

lemma find_char_None_iff: "find_char c s = None \<longleftrightarrow> c \<notin> set s"
  by (induction s) auto

lemma find_char_append: "c \<notin> set xs \<Longrightarrow> find_char c (xs @ c # ys) = Some (length xs)"
  by (induction xs) auto

lemma find_char_SomeD:
  "find_char c s = Some i \<Longrightarrow> i < length s \<and> s ! i = c \<and> c \<notin> set (take i s)"
  by (induction s arbitrary: i) (auto split: if_splits)

lemma find_last_of_None_iff: "find_last_of c s = None \<longleftrightarrow> c \<notin> set s"
  by (induction s) (auto split: option.splits)

lemma find_last_of_append: "c \<notin> set ys \<Longrightarrow> find_last_of c (xs @ c # ys) = Some (length xs)"
proof (induction xs)
  case Nil
  then show ?case by (simp add: find_last_of_None_iff [THEN iffD2])
qed (simp)

lemma find_last_of_SomeD:
  "find_last_of c s = Some i \<Longrightarrow> i < length s \<and> s ! i = c \<and> c \<notin> set (drop (Suc i) s)"
  by (induction s arbitrary: i) (auto split: option.splits if_splits simp: find_last_of_None_iff)

lemma find_str_skip:
  assumes "t = c # cs" and "c \<notin> set xs"
  shows "find_str t (xs @ t @ ys) = Some (length xs)"
  using assms by (induction xs) auto

section \<open>Lemmas on decimal numbers\<close>

lemma digit_list_nth:
  assumes "d < 10"
  shows "digit_char d \<in> set ''0123456789''" and "digit_val (digit_char d) = d"
proof -
  have "d \<in> {0, 1, 2, 3, 4, 5, 6, 7, 8, 9}" using assms by auto
  then show "digit_char d \<in> set ''0123456789''" and "digit_val (digit_char d) = d"
    by (auto simp: digit_char_def digit_val_def)
qed

lemma is_digit_digit_char [simp]: "d < 10 \<Longrightarrow> is_digit (digit_char d)"
  unfolding is_digit_def by (rule digit_list_nth)

lemma digit_val_digit_char [simp]: "d < 10 \<Longrightarrow> digit_val (digit_char d) = d"
  by (rule digit_list_nth)

lemma read_nat_snoc: "read_nat (ds @ [c]) = 10 * read_nat ds + digit_val c"
  by (simp add: read_nat_def)

lemma show_nat_digits: "\<forall>c \<in> set (show_nat n). is_digit c"
proof (induction n rule: show_nat.induct)
  case (1 n)
  then show ?case by (subst show_nat.simps) auto
qed

lemma show_nat_nonempty [simp]: "show_nat n \<noteq> []"
  by (subst show_nat.simps) simp

lemma read_nat_show_nat [simp]: "read_nat (show_nat n) = n"
proof (induction n rule: show_nat.induct)
  case (1 n)
  show ?case
  proof (cases "n < 10")
    case True
    then show ?thesis by (subst show_nat.simps) (simp add: read_nat_def)
  next
    case False
    with 1 have "read_nat (show_nat (n div 10)) = n div 10" by simp
    with False show ?thesis by (subst show_nat.simps) (simp add: read_nat_snoc)
  qed
qed

lemma show_nat_inject [simp]: "show_nat m = show_nat n \<longleftrightarrow> m = n"
  by (metis read_nat_show_nat)

lemma is_digit_not_space: "is_digit c \<Longrightarrow> \<not> is_space c"
  by (auto simp: is_digit_def is_space_def)

lemma is_digit_not_sign: "is_digit c \<Longrightarrow> c \<noteq> CHR ''-'' \<and> c \<noteq> CHR ''+''"
  by (auto simp: is_digit_def)

lemma is_digit_not_slash: "is_digit c \<Longrightarrow> c \<noteq> CHR ''/''"
  by (auto simp: is_digit_def)

lemma takeWhile_show_nat [simp]: "takeWhile is_digit (show_nat n) = show_nat n"
  by (rule takeWhile_eq_all_conv [THEN iffD2]) (rule show_nat_digits)

lemma show_nat_split:
  obtains c cs where "show_nat n = c # cs" and "is_digit c" and "\<forall>x \<in> set cs. is_digit x"
  using show_nat_digits [of n] show_nat_nonempty [of n] by (cases "show_nat n") auto

lemma stoi_show_nat:
  assumes "int n \<le> int_max"
  shows "stoi (show_nat n) = Inr (int n)"
proof -
  obtain c cs where s: "show_nat n = c # cs" and c: "is_digit c" and cs: "\<forall>x \<in> set cs. is_digit x"
    by (rule show_nat_split)
  have "takeWhile is_digit (c # cs) = show_nat n"
    using takeWhile_show_nat [of n] by (simp only: s)
  moreover have "dropWhile is_space (show_nat n) = c # cs"
    using c by (simp add: s is_digit_not_space)
  ultimately show ?thesis
    using assms c is_digit_not_sign [of c]
    by (simp add: stoi_def int_min_def int_max_def)
qed

lemma stoi_to_string:
  assumes "int_min \<le> i" and "i \<le> int_max"
  shows "stoi (to_string i) = Inr i"
proof (cases "i < 0")
  case False
  then show ?thesis using assms by (simp add: to_string_def stoi_show_nat)
next
  case True
  then show ?thesis
    using assms by (simp add: to_string_def stoi_def is_space_def int_max_def)
qed

lemma to_string_inject [simp]: "to_string i = to_string j \<longleftrightarrow> i = j"
proof
  assume eq: "to_string i = to_string j"
  have no_minus: "show_nat n \<noteq> CHR ''-'' # ds" for n ds
    using show_nat_digits [of n] is_digit_not_sign by force
  show "i = j"
  proof (cases "i < 0 \<or> j < 0")
    case True
    with eq no_minus show ?thesis
      by (auto simp: to_string_def split: if_splits) (metis no_minus)+
  next
    case False
    with eq show ?thesis by (auto simp: to_string_def)
  qed
qed simp

lemma to_string_no_slash: "CHR ''/'' \<notin> set (to_string i)"
  using show_nat_digits is_digit_not_slash by (auto simp: to_string_def)

lemma to_string_nonempty [simp]: "to_string i \<noteq> []"
  by (simp add: to_string_def)

end
