(* ===== verification/Http.thy ===== *)
theory Http
  imports Prelude
begin

text \<open>
  HTTP messages as the handlers see them. \<^verbatim>\<open>boost::beast::http\<close> is not part of the repository, so
  the four things the sources ask of it beyond reading and writing fields are parameters, the record
  \<open>beast\<close>: \<^verbatim>\<open>prepare_payload\<close>, the look-up \<^verbatim>\<open>req.base()[name]\<close> of a field, the textual form \<^verbatim>\<open>operator<<\<close> of a request, and which
  method names Beast knows as a verb (constructing a request from \<^verbatim>\<open>verb::unknown\<close> throws
  \<^verbatim>\<open>std::invalid_argument\<close>). \<open>payload_ok\<close> is the documented effect of
  \<^verbatim>\<open>prepare_payload\<close> on the responses built here.
\<close>

datatype http_status = ok | created | bad_request | unauthorized | not_found | method_not_allowed

fun result_int :: "http_status \<Rightarrow> nat" where
  "result_int ok = 200"
| "result_int created = 201"
| "result_int bad_request = 400"
| "result_int unauthorized = 401"
| "result_int not_found = 404"
| "result_int method_not_allowed = 405"

record http_request =
  method_string :: string
  target :: string
  req_version :: nat
  req_fields :: "(string \<times> string) list"
  req_body :: string

record http_response =
  res_version :: nat
  result :: http_status
  content_type :: "string option"
  content_length :: "nat option"
  body :: string

text \<open>A default-constructed \<^verbatim>\<open>http::response<http::string_body>\<close>.\<close>

definition fresh_response :: http_response where
  "fresh_response =
     \<lparr>res_version = 11, result = ok, content_type = None, content_length = None, body = ''''\<rparr>"

record beast =
  prepare_payload :: "http_response \<Rightarrow> http_response"
  show_request :: "http_request \<Rightarrow> string"
  known_verb :: "string \<Rightarrow> bool"
  field_at :: "http_request \<Rightarrow> string \<Rightarrow> string"

definition payload_ok :: "beast \<Rightarrow> bool" where
  "payload_ok B \<longleftrightarrow>
     (\<forall>res. prepare_payload B res = res\<lparr>content_length := Some (length (body res))\<rparr>)"

text \<open>The response forms that several handlers fill in.\<close>

definition html_response :: "beast \<Rightarrow> http_status \<Rightarrow> string \<Rightarrow> http_response \<Rightarrow> http_response" where
  "html_response B status text res =
     prepare_payload B (res\<lparr>result := status, content_type := Some ''text/html'', body := text\<rparr>)"

text \<open>The state of a response whose payload length is announced correctly.\<close>

definition well_framed :: "http_response \<Rightarrow> bool" where
  "well_framed res \<longleftrightarrow> content_length res = Some (length (body res))"

lemma payload_okD:
  "payload_ok B \<Longrightarrow> prepare_payload B res = res\<lparr>content_length := Some (length (body res))\<rparr>"
  by (simp add: payload_ok_def)

lemma well_framed_prepare: "payload_ok B \<Longrightarrow> well_framed (prepare_payload B res)"
  by (simp add: payload_okD well_framed_def)

lemma well_framed_html: "payload_ok B \<Longrightarrow> well_framed (html_response B st txt res)"
  by (simp add: html_response_def well_framed_prepare)

lemma html_response_sel:
  assumes "payload_ok B"
  shows "result (html_response B st txt res) = st" and "body (html_response B st txt res) = txt"
    and "content_type (html_response B st txt res) = Some ''text/html''"
  using assms by (simp_all add: html_response_def payload_okD)

text \<open>A concrete instance of the parameters, as documented for HTTP/1.1 messages.\<close>

definition doc_beast :: beast where
  "doc_beast =
     \<lparr>prepare_payload = (\<lambda>res. res\<lparr>content_length := Some (length (body res))\<rparr>),
      show_request = (\<lambda>req. method_string req @ '' '' @ target req @ '' HTTP/1.1'' @
        [CHR 0x0D, CHR 0x0A, CHR 0x0D, CHR 0x0A] @ req_body req),
      known_verb = (\<lambda>m. m \<in> set [''GET'', ''HEAD'', ''POST'', ''PUT'', ''DELETE'', ''CONNECT'',
        ''OPTIONS'', ''TRACE'', ''PATCH'']),
      field_at = (\<lambda>req name. case map_of (req_fields req) name of Some v \<Rightarrow> v | None \<Rightarrow> [])\<rparr>"

lemma payload_ok_doc_beast: "payload_ok doc_beast"
  by (simp add: payload_ok_def doc_beast_def)

end
