(* ===== verification/Containers.thy ===== *)
theory Containers
  imports Prelude
begin

text \<open>
  The ordered containers of the C++ standard library the server uses: \<^verbatim>\<open>std::map\<close> for the routes
  and for the entity index, \<^verbatim>\<open>std::set<int>\<close> for the identifiers of an entity. Both iterate in
  key order, and the sources iterate over them, so they are kept as sorted lists. The two
  contracts, \<open>std_map_adt\<close> and \<open>std_set_adt\<close>, are what the components rely on; the list
  implementations are shown to satisfy them at the end.
\<close>

section \<open>Sorted lists as std::map and std::set\<close>

type_synonym ('k, 'v) std_map = "('k \<times> 'v) list"
type_synonym 'k std_set = "'k list"

abbreviation ascending :: "'k::linorder list \<Rightarrow> bool" where
  "ascending \<equiv> sorted_wrt (<)"

definition map_find :: "('k::linorder, 'v) std_map \<Rightarrow> 'k \<Rightarrow> 'v option" where
  "map_find m k = map_of m k"

text \<open>\<^verbatim>\<open>m.insert({k, v})\<close> leaves an existing element as it is.\<close>

fun map_insert :: "'k::linorder \<Rightarrow> 'v \<Rightarrow> ('k, 'v) std_map \<Rightarrow> ('k, 'v) std_map" where
  "map_insert k v [] = [(k, v)]"
| "map_insert k v ((a, b) # ps) =
     (if k < a then (k, v) # (a, b) # ps
      else if k = a then (a, b) # ps
      else (a, b) # map_insert k v ps)"

text \<open>\<^verbatim>\<open>m[k] = v\<close>, and \<^verbatim>\<open>it->second = v\<close> for an iterator at \<open>k\<close>.\<close>

fun map_assign :: "'k::linorder \<Rightarrow> 'v \<Rightarrow> ('k, 'v) std_map \<Rightarrow> ('k, 'v) std_map" where
  "map_assign k v [] = [(k, v)]"
| "map_assign k v ((a, b) # ps) =
     (if k < a then (k, v) # (a, b) # ps
      else if k = a then (a, v) # ps
      else (a, b) # map_assign k v ps)"

definition map_sorted :: "('k::linorder, 'v) std_map \<Rightarrow> bool" where
  "map_sorted m \<longleftrightarrow> ascending (map fst m)"

definition set_member :: "'k::linorder std_set \<Rightarrow> 'k \<Rightarrow> bool" where
  "set_member s x \<longleftrightarrow> x \<in> set s"

fun set_insert :: "'k::linorder \<Rightarrow> 'k std_set \<Rightarrow> 'k std_set" where
  "set_insert x [] = [x]"
| "set_insert x (y # ys) =
     (if x < y then x # y # ys else if x = y then y # ys else y # set_insert x ys)"

fun set_erase :: "'k::linorder \<Rightarrow> 'k std_set \<Rightarrow> 'k std_set" where
  "set_erase x [] = []"
| "set_erase x (y # ys) = (if x = y then ys else y # set_erase x ys)"

section \<open>The contracts\<close>

locale std_map_adt =
  fixes emp :: 'm
    and lkp :: "'m \<Rightarrow> 'k \<Rightarrow> 'v option"
    and ins :: "'k \<Rightarrow> 'v \<Rightarrow> 'm \<Rightarrow> 'm"
    and asg :: "'k \<Rightarrow> 'v \<Rightarrow> 'm \<Rightarrow> 'm"
    and invar :: "'m \<Rightarrow> bool"
  assumes lkp_emp: "lkp emp k = None"
    and lkp_ins: "invar m \<Longrightarrow> lkp (ins k v m) k' =
      (if k' = k \<and> lkp m k = None then Some v else lkp m k')"
    and lkp_asg: "invar m \<Longrightarrow> lkp (asg k v m) k' = (if k' = k then Some v else lkp m k')"
    and invar_emp: "invar emp"
    and invar_ins: "invar m \<Longrightarrow> invar (ins k v m)"
    and invar_asg: "invar m \<Longrightarrow> invar (asg k v m)"
begin

lemma invar_ins_all: "invar m \<Longrightarrow> invar (foldl (\<lambda>a (k, v). ins k v a) m kvs)"
  by (induction kvs arbitrary: m) (auto simp: invar_ins)

lemma lkp_ins_all:
  "invar m \<Longrightarrow> lkp (foldl (\<lambda>a (k, v). ins k v a) m kvs) k =
     (case lkp m k of None \<Rightarrow> map_of kvs k | Some v \<Rightarrow> Some v)"
  by (induction kvs arbitrary: m) (auto simp: invar_ins lkp_ins split: option.splits)

text \<open>When keys repeat, the first insertion is the one that stays.\<close>

lemma first_insertion_wins: "lkp (foldl (\<lambda>a (k, v). ins k v a) emp kvs) k = map_of kvs k"
  by (simp add: lkp_ins_all invar_emp lkp_emp)

end

locale std_set_adt =
  fixes emp :: 's
    and mem :: "'s \<Rightarrow> 'k \<Rightarrow> bool"
    and ins :: "'k \<Rightarrow> 's \<Rightarrow> 's"
    and era :: "'k \<Rightarrow> 's \<Rightarrow> 's"
    and invar :: "'s \<Rightarrow> bool"
  assumes mem_emp: "\<not> mem emp x"
    and mem_ins: "invar s \<Longrightarrow> mem (ins x s) y \<longleftrightarrow> y = x \<or> mem s y"
    and mem_era: "invar s \<Longrightarrow> mem (era x s) y \<longleftrightarrow> y \<noteq> x \<and> mem s y"
    and invar_emp: "invar emp"
    and invar_ins: "invar s \<Longrightarrow> invar (ins x s)"
    and invar_era: "invar s \<Longrightarrow> invar (era x s)"
begin

lemma mem_ins_all: "invar s \<Longrightarrow> mem (foldl (\<lambda>a x. ins x a) s xs) y \<longleftrightarrow> y \<in> set xs \<or> mem s y"
  by (induction xs arbitrary: s) (auto simp: invar_ins mem_ins)

lemma invar_ins_all: "invar s \<Longrightarrow> invar (foldl (\<lambda>a x. ins x a) s xs)"
  by (induction xs arbitrary: s) (auto simp: invar_ins)

lemma mem_era_ins: "invar s \<Longrightarrow> \<not> mem s x \<Longrightarrow> mem (era x (ins x s)) y \<longleftrightarrow> mem s y"
  by (auto simp: mem_era mem_ins invar_ins)

end

section \<open>The list implementations satisfy them\<close>

lemma set_map_insert: "fst ` set (map_insert k v m) = insert k (fst ` set m)"
  by (induction k v m rule: map_insert.induct) auto

lemma set_map_assign: "fst ` set (map_assign k v m) = insert k (fst ` set m)"
  by (induction k v m rule: map_assign.induct) auto

lemma map_find_notin: "k \<notin> fst ` set m \<Longrightarrow> map_find m k = None"
  by (simp add: map_find_def map_of_eq_None_iff)

lemma map_sorted_Cons:
  "map_sorted ((a, b) # m) \<longleftrightarrow> (\<forall>k \<in> fst ` set m. a < k) \<and> map_sorted m"
  by (auto simp: map_sorted_def)

lemma map_sorted_Nil [simp]: "map_sorted []"
  by (simp add: map_sorted_def)

lemma map_sorted_insert: "map_sorted m \<Longrightarrow> map_sorted (map_insert k v m)"
  by (induction k v m rule: map_insert.induct) (auto simp: map_sorted_Cons set_map_insert)

lemma map_sorted_assign: "map_sorted m \<Longrightarrow> map_sorted (map_assign k v m)"
  by (induction k v m rule: map_assign.induct) (auto simp: map_sorted_Cons set_map_assign)

lemma map_sorted_head_less: "map_sorted ((a, b) # m) \<Longrightarrow> k < a \<Longrightarrow> map_of m k = None"
  by (force simp: map_sorted_Cons map_of_eq_None_iff)

lemma map_find_insert:
  "map_sorted m \<Longrightarrow> map_find (map_insert k v m) k' =
     (if k' = k \<and> map_find m k = None then Some v else map_find m k')"
proof (induction k v m rule: map_insert.induct)
  case (2 k v a b ps)
  have "k < a \<Longrightarrow> map_of ps k = None"
    using "2.prems" by (rule map_sorted_head_less)
  with 2 show ?case by (auto simp: map_find_def map_sorted_Cons)
qed (simp add: map_find_def)

lemma map_find_assign:
  "map_sorted m \<Longrightarrow> map_find (map_assign k v m) k' = (if k' = k then Some v else map_find m k')"
  by (induction k v m rule: map_assign.induct) (auto simp: map_find_def map_sorted_Cons)

interpretation smap: std_map_adt "[]" map_find map_insert map_assign map_sorted
  by unfold_locales
    (simp_all add: map_find_insert map_find_assign map_sorted_insert map_sorted_assign map_find_notin)

lemma set_set_insert [simp]: "set (set_insert x s) = insert x (set s)"
  by (induction x s rule: set_insert.induct) auto

lemma set_set_erase: "ascending s \<Longrightarrow> set (set_erase x s) = set s - {x}"
  by (induction x s rule: set_erase.induct) auto

lemma ascending_set_insert: "ascending s \<Longrightarrow> ascending (set_insert x s)"
  by (induction x s rule: set_insert.induct) auto

lemma set_erase_subset: "set (set_erase x s) \<subseteq> set s"
  by (induction x s rule: set_erase.induct) auto

lemma ascending_set_erase: "ascending s \<Longrightarrow> ascending (set_erase x s)"
proof (induction x s rule: set_erase.induct)
  case (2 x y ys)
  then show ?case using set_erase_subset [of x ys] by auto
qed simp

interpretation sset: std_set_adt "[]" set_member set_insert set_erase ascending
  by unfold_locales
    (auto simp: set_member_def set_set_erase ascending_set_insert ascending_set_erase)

lemmas map_facts = smap.lkp_ins smap.lkp_asg smap.invar_ins smap.invar_asg smap.lkp_emp
lemmas set_facts = sset.mem_ins sset.mem_era sset.invar_ins sset.invar_era sset.mem_emp

end
