(* ===== verification/FileSystem.thy ===== *)
theory FileSystem
  imports Containers
begin

text \<open>
  \<^verbatim>\<open>include/filesystem.hh\<close> and \<^verbatim>\<open>src/filesystem.cc\<close>: the abstract class
  \<^verbatim>\<open>FileSystem\<close> as a record of its virtual functions over a state, the implementation
  \<^verbatim>\<open>RealFileSsystem\<close> over \<^verbatim>\<open>boost::filesystem\<close>, and \<^verbatim>\<open>FakeFileSsystem\<close> over a
  set of names. \<^verbatim>\<open>boost::filesystem\<close> is not part of the repository: its path operations are the
  record \<open>path_lib\<close>, its operations on the disk the record \<open>boost_fs\<close>, both parameters.
  A \<^verbatim>\<open>fs::path\<close> is its native string.
\<close>

type_synonym path = string

section \<open>Parameters for boost::filesystem\<close>

record path_lib =
  path_append :: "path \<Rightarrow> string \<Rightarrow> path"
  parent_path :: "path \<Rightarrow> path"
  path_eq :: "path \<Rightarrow> path \<Rightarrow> bool"
  path_extension :: "path \<Rightarrow> string"
  path_filename :: "path \<Rightarrow> string"

record 's boost_fs =
  bfs_exists :: "path \<Rightarrow> 's \<Rightarrow> bool"
  bfs_is_regular_file :: "path \<Rightarrow> 's \<Rightarrow> bool"
  bfs_is_directory :: "path \<Rightarrow> 's \<Rightarrow> bool"
  bfs_create_directory :: "path \<Rightarrow> 's \<Rightarrow> (bool \<times> 's) res"
  bfs_remove :: "path \<Rightarrow> 's \<Rightarrow> (bool \<times> 's) res"
  bfs_directory_iterator :: "path \<Rightarrow> 's \<Rightarrow> path list"
  ofstream_write :: "path \<Rightarrow> string \<Rightarrow> 's \<Rightarrow> 's"
  ifstream_read :: "path \<Rightarrow> 's \<Rightarrow> string"

section \<open>The class FileSystem\<close>

record 's filesystem =
  fs_exists :: "path \<Rightarrow> 's \<Rightarrow> bool"
  fs_create_directory :: "path \<Rightarrow> 's \<Rightarrow> (bool \<times> 's) res"
  fs_is_regular_file :: "path \<Rightarrow> 's \<Rightarrow> bool"
  fs_remove :: "path \<Rightarrow> 's \<Rightarrow> (bool \<times> 's) res"
  fs_write_file :: "path \<Rightarrow> string \<Rightarrow> 's \<Rightarrow> bool \<times> 's"
  fs_read_file :: "path \<Rightarrow> 's \<Rightarrow> string"

definition RealFileSystem :: "'s boost_fs \<Rightarrow> 's filesystem" where
  "RealFileSystem D =
     \<lparr>fs_exists = bfs_exists D,
      fs_create_directory = bfs_create_directory D,
      fs_is_regular_file = bfs_is_regular_file D,
      fs_remove = bfs_remove D,
      fs_write_file = (\<lambda>p text s. (True, ofstream_write D p text s)),
      fs_read_file = ifstream_read D\<rparr>"

type_synonym fake_fs = "string std_set"

definition Fake_exists :: "path \<Rightarrow> fake_fs \<Rightarrow> bool" where
  "Fake_exists p fakeFS \<longleftrightarrow> set_member fakeFS p"

definition Fake_create_directory :: "path \<Rightarrow> fake_fs \<Rightarrow> (bool \<times> fake_fs) res" where
  "Fake_create_directory p fakeFS = Inr (True, set_insert p fakeFS)"

definition Fake_is_regular_file :: "path \<Rightarrow> fake_fs \<Rightarrow> bool" where
  "Fake_is_regular_file p fakeFS = True"

definition Fake_remove :: "path \<Rightarrow> fake_fs \<Rightarrow> (bool \<times> fake_fs) res" where
  "Fake_remove p fakeFS = Inr (True, set_erase p fakeFS)"

definition Fake_write_file :: "path \<Rightarrow> string \<Rightarrow> fake_fs \<Rightarrow> bool \<times> fake_fs" where
  "Fake_write_file p text fakeFS = (True, set_insert p fakeFS)"

definition Fake_read_file :: "path \<Rightarrow> fake_fs \<Rightarrow> string" where
  "Fake_read_file p fakeFS = (if Fake_exists p fakeFS then ''Read file'' else ''No such file'')"

definition FakeFileSystem :: "fake_fs filesystem" where
  "FakeFileSystem =
     \<lparr>fs_exists = Fake_exists,
      fs_create_directory = Fake_create_directory,
      fs_is_regular_file = Fake_is_regular_file,
      fs_remove = Fake_remove,
      fs_write_file = Fake_write_file,
      fs_read_file = Fake_read_file\<rparr>"

section \<open>The contracts\<close>

text \<open>
  What a caller of \<^verbatim>\<open>FileSystem\<close> can rely on whichever implementation it was given. A write
  takes effect where the path is \<open>writable\<close> (for the disk: its directory exists), a directory is
  created where the path is \<open>makeable\<close>, and then every path \<open>inside\<close> it can be written.
  \<open>indep p q\<close> says that \<open>q\<close> names another file than \<open>p\<close>, which on a disk is more than
  \<open>p \<noteq> q\<close>.
\<close>

locale file_store =
  fixes FS :: "'s filesystem"
    and invar :: "'s \<Rightarrow> bool"
    and writable :: "path \<Rightarrow> 's \<Rightarrow> bool"
    and makeable :: "path \<Rightarrow> 's \<Rightarrow> bool"
    and inside :: "path \<Rightarrow> path \<Rightarrow> bool"
    and indep :: "path \<Rightarrow> path \<Rightarrow> bool"
  assumes write_invar: "invar s \<Longrightarrow> writable p s \<Longrightarrow> invar (snd (fs_write_file FS p t s))"
    and write_true: "fst (fs_write_file FS p t s)"
    and write_exists: "invar s \<Longrightarrow> writable p s \<Longrightarrow> fs_exists FS p (snd (fs_write_file FS p t s))"
    and write_regular:
      "invar s \<Longrightarrow> writable p s \<Longrightarrow> fs_is_regular_file FS p (snd (fs_write_file FS p t s))"
    and write_exists_indep: "invar s \<Longrightarrow> writable p s \<Longrightarrow> indep p q \<Longrightarrow>
      fs_exists FS q (snd (fs_write_file FS p t s)) = fs_exists FS q s"
    and mkdir: "invar s \<Longrightarrow> makeable d s \<Longrightarrow>
      \<exists>s'. fs_create_directory FS d s = Inr (True, s') \<and> invar s' \<and> fs_exists FS d s'
        \<and> (\<forall>p. inside d p \<longrightarrow> writable p s')"
    and remove_gone: "invar s \<Longrightarrow> fs_exists FS p s \<Longrightarrow> fs_is_regular_file FS p s \<Longrightarrow>
      \<exists>s'. fs_remove FS p s = Inr (True, s') \<and> invar s' \<and> \<not> fs_exists FS p s'
        \<and> (\<forall>q. indep p q \<longrightarrow> fs_exists FS q s' = fs_exists FS q s)"
begin

lemma write_remove_gone:
  assumes "invar s" and "writable p s"
  shows "\<exists>s'. fs_remove FS p (snd (fs_write_file FS p t s)) = Inr (True, s')
    \<and> \<not> fs_exists FS p s'
    \<and> (\<forall>q. indep p q \<longrightarrow> fs_exists FS q s' = fs_exists FS q s)"
  using remove_gone [OF write_invar write_exists write_regular] assms write_exists_indep
  by blast

end

text \<open>A store that also keeps what was written.\<close>

locale content_store = file_store +
  assumes read_write: "invar s \<Longrightarrow> writable p s \<Longrightarrow>
      fs_read_file FS p (snd (fs_write_file FS p t s)) = t"
    and read_write_indep: "invar s \<Longrightarrow> writable p s \<Longrightarrow> indep p q \<Longrightarrow>
      fs_read_file FS q (snd (fs_write_file FS p t s)) = fs_read_file FS q s"
begin

lemma last_write_wins:
  assumes "invar s" and "writable p s" and "writable p (snd (fs_write_file FS p t s))"
  shows "fs_read_file FS p (snd (fs_write_file FS p t' (snd (fs_write_file FS p t s)))) = t'"
  using assms by (simp add: read_write write_invar)

end

section \<open>FakeFileSsystem is a file store\<close>

lemmas fake_defs = FakeFileSystem_def Fake_exists_def Fake_create_directory_def
  Fake_is_regular_file_def Fake_remove_def Fake_write_file_def Fake_read_file_def

interpretation fake: file_store FakeFileSystem ascending "\<lambda>p s. True" "\<lambda>p s. True"
  "\<lambda>d p. True" "(\<noteq>)"
  by unfold_locales
    (auto simp: fake_defs set_member_def set_set_erase ascending_set_insert ascending_set_erase)

end
