(* ===== verification/Mime.thy ===== *)
theory Mime
  imports Prelude
begin

text \<open>
  \<^verbatim>\<open>include/mime.hh\<close>: the chain of comparisons that turns a file extension into a MIME type. The
  chain is the table of its branches in source order; the first equal extension decides and the last
  line of the function is the default. The result for \<^verbatim>\<open>.midi\<close> begins with the two bytes of a
  no-break space, as the source has it.
\<close>

definition mime_table :: "(string \<times> string) list" where
  "mime_table =
    [(''.aac'', ''audio/aac''),
     (''.abw'', ''application/x-abiword''),
     (''.arc'', ''application/x-freearc''),
     (''.avif'', ''image/avif''),
     (''.avi'', ''video/x-msvideo''),
     (''.azw'', ''application/vnd.amazon.ebook''),
     (''.bin'', ''application/octet-stream''),
     (''.bmp'', ''image/bmp''),
     (''.bz'', ''application/x-bzip''),
     (''.bz2'', ''application/x-bzip2''),
     (''.cda'', ''application/x-cdf''),
     (''.csh'', ''application/x-csh''),
     (''.css'', ''text/css''),
     (''.csv'', ''text/csv''),
     (''.doc'', ''application/msword''),
     (''.docx'', ''application/vnd.openxmlformats-officedocument.wordprocessingml.document''),
     (''.eot'', ''application/vnd.ms-fontobject''),
     (''.epub'', ''application/epub+zip''),
     (''.gz'', ''application/gzip''),
     (''.gif'', ''image/gif''),
     (''.htm'', ''text/html''),
     (''.html'', ''text/html''),
     (''.ico'', ''image/vnd.microsoft.icon''),
     (''.ics'', ''text/calendar''),
     (''.jar'', ''application/java-archive''),
     (''.jpeg'', ''image/jpeg''),
     (''.jpg'', ''image/jpeg''),
     (''.js'', ''text/javascript''),
     (''.json'', ''application/json''),
     (''.mid'', ''audio/midi''),
     (''.midi'', CHR 0xC2 # CHR 0xA0 # ''audio/x-midi''),
     (''.mjs'', ''text/javascript''),
     (''.mp3'', ''audio/mpeg''),
     (''.mp4'', ''video/mp4''),
     (''.mpeg'', ''video/mpeg''),
     (''.mpkg'', ''application/vnd.apple.installer+xml''),
     (''.odp'', ''application/vnd.oasis.opendocument.presentation''),
     (''.ods'', ''application/vnd.oasis.opendocument.spreadsheet''),
     (''.odt'', ''application/vnd.oasis.opendocument.text''),
     (''.oga'', ''audio/ogg''),
     (''.ogv'', ''video/ogg''),
     (''.ogx'', ''application/ogg''),
     (''.opus'', ''audio/opus''),
     (''.otf'', ''font/otf''),
     (''.png'', ''image/png''),
     (''.pdf'', ''application/pdf''),
     (''.php'', ''application/x-httpd-php''),
     (''.ppt'', ''application/vnd.ms-powerpoint''),
     (''.pptx'', ''application/vnd.openxmlformats-officedocument.presentationml.presentation''),
     (''.rar'', ''application/vnd.rar''),
     (''.rtf'', ''application/rtf''),
     (''.sh'', ''application/x-sh''),
     (''.svg'', ''image/svg+xml''),
     (''.swf'', ''application/x-shockwave-flash''),
     (''.tar'', ''application/x-tar''),
     (''.tif'', ''image/tiff''),
     (''.tiff'', ''image/tiff''),
     (''.ts'', ''video/mp2t''),
     (''.ttf'', ''font/ttf''),
     (''.txt'', ''text/plain''),
     (''.vsd'', ''application/vnd.visio''),
     (''.wav'', ''audio/wav''),
     (''.weba'', ''audio/webm''),
     (''.webm'', ''video/webm''),
     (''.webp'', ''image/webp''),
     (''.woff'', ''font/woff''),
     (''.woff2'', ''font/woff2''),
     (''.xhtml'', ''application/xhtml+xml''),
     (''.xml'', ''application/xml''),
     (''.xul'', ''application/vnd.mozilla.xul+xml''),
     (''.zip'', ''application/zip''),
     (''.7z'', ''application/x-7z-compressed'')]"

definition extensionToMIME :: "string \<Rightarrow> string" where
  "extensionToMIME ext =
     (case map_of mime_table ext of
        Some m \<Rightarrow> m
      | None \<Rightarrow> ''application/octet-stream'')"

lemma distinct_mime_extensions: "distinct (map fst mime_table)"
  by (simp add: mime_table_def)

lemma extensionToMIME_hit: "(e, m) \<in> set mime_table \<Longrightarrow> extensionToMIME e = m"
  using distinct_mime_extensions by (simp add: extensionToMIME_def)

lemma extensionToMIME_miss:
  "e \<notin> fst ` set mime_table \<Longrightarrow> extensionToMIME e = ''application/octet-stream''"
  by (simp add: extensionToMIME_def map_of_eq_None_iff [THEN iffD2])

lemma midi_type: "extensionToMIME ''.midi'' = [CHR 0xC2, CHR 0xA0] @ ''audio/x-midi''"
  by code_simp

end
