(* ===== verification/Handlers.thy ===== *)
theory Handlers
  imports Http FileSystem Mime
begin

text \<open>
  The handlers of \<^verbatim>\<open>src/request_handler.cc\<close> that keep no state of their own: Echo, Health,
  Static, NotFound, Sleep and Login. A \<^verbatim>\<open>get_response\<close> takes the request and the response
  object it fills in (which the session reuses from one request to the next) and returns the flag
  the C++ function returns together with the new response; the ones that read the disk also take its
  state. Log output is left out.
\<close>

section \<open>Echo, Health, NotFound and Sleep\<close>

definition Echo_get_response ::
  "beast \<Rightarrow> http_request \<Rightarrow> http_response \<Rightarrow> bool \<times> http_response" where
  "Echo_get_response B req res =
     (True, prepare_payload B (res\<lparr>res_version := 11, result := ok,
        content_type := Some ''text/plain'', body := show_request B req\<rparr>))"

definition Health_get_response ::
  "beast \<Rightarrow> http_request \<Rightarrow> http_response \<Rightarrow> bool \<times> http_response" where
  "Health_get_response B req res =
     (True, prepare_payload B (res\<lparr>res_version := 11, result := ok,
        content_type := Some ''text/plain'', body := ''OK''\<rparr>))"

definition NotFound_get_response ::
  "beast \<Rightarrow> http_request \<Rightarrow> http_response \<Rightarrow> bool \<times> http_response" where
  "NotFound_get_response B req res =
     (True, prepare_payload B (res\<lparr>res_version := 11, result := not_found,
        content_type := Some ''text/html'', body := ''<html><h1>404 Not Found</h1></html>''\<rparr>))"

definition Sleep_get_response ::
  "beast \<Rightarrow> http_request \<Rightarrow> http_response \<Rightarrow> bool \<times> http_response" where
  "Sleep_get_response B req res =
     (True, prepare_payload B (res\<lparr>res_version := 11, result := ok,
        content_type := Some ''text/html'',
        body := ''<html><h1>Slept for 1 second</h1></html>''\<rparr>))"

section \<open>Serving files\<close>

text \<open>The method names the code answers with 405 rather than with 400.\<close>

definition static_unsupported :: "string list" where
  "static_unsupported =
     [''HEAD'', ''POST'', ''PUT'', ''DELETE'', ''CONNECT'', ''OPTIONS'', ''TRACE'', ''PATCH'']"

text \<open>The answer to a method other than GET, the same in Static and in Login.\<close>

definition reject_method ::
  "beast \<Rightarrow> string \<Rightarrow> http_response \<Rightarrow> bool \<times> http_response" where
  "reject_method B method res =
     (if method \<in> set static_unsupported
      then (False, html_response B method_not_allowed ''<html><h1>405 Not Allowed</h1></html>'' res)
      else (False, html_response B bad_request ''<html><h1>400 Bad Request</h1></html>'' res))"

text \<open>Serving the file at a full path: 404 unless it is a regular file.\<close>

definition serve_file ::
  "beast \<Rightarrow> path_lib \<Rightarrow> 's boost_fs \<Rightarrow> path \<Rightarrow> http_response \<Rightarrow> 's \<Rightarrow> bool \<times> http_response" where
  "serve_file B P D full_path res s =
     (if \<not> bfs_exists D full_path s \<or> \<not> bfs_is_regular_file D full_path s
      then (False, html_response B not_found ''<html><h1>404 Not Found</h1></html>'' res)
      else
        (True, prepare_payload B (res\<lparr>result := ok,
           content_type := Some (extensionToMIME (path_extension P full_path)),
           body := ifstream_read D full_path s\<rparr>)))"

record static_handler =
  static_base_path :: path
  static_prefix_length :: nat

definition Static_get_response ::
  "beast \<Rightarrow> path_lib \<Rightarrow> 's boost_fs \<Rightarrow> static_handler \<Rightarrow> http_request \<Rightarrow> http_response \<Rightarrow> 's \<Rightarrow>
   (bool \<times> http_response) res" where
  "Static_get_response B P D h req res s =
     (if method_string req \<noteq> ''GET'' then Inr (reject_method B (method_string req) res)
      else bind_res (substr_from (target req) (static_prefix_length h)) (\<lambda>tail.
        Inr (serve_file B P D (path_append P (static_base_path h) tail) res s)))"

definition Login_get_response ::
  "beast \<Rightarrow> path_lib \<Rightarrow> 's boost_fs \<Rightarrow> path \<Rightarrow> http_request \<Rightarrow> http_response \<Rightarrow> 's \<Rightarrow>
   bool \<times> http_response" where
  "Login_get_response B P D base_path req res s =
     (if method_string req \<noteq> ''GET'' then reject_method B (method_string req) res
      else serve_file B P D (path_append P base_path ''/login.html'') res s)"

section \<open>Every response announces its length\<close>

text \<open>
  The contract of \<^verbatim>\<open>RequestHandler::get_response\<close> that the session relies on when it hands the
  response to \<^verbatim>\<open>async_write\<close>: whatever the old content of the response object, the new one has
  a \<^verbatim>\<open>Content-Length\<close> equal to the size of its body.
\<close>

locale request_handler =
  fixes respond :: "http_request \<Rightarrow> http_response \<Rightarrow> 's \<Rightarrow> (bool \<times> http_response \<times> 's) res"
  assumes framed: "respond req res s = Inr (b, res', s') \<Longrightarrow> well_framed res'"
begin

text \<open>Answering a list of requests on one connection, reusing the response object.\<close>

primrec serve_all ::
  "http_request list \<Rightarrow> http_response \<Rightarrow> 's \<Rightarrow> (http_response list \<times> 's) res" where
  "serve_all [] res s = Inr ([], s)"
| "serve_all (req # reqs) res s =
     bind_res (respond req res s) (\<lambda>(b, res', s').
       bind_res (serve_all reqs res' s') (\<lambda>(rs, s''). Inr (res' # rs, s'')))"

lemma serve_all_framed:
  "serve_all reqs res s = Inr (rs, s') \<Longrightarrow> length rs = length reqs \<and> (\<forall>r \<in> set rs. well_framed r)"
proof (induction reqs arbitrary: res s rs s')
  case Nil
  then show ?case by simp
next
  case (Cons req reqs)
  then show ?case by (auto simp: bind_res_eq_Inr_conv dest: framed)
qed

end

lemma serve_file_framed: "payload_ok B \<Longrightarrow> well_framed (snd (serve_file B P D p res s))"
  by (simp add: serve_file_def well_framed_html well_framed_prepare)

lemma reject_method_framed: "payload_ok B \<Longrightarrow> well_framed (snd (reject_method B m res))"
  by (simp add: reject_method_def well_framed_html)

lemma Static_framed:
  "payload_ok B \<Longrightarrow> Static_get_response B P D h req res s = Inr (b, res') \<Longrightarrow> well_framed res'"
  using serve_file_framed [of B P D _ res s] reject_method_framed [of B "method_string req" res]
  by (auto simp: Static_get_response_def bind_res_eq_Inr_conv split: if_splits) (metis snd_conv)+

text \<open>The handlers' library contract, and each stateless handler as a \<open>request_handler\<close> under it.\<close>

locale beast_contract =
  fixes B :: beast
  assumes payload: "payload_ok B"
begin

sublocale echo: request_handler "\<lambda>req res s. Inr (case Echo_get_response B req res of (b, r) \<Rightarrow> (b, r, s))"
  by unfold_locales (auto simp: Echo_get_response_def payload well_framed_prepare)

sublocale health: request_handler "\<lambda>req res s. Inr (case Health_get_response B req res of (b, r) \<Rightarrow> (b, r, s))"
  by unfold_locales (auto simp: Health_get_response_def payload well_framed_prepare)

sublocale notfound: request_handler "\<lambda>req res s. Inr (case NotFound_get_response B req res of (b, r) \<Rightarrow> (b, r, s))"
  by unfold_locales (auto simp: NotFound_get_response_def payload well_framed_prepare)

sublocale sleep: request_handler "\<lambda>req res s. Inr (case Sleep_get_response B req res of (b, r) \<Rightarrow> (b, r, s))"
  by unfold_locales (auto simp: Sleep_get_response_def payload well_framed_prepare)

end

interpretation doc: beast_contract doc_beast
  by unfold_locales (rule payload_ok_doc_beast)

section \<open>What Static answers\<close>

lemma Static_not_GET:
  assumes "payload_ok B" and "method_string req \<noteq> ''GET''"
  shows "\<exists>res'. Static_get_response B P D h req res s = Inr (False, res')
    \<and> result res' = (if method_string req \<in> set static_unsupported then method_not_allowed else bad_request)"
  using assms by (simp add: Static_get_response_def reject_method_def html_response_sel)

lemma Static_GET:
  assumes "payload_ok B" and "method_string req = ''GET''"
    and "static_prefix_length h \<le> length (target req)"
    and "p = path_append P (static_base_path h) (drop (static_prefix_length h) (target req))"
  shows "Static_get_response B P D h req res s =
    (if bfs_exists D p s \<and> bfs_is_regular_file D p s
     then Inr (True, res\<lparr>result := ok, content_type := Some (extensionToMIME (path_extension P p)),
       body := ifstream_read D p s, content_length := Some (length (ifstream_read D p s))\<rparr>)
     else Inr (False, res\<lparr>result := not_found, content_type := Some ''text/html'',
       body := ''<html><h1>404 Not Found</h1></html>'', content_length := Some 35\<rparr>))"
  using assms
  by (simp add: Static_get_response_def substr_from_ok serve_file_def html_response_def payload_okD)

end
