(* ===== verification/ApiHandler.thy ===== *)
theory ApiHandler
  imports Handlers
begin

text \<open>
  \<^verbatim>\<open>RequestHandlerAPI\<close> of \<^verbatim>\<open>src/request_handler.cc\<close>: create, retrieve, list, update and
  delete of entities stored as files \<^verbatim>\<open><base>/<entity>/<id>\<close>, with an index from entity names to
  the set of their identifiers. The index belongs to the factory and the files to the
  \<^verbatim>\<open>FileSystem\<close> object; the handler reaches both through pointers, so the two are the state
  \<open>api_state\<close> that every operation takes and returns.
\<close>

section \<open>State and helpers\<close>

type_synonym entity_index = "(string, int std_set) std_map"

record 's api_state =
  entity_id_map :: entity_index
  store :: 's

record api_handler =
  base_path :: path
  prefix_length :: nat

definition set_notfound_request :: "beast \<Rightarrow> http_response \<Rightarrow> http_response" where
  "set_notfound_request B res =
     html_response B not_found ''<html><h1>404 Not Found</h1></html>'' res"

definition set_bad_request :: "beast \<Rightarrow> http_response \<Rightarrow> http_response" where
  "set_bad_request B res =
     html_response B bad_request ''<html><h1>400 Bad Request</h1></html>'' res"

text \<open>The loop of \<^verbatim>\<open>get_next_id\<close>: it ends because the set is finite.\<close>

function next_free :: "int std_set \<Rightarrow> int \<Rightarrow> int" where
  "next_free ids i = (if set_member ids i then next_free ids (i + 1) else i)"
  by pat_completeness auto
termination
proof (relation "measure (\<lambda>(ids, i). card {x \<in> set ids. i \<le> x})", goal_cases)
  case (2 ids i)
  then have "i \<in> {x \<in> set ids. i \<le> x} - {x \<in> set ids. i + 1 \<le> x}"
    by (simp add: set_member_def)
  moreover have "{x \<in> set ids. i + 1 \<le> x} \<subseteq> {x \<in> set ids. i \<le> x}" by auto
  ultimately have "{x \<in> set ids. i + 1 \<le> x} \<subset> {x \<in> set ids. i \<le> x}" by blast
  then show ?case by (simp add: psubset_card_mono)
qed simp

declare next_free.simps [simp del]

definition get_next_id :: "string \<Rightarrow> entity_index \<Rightarrow> (int \<times> entity_index) res" where
  "get_next_id entity m =
     (case map_find m entity of
        None \<Rightarrow> Inl (UB End_iterator_deref)
      | Some existingIDs \<Rightarrow>
          (let eid = next_free existingIDs 1
           in Inr (eid, map_assign entity (set_insert eid existingIDs) m)))"

definition erase_if_exist :: "string \<Rightarrow> int \<Rightarrow> entity_index \<Rightarrow> entity_index" where
  "erase_if_exist entity eid m =
     (case map_find m entity of
        None \<Rightarrow> m
      | Some existingIDs \<Rightarrow>
          if set_member existingIDs eid then map_assign entity (set_erase eid existingIDs) m else m)"

definition insert_if_notexist :: "string \<Rightarrow> int \<Rightarrow> entity_index \<Rightarrow> entity_index" where
  "insert_if_notexist entity eid m =
     (case map_find m entity of
        Some existingIDs \<Rightarrow>
          if \<not> set_member existingIDs eid then map_assign entity (set_insert eid existingIDs) m else m
      | None \<Rightarrow> map_insert entity (set_insert eid []) m)"

section \<open>Parsing the target\<close>

text \<open>
  The results are the returned flag and the three out-parameters. \<^verbatim>\<open>url[0]\<close> of an empty string is
  the terminating zero, which is not a slash.
\<close>

definition parse_url_target ::
  "path_lib \<Rightarrow> api_handler \<Rightarrow> http_request \<Rightarrow> (bool \<times> path \<times> int \<times> string) res" where
  "parse_url_target P h req =
     bind_res (substr_from (target req) (prefix_length h)) (\<lambda>url.
       if url = [] \<or> hd url \<noteq> CHR ''/'' then Inr (False, [], 0, [])
       else
         (let url = (if last url = CHR ''/'' then butlast url else url);
              full_path = path_append P (base_path h) url
          in case find_last_of CHR ''/'' url of
               None \<Rightarrow> Inr (False, full_path, 0, url)
             | Some pos \<Rightarrow>
                 (case stoi (drop (pos + 1) url) of
                    Inr eid \<Rightarrow>
                      Inr (True, full_path, eid,
                           if pos = 0 then drop 1 url else take (pos - 1) (drop 1 url))
                  | Inl _ \<Rightarrow> Inr (True, full_path, 0, drop 1 url))))"

section \<open>The operations\<close>

definition created_body :: "int \<Rightarrow> string" where
  "created_body eid = CHR ''{'' # CHR 0x22 # ''id'' @ CHR 0x22 # '': '' @ to_string eid @ ''}''"

definition API_post ::
  "beast \<Rightarrow> path_lib \<Rightarrow> 's filesystem \<Rightarrow> api_handler \<Rightarrow> path \<Rightarrow> string \<Rightarrow> http_request \<Rightarrow>
   http_response \<Rightarrow> 's api_state \<Rightarrow> (bool \<times> http_response \<times> 's api_state) res" where
  "API_post B P FS h full_path entity req res st =
     (if \<not> path_eq P (parent_path P full_path) (base_path h)
      then Inr (False, set_bad_request B res, st)
      else
        bind_res
          (if \<not> fs_exists FS full_path (store st)
           then bind_res (fs_create_directory FS full_path (store st)) (\<lambda>(_, s').
             Inr (st\<lparr>store := s', entity_id_map := map_insert entity [] (entity_id_map st)\<rparr>))
           else Inr st)
          (\<lambda>st1.
            bind_res (get_next_id entity (entity_id_map st1)) (\<lambda>(eid, m).
              let s2 = snd (fs_write_file FS (path_append P full_path (to_string eid)) (req_body req)
                         (store st1))
              in Inr (True,
                   prepare_payload B (res\<lparr>result := created, body := created_body eid\<rparr>),
                   st1\<lparr>entity_id_map := m, store := s2\<rparr>))))"

text \<open>The body of a listing: every identifier followed by a comma, the last character dropped.\<close>

definition listing_body :: "string \<Rightarrow> entity_index \<Rightarrow> string" where
  "listing_body entity m =
     (case map_find m entity of
        Some IDs \<Rightarrow> butlast (''['' @ concat (map (\<lambda>ID. to_string ID @ '','') IDs)) @ '']''
      | None \<Rightarrow> ''Entity: '' @ entity @ '' is currently empty!'')"

definition API_get ::
  "beast \<Rightarrow> path_lib \<Rightarrow> 's filesystem \<Rightarrow> path \<Rightarrow> int \<Rightarrow> string \<Rightarrow> http_response \<Rightarrow>
   's api_state \<Rightarrow> bool \<times> http_response \<times> 's api_state" where
  "API_get B P FS full_path eid entity res st =
     (if eid = 0 then
        (if \<not> fs_exists FS full_path (store st) then (False, set_notfound_request B res, st)
         else (True, prepare_payload B (res\<lparr>result := ok, content_type := Some ''text/plain'',
                  body := listing_body entity (entity_id_map st)\<rparr>), st))
      else if \<not> fs_exists FS full_path (store st) \<or> \<not> fs_is_regular_file FS full_path (store st) then
        (False, set_notfound_request B res,
         st\<lparr>entity_id_map := erase_if_exist entity eid (entity_id_map st)\<rparr>)
      else
        (True, prepare_payload B (res\<lparr>result := ok,
           content_type := Some (extensionToMIME (path_extension P full_path)),
           body := fs_read_file FS full_path (store st)\<rparr>),
         st\<lparr>entity_id_map := insert_if_notexist entity eid (entity_id_map st)\<rparr>))"

definition API_put ::
  "beast \<Rightarrow> path_lib \<Rightarrow> 's filesystem \<Rightarrow> api_handler \<Rightarrow> path \<Rightarrow> int \<Rightarrow> string \<Rightarrow> http_request \<Rightarrow>
   http_response \<Rightarrow> 's api_state \<Rightarrow> (bool \<times> http_response \<times> 's api_state) res" where
  "API_put B P FS h full_path eid entity req res st =
     (if eid = 0 \<or> \<not> path_eq P (parent_path P (parent_path P full_path)) (base_path h)
      then Inr (False, set_bad_request B res, st)
      else
        bind_res
          (if \<not> fs_exists FS (parent_path P full_path) (store st)
           then bind_res (fs_create_directory FS (parent_path P full_path) (store st)) (\<lambda>(_, s').
             Inr (st\<lparr>store := s'\<rparr>))
           else Inr st)
          (\<lambda>st1.
            let s2 = snd (fs_write_file FS full_path (req_body req) (store st1))
            in Inr (True, prepare_payload B (res\<lparr>result := ok\<rparr>),
                 st1\<lparr>store := s2, entity_id_map := insert_if_notexist entity eid (entity_id_map st1)\<rparr>)))"

definition API_delete ::
  "beast \<Rightarrow> 's filesystem \<Rightarrow> path \<Rightarrow> int \<Rightarrow> string \<Rightarrow> http_response \<Rightarrow> 's api_state \<Rightarrow>
   (bool \<times> http_response \<times> 's api_state) res" where
  "API_delete B FS full_path eid entity res st =
     (if \<not> fs_exists FS full_path (store st) \<or> \<not> fs_is_regular_file FS full_path (store st)
      then Inr (False, set_notfound_request B res, st)
      else
        bind_res (fs_remove FS full_path (store st)) (\<lambda>(_, s').
          Inr (True, prepare_payload B (res\<lparr>result := ok\<rparr>),
            st\<lparr>store := s', entity_id_map := erase_if_exist entity eid (entity_id_map st)\<rparr>)))"

definition api_unsupported :: "string list" where
  "api_unsupported = [''HEAD'', ''CONNECT'', ''OPTIONS'', ''TRACE'', ''PATCH'']"

definition API_get_response ::
  "beast \<Rightarrow> path_lib \<Rightarrow> 's filesystem \<Rightarrow> api_handler \<Rightarrow> http_request \<Rightarrow> http_response \<Rightarrow>
   's api_state \<Rightarrow> (bool \<times> http_response \<times> 's api_state) res" where
  "API_get_response B P FS h req res st =
     bind_res (parse_url_target P h req) (\<lambda>(parsed, full_path, eid, entity).
       if \<not> parsed then Inr (False, set_notfound_request B res, st)
       else if method_string req = ''POST'' then API_post B P FS h full_path entity req res st
       else if method_string req = ''GET'' then Inr (API_get B P FS full_path eid entity res st)
       else if method_string req = ''PUT'' then API_put B P FS h full_path eid entity req res st
       else if method_string req = ''DELETE'' then API_delete B FS full_path eid entity res st
       else if method_string req \<in> set api_unsupported then
         Inr (False, html_response B method_not_allowed ''<html><h1>405 Not Allowed</h1></html>'' res, st)
       else Inr (False, set_bad_request B res, st))"

end
