(* ===== verification/PosixDisk.thy ===== *)
theory PosixDisk
  imports FileSystem
begin

text \<open>
  A concrete instance of the parameters that stand for \<^verbatim>\<open>boost::filesystem\<close>: POSIX path strings
  as the Boost documentation describes \<^verbatim>\<open>operator/=\<close>, \<^verbatim>\<open>parent_path\<close>,
  \<^verbatim>\<open>filename\<close> and \<^verbatim>\<open>extension\<close>, and an in-memory disk that resolves \<^verbatim>\<open>.\<close> and
  \<^verbatim>\<open>..\<close>. It models no code of the repository; it shows that the hypotheses made about Boost can
  hold together, and it is where concrete runs of the handlers are evaluated.
\<close>

section \<open>Path strings\<close>

fun split_slash :: "string \<Rightarrow> string list" where
  "split_slash [] = [[]]"
| "split_slash (c # cs) =
     (if c = CHR ''/'' then [] # split_slash cs
      else (case split_slash cs of [] \<Rightarrow> [[c]] | w # ws \<Rightarrow> (c # w) # ws))"

fun normal_components :: "string list \<Rightarrow> string list \<Rightarrow> string list" where
  "normal_components acc [] = rev acc"
| "normal_components acc (w # ws) =
     (if w = [] \<or> w = ''.'' then normal_components acc ws
      else if w = ''..'' then normal_components (tl acc) ws
      else normal_components (w # acc) ws)"

definition resolve :: "path \<Rightarrow> string list" where
  "resolve p = normal_components [] (split_slash p)"

definition posix_append :: "path \<Rightarrow> string \<Rightarrow> path" where
  "posix_append p s =
     (if s = [] then p
      else if p = [] \<or> last p = CHR ''/'' \<or> hd s = CHR ''/'' then p @ s
      else p @ CHR ''/'' # s)"

definition posix_parent :: "path \<Rightarrow> path" where
  "posix_parent p =
     (case find_last_of CHR ''/'' p of
        None \<Rightarrow> []
      | Some i \<Rightarrow> if i = 0 then (if p = ''/'' then [] else ''/'') else take i p)"

definition posix_filename :: "path \<Rightarrow> string" where
  "posix_filename p =
     (let w = last (split_slash p) in if w = [] \<and> p \<noteq> [] then ''.'' else w)"

definition posix_extension :: "path \<Rightarrow> string" where
  "posix_extension p =
     (let w = posix_filename p in
      if w = ''.'' \<or> w = ''..'' then []
      else case find_last_of CHR ''.'' w of None \<Rightarrow> [] | Some i \<Rightarrow> drop i w)"

definition posix_path :: path_lib where
  "posix_path =
     \<lparr>path_append = posix_append, parent_path = posix_parent, path_eq = (=),
      path_extension = posix_extension, path_filename = posix_filename\<rparr>"

section \<open>The disk\<close>

datatype node = Dir | File string

type_synonym disk = "(string list \<times> node) list"

definition disk_at :: "disk \<Rightarrow> string list \<Rightarrow> node option" where
  "disk_at d ws = (if ws = [] then Some Dir else map_of d ws)"

definition disk_put :: "string list \<Rightarrow> node \<Rightarrow> disk \<Rightarrow> disk" where
  "disk_put ws n d = (ws, n) # filter (\<lambda>(ws', _). ws' \<noteq> ws) d"

definition is_file :: "node option \<Rightarrow> bool" where
  "is_file n = (case n of Some (File _) \<Rightarrow> True | _ \<Rightarrow> False)"

definition disk_writable :: "path \<Rightarrow> disk \<Rightarrow> bool" where
  "disk_writable p d \<longleftrightarrow>
     resolve p \<noteq> [] \<and> disk_at d (butlast (resolve p)) = Some Dir \<and> disk_at d (resolve p) \<noteq> Some Dir"

text \<open>Every file and directory lies in a directory.\<close>

definition disk_ok :: "disk \<Rightarrow> bool" where
  "disk_ok d \<longleftrightarrow> (\<forall>(ws, n) \<in> set d. disk_at d (butlast ws) = Some Dir)"

definition disk_makeable :: "path \<Rightarrow> disk \<Rightarrow> bool" where
  "disk_makeable p d \<longleftrightarrow>
     resolve p \<noteq> [] \<and> disk_at d (butlast (resolve p)) = Some Dir \<and> disk_at d (resolve p) = None"

definition directly_inside :: "path \<Rightarrow> path \<Rightarrow> bool" where
  "directly_inside d p \<longleftrightarrow> resolve p \<noteq> [] \<and> butlast (resolve p) = resolve d"

definition posix_fs :: "disk boost_fs" where
  "posix_fs =
     \<lparr>bfs_exists = (\<lambda>p d. disk_at d (resolve p) \<noteq> None),
      bfs_is_regular_file = (\<lambda>p d. is_file (disk_at d (resolve p))),
      bfs_is_directory = (\<lambda>p d. disk_at d (resolve p) = Some Dir),
      bfs_create_directory = (\<lambda>p d.
        if disk_at d (resolve p) = Some Dir then Inr (False, d)
        else if disk_makeable p d
          then Inr (True, disk_put (resolve p) Dir d)
        else Inl (Exn Other_exception)),
      bfs_remove = (\<lambda>p d.
        if disk_at d (resolve p) = None then Inr (False, d)
        else if is_file (disk_at d (resolve p))
          then Inr (True, filter (\<lambda>(ws, _). ws \<noteq> resolve p) d)
        else Inl (Exn Other_exception)),
      bfs_directory_iterator = (\<lambda>p d.
        map (\<lambda>(ws, _). posix_append p (last ws))
          (filter (\<lambda>(ws, _). ws \<noteq> [] \<and> butlast ws = resolve p) d)),
      ofstream_write = (\<lambda>p t d. if disk_writable p d then disk_put (resolve p) (File t) d else d),
      ifstream_read = (\<lambda>p d. case disk_at d (resolve p) of Some (File t) \<Rightarrow> t | _ \<Rightarrow> [])\<rparr>"

section \<open>RealFileSsystem over it keeps what is written\<close>

lemma map_of_filter_key:
  "map_of (filter (\<lambda>(k, _). k \<noteq> a) m) k = (if k = a then None else map_of m k)"
  by (induction m) auto

lemma disk_at_put: "ws \<noteq> [] \<Longrightarrow> disk_at (disk_put ws n d) ws' = (if ws' = ws then Some n else disk_at d ws')"
  by (simp add: disk_at_def disk_put_def map_of_filter_key)

lemma disk_at_remove:
  "is_file (disk_at d ws) \<Longrightarrow>
   disk_at (filter (\<lambda>(k, _). k \<noteq> ws) d) ws' = (if ws' = ws then None else disk_at d ws')"
  by (auto simp: disk_at_def map_of_filter_key is_file_def)

lemma disk_writable_nonempty: "disk_writable p d \<Longrightarrow> resolve p \<noteq> []"
  by (simp add: disk_writable_def)

lemmas real_defs = RealFileSystem_def posix_fs_def

lemma is_file_not_None: "is_file n \<Longrightarrow> n \<noteq> None"
  by (cases n) (auto simp: is_file_def)

lemma disk_okD:
  assumes "disk_ok d" and "disk_at d ws = Some n" and "ws \<noteq> []"
  shows "disk_at d (butlast ws) = Some Dir"
proof -
  have "(ws, n) \<in> set d" using assms(2,3) by (simp add: disk_at_def map_of_SomeD)
  with assms(1) show ?thesis by (auto simp: disk_ok_def)
qed

lemma butlast_neq_self: "ws \<noteq> [] \<Longrightarrow> butlast ws \<noteq> ws"
  by (metis append_butlast_last_id append_self_conv not_Cons_self2)

lemma disk_ok_put:
  assumes "disk_ok d" and "ws \<noteq> []" and "disk_at d (butlast ws) = Some Dir"
    and "disk_at d ws = Some Dir \<Longrightarrow> n = Dir"
  shows "disk_ok (disk_put ws n d)"
proof -
  have "disk_at (disk_put ws n d) (butlast ws') = Some Dir" if "(ws', n') \<in> set (disk_put ws n d)"
    for ws' n'
  proof (cases "ws' = ws")
    case True
    with assms show ?thesis by (simp add: disk_at_put butlast_neq_self)
  next
    case False
    with that have "(ws', n') \<in> set d" by (auto simp: disk_put_def)
    with assms(1) have "disk_at d (butlast ws') = Some Dir" by (auto simp: disk_ok_def)
    with assms show ?thesis by (auto simp: disk_at_put)
  qed
  then show ?thesis by (auto simp: disk_ok_def)
qed

lemma disk_ok_remove:
  assumes "disk_ok d" and "is_file (disk_at d ws)"
  shows "disk_ok (filter (\<lambda>(k, _). k \<noteq> ws) d)"
proof -
  have "disk_at (filter (\<lambda>(k, _). k \<noteq> ws) d) (butlast ws') = Some Dir" if "(ws', n') \<in> set d" for ws' n'
  proof -
    have "disk_at d (butlast ws') = Some Dir" using that assms(1) by (auto simp: disk_ok_def)
    with assms(2) show ?thesis by (auto simp: disk_at_remove is_file_def)
  qed
  then show ?thesis by (auto simp: disk_ok_def)
qed

lemma disk_writable_in_new_dir:
  assumes "disk_ok d" and "disk_makeable p d" and "directly_inside p q"
  shows "disk_writable q (disk_put (resolve p) Dir d)"
proof -
  have p: "resolve p \<noteq> []" "disk_at d (resolve p) = None"
    using assms(2) by (auto simp: disk_makeable_def)
  have q: "resolve q \<noteq> []" "butlast (resolve q) = resolve p"
    using assms(3) by (auto simp: directly_inside_def)
  have "resolve q \<noteq> resolve p" using q by (metis butlast_neq_self)
  moreover have "disk_at d (resolve q) \<noteq> Some Dir"
    using disk_okD [OF assms(1)] p(2) q by force
  ultimately show ?thesis using p q by (simp add: disk_writable_def disk_at_put)
qed

interpretation real: content_store "RealFileSystem posix_fs" disk_ok disk_writable disk_makeable
  directly_inside "\<lambda>p q. resolve p \<noteq> resolve q"
proof unfold_locales
  fix s p t assume "disk_ok s" and w: "disk_writable p s"
  then show "disk_ok (snd (fs_write_file (RealFileSystem posix_fs) p t s))"
    by (auto simp: real_defs disk_writable_def intro!: disk_ok_put)
  from w show "fs_exists (RealFileSystem posix_fs) p (snd (fs_write_file (RealFileSystem posix_fs) p t s))"
    and "fs_is_regular_file (RealFileSystem posix_fs) p
      (snd (fs_write_file (RealFileSystem posix_fs) p t s))"
    and "fs_read_file (RealFileSystem posix_fs) p
      (snd (fs_write_file (RealFileSystem posix_fs) p t s)) = t"
    by (simp_all add: real_defs disk_at_put disk_writable_nonempty is_file_def)
next
  fix s p q t assume "disk_writable p s" and "resolve p \<noteq> resolve q"
  then show "fs_exists (RealFileSystem posix_fs) q
      (snd (fs_write_file (RealFileSystem posix_fs) p t s)) = fs_exists (RealFileSystem posix_fs) q s"
    and "fs_read_file (RealFileSystem posix_fs) q
      (snd (fs_write_file (RealFileSystem posix_fs) p t s)) = fs_read_file (RealFileSystem posix_fs) q s"
    by (simp_all add: real_defs disk_at_put disk_writable_nonempty)
next
  fix s d assume "disk_ok s" and "disk_makeable d s"
  moreover from this have "disk_ok (disk_put (resolve d) Dir s)"
    by (intro disk_ok_put) (auto simp: disk_makeable_def)
  ultimately show "\<exists>s'. fs_create_directory (RealFileSystem posix_fs) d s = Inr (True, s') \<and> disk_ok s'
    \<and> fs_exists (RealFileSystem posix_fs) d s' \<and> (\<forall>p. directly_inside d p \<longrightarrow> disk_writable p s')"
    by (simp add: real_defs disk_writable_in_new_dir)
      (simp add: disk_makeable_def disk_at_put)
next
  fix s p assume ok: "disk_ok s" and "fs_is_regular_file (RealFileSystem posix_fs) p s"
  then have f: "is_file (disk_at s (resolve p))" by (simp add: real_defs)
  with ok show "\<exists>s'. fs_remove (RealFileSystem posix_fs) p s = Inr (True, s') \<and> disk_ok s'
    \<and> \<not> fs_exists (RealFileSystem posix_fs) p s'
    \<and> (\<forall>q. resolve p \<noteq> resolve q \<longrightarrow>
        fs_exists (RealFileSystem posix_fs) q s' = fs_exists (RealFileSystem posix_fs) q s)"
    by (simp add: real_defs disk_at_remove disk_ok_remove is_file_not_None)
qed (simp_all add: real_defs)

end
