(* ===== verification/ApiTheorems.thy ===== *)
theory ApiTheorems
  imports ApiHandler PosixDisk
begin

text \<open>
  Correctness of the CRUD handler: the index as an implementation of a relation between entity names
  and identifiers, the identifier a POST allocates, what the target parser does with the targets the
  README describes, and what a client observes over several requests (POST, PUT and DELETE followed
  by GET), for every file store that satisfies the contract of \<open>FileSystem\<close>.
\<close>

section \<open>Specifications\<close>

text \<open>The index as a relation, and its representation invariant.\<close>

definition index_rel :: "entity_index \<Rightarrow> (string \<times> int) set" where
  "index_rel m = {(e, i). \<exists>s. map_find m e = Some s \<and> set_member s i}"

definition index_inv :: "entity_index \<Rightarrow> bool" where
  "index_inv m \<longleftrightarrow> map_sorted m \<and> (\<forall>e s. map_find m e = Some s \<longrightarrow> ascending s)"

definition ids_of :: "entity_index \<Rightarrow> string \<Rightarrow> int std_set" where
  "ids_of m e = (case map_find m e of None \<Rightarrow> [] | Some s \<Rightarrow> s)"

text \<open>What the handler relies on of \<^verbatim>\<open>fs::path\<close>, for its own base path: a name appended to the base
  has the base as its parent, and appending an entity and then an identifier is appending both.\<close>

definition path_laws :: "path_lib \<Rightarrow> path \<Rightarrow> bool" where
  "path_laws P base \<longleftrightarrow>
     (\<forall>e. e \<noteq> [] \<and> CHR ''/'' \<notin> set e \<longrightarrow>
        path_eq P (parent_path P (path_append P base (CHR ''/'' # e))) base)
     \<and> (\<forall>e n. e \<noteq> [] \<and> n \<noteq> [] \<and> CHR ''/'' \<notin> set e \<and> CHR ''/'' \<notin> set n \<longrightarrow>
        path_append P (path_append P base (CHR ''/'' # e)) n =
          path_append P base (CHR ''/'' # e @ CHR ''/'' # n)
        \<and> parent_path P (path_append P base (CHR ''/'' # e @ CHR ''/'' # n)) =
          path_append P base (CHR ''/'' # e))"

definition entity_name :: "string \<Rightarrow> bool" where
  "entity_name e \<longleftrightarrow> e \<noteq> [] \<and> CHR ''/'' \<notin> set e"

definition entity_path :: "path_lib \<Rightarrow> api_handler \<Rightarrow> string \<Rightarrow> path" where
  "entity_path P h e = path_append P (base_path h) (CHR ''/'' # e)"

definition item_path :: "path_lib \<Rightarrow> api_handler \<Rightarrow> string \<Rightarrow> int \<Rightarrow> path" where
  "item_path P h e i = path_append P (base_path h) (CHR ''/'' # e @ CHR ''/'' # to_string i)"

text \<open>The requests of a client: a method on an entity, or on one item of it. The location the route
  matched is the first part of the target.\<close>

definition entity_request :: "string \<Rightarrow> string \<Rightarrow> string \<Rightarrow> string \<Rightarrow> http_request" where
  "entity_request m loc e text =
     \<lparr>method_string = m, target = loc @ CHR ''/'' # e, req_version = 11, req_fields = [], req_body = text\<rparr>"

definition item_request :: "string \<Rightarrow> string \<Rightarrow> string \<Rightarrow> int \<Rightarrow> string \<Rightarrow> http_request" where
  "item_request m loc e i text =
     \<lparr>method_string = m, target = loc @ CHR ''/'' # e @ CHR ''/'' # to_string i, req_version = 11,
      req_fields = [], req_body = text\<rparr>"

text \<open>Identifiers in the text of a listing.\<close>

fun join_commas :: "int list \<Rightarrow> string" where
  "join_commas [] = []"
| "join_commas [i] = to_string i"
| "join_commas (i # is) = to_string i @ CHR '','' # join_commas is"

section \<open>The index implements a relation\<close>

text \<open>What the handler relies on of the index, as a contract of its own.\<close>

locale id_index =
  fixes rel :: "'m \<Rightarrow> (string \<times> int) set"
    and invar :: "'m \<Rightarrow> bool"
    and ins :: "string \<Rightarrow> int \<Rightarrow> 'm \<Rightarrow> 'm"
    and era :: "string \<Rightarrow> int \<Rightarrow> 'm \<Rightarrow> 'm"
  assumes rel_ins: "invar m \<Longrightarrow> rel (ins e i m) = insert (e, i) (rel m)"
    and rel_era: "invar m \<Longrightarrow> rel (era e i m) = rel m - {(e, i)}"
    and invar_ins: "invar m \<Longrightarrow> invar (ins e i m)"
    and invar_era: "invar m \<Longrightarrow> invar (era e i m)"
begin

lemma era_after_ins: "invar m \<Longrightarrow> rel (era e i (ins e i m)) = rel m - {(e, i)}"
  by (auto simp: rel_era rel_ins invar_ins)

lemma ins_idem: "invar m \<Longrightarrow> (e, i) \<in> rel m \<Longrightarrow> rel (ins e i m) = rel m"
  by (auto simp: rel_ins)

lemma ins_commute: "invar m \<Longrightarrow> rel (ins e i (ins e' i' m)) = rel (ins e' i' (ins e i m))"
  by (auto simp: rel_ins invar_ins)

end

lemma index_inv_assign:
  assumes "index_inv m" and "ascending s"
  shows "index_inv (map_assign e s m)"
  using assms by (auto simp: index_inv_def map_facts split: if_splits)

lemma index_inv_insert:
  assumes "index_inv m" and "ascending s"
  shows "index_inv (map_insert e s m)"
  using assms by (auto simp: index_inv_def map_facts split: if_splits)

lemma index_rel_assign:
  assumes "index_inv m"
  shows "index_rel (map_assign e s m) = {(e', i). e' \<noteq> e \<and> (e', i) \<in> index_rel m} \<union> {e} \<times> set s"
  using assms by (auto simp: index_inv_def index_rel_def map_facts set_member_def split: if_splits)

lemma index_rel_insert_new:
  assumes "index_inv m" and "map_find m e = None"
  shows "index_rel (map_insert e s m) = index_rel m \<union> {e} \<times> set s"
  using assms by (auto simp: index_inv_def index_rel_def map_facts set_member_def split: if_splits)

lemma index_rel_insert_if_notexist:
  assumes "index_inv m"
  shows "index_rel (insert_if_notexist e i m) = insert (e, i) (index_rel m)"
proof (cases "map_find m e")
  case None
  with assms show ?thesis by (auto simp: insert_if_notexist_def index_rel_insert_new)
next
  case (Some s)
  then have "(e, j) \<in> index_rel m \<longleftrightarrow> j \<in> set s" for j
    by (simp add: index_rel_def set_member_def)
  with Some assms show ?thesis
    by (auto simp: insert_if_notexist_def index_rel_assign set_member_def)
qed

lemma index_rel_erase_if_exist:
  assumes "index_inv m"
  shows "index_rel (erase_if_exist e i m) = index_rel m - {(e, i)}"
proof (cases "map_find m e")
  case None
  then show ?thesis by (auto simp: erase_if_exist_def index_rel_def)
next
  case (Some s)
  then have "(e, j) \<in> index_rel m \<longleftrightarrow> j \<in> set s" for j
    by (simp add: index_rel_def set_member_def)
  moreover have "ascending s" using assms Some by (simp add: index_inv_def)
  ultimately show ?thesis using Some assms
    by (auto simp: erase_if_exist_def index_rel_assign set_member_def set_set_erase)
qed

lemma index_inv_insert_if_notexist: "index_inv m \<Longrightarrow> index_inv (insert_if_notexist e i m)"
  unfolding insert_if_notexist_def
  by (auto simp: index_inv_insert split: option.splits)
    (metis ascending_set_insert index_inv_assign index_inv_def)

lemma index_inv_erase_if_exist: "index_inv m \<Longrightarrow> index_inv (erase_if_exist e i m)"
  unfolding erase_if_exist_def
  by (auto split: option.splits) (metis ascending_set_erase index_inv_assign index_inv_def)

interpretation index: id_index index_rel index_inv insert_if_notexist erase_if_exist
  by unfold_locales
    (simp_all add: index_rel_insert_if_notexist index_rel_erase_if_exist
      index_inv_insert_if_notexist index_inv_erase_if_exist)

section \<open>The identifier a POST allocates\<close>

lemma next_free_not_member: "\<not> set_member ids (next_free ids i)"
  by (induction ids i rule: next_free.induct) (subst next_free.simps, auto)

lemma next_free_ge: "i \<le> next_free ids i"
  by (induction ids i rule: next_free.induct) (subst next_free.simps, force)

lemma next_free_least: "i \<le> j \<Longrightarrow> j < next_free ids i \<Longrightarrow> set_member ids j"
proof (induction ids i rule: next_free.induct)
  case (1 ids i)
  then show ?case
    by (cases "set_member ids i"; cases "j = i") (auto simp: next_free.simps [of ids i])
qed

lemma next_free_bound: "next_free ids 1 \<le> int (length ids) + 1"
proof -
  have "{1..<next_free ids 1} \<subseteq> set ids"
    using next_free_least [of 1] by (auto simp: set_member_def)
  then have "card {1..<next_free ids 1} \<le> card (set ids)" by (intro card_mono) simp_all
  also have "\<dots> \<le> length ids" by (rule card_length)
  finally show ?thesis using next_free_ge [of 1 ids] by simp
qed

lemma get_next_id_spec:
  assumes "index_inv m" and "map_find m e = Some s"
  shows "\<exists>m'. get_next_id e m = Inr (next_free s 1, m') \<and> index_inv m'
    \<and> index_rel m' = insert (e, next_free s 1) (index_rel m)
    \<and> map_find m' e = Some (set_insert (next_free s 1) s)"
proof -
  have "ascending s" using assms by (simp add: index_inv_def)
  moreover have "(e, j) \<in> index_rel m \<longleftrightarrow> j \<in> set s" for j
    using assms by (simp add: index_rel_def set_member_def)
  ultimately show ?thesis
    using assms
    by (auto simp: get_next_id_def Let_def index_inv_assign ascending_set_insert index_rel_assign
        index_inv_def map_facts)
qed

section \<open>Targets\<close>

lemma last_Cons_notin: "e \<noteq> [] \<Longrightarrow> c \<notin> set e \<Longrightarrow> last e \<noteq> c"
  by (metis last_in_set)

lemma parse_entity_target:
  assumes "entity_name e" and "prefix_length h = length loc"
  shows "parse_url_target P h (entity_request m loc e text) =
    Inr (True, entity_path P h e, (case stoi e of Inr i \<Rightarrow> i | Inl _ \<Rightarrow> 0), e)"
proof -
  have e: "e \<noteq> []" "CHR ''/'' \<notin> set e" using assms(1) by (auto simp: entity_name_def)
  have "find_last_of CHR ''/'' (CHR ''/'' # e) = Some 0"
    using find_last_of_append [OF e(2), of "[]"] by simp
  then show ?thesis
    using e assms(2) last_Cons_notin [OF e]
    by (simp add: parse_url_target_def entity_request_def entity_path_def substr_from_ok Let_def
        split: sum.splits)
qed

lemma parse_item_target:
  assumes "entity_name e" and "prefix_length h = length loc" and "int_min \<le> i" and "i \<le> int_max"
  shows "parse_url_target P h (item_request m loc e i text) = Inr (True, item_path P h e i, i, e)"
proof -
  have e: "e \<noteq> []" "CHR ''/'' \<notin> set e" using assms(1) by (auto simp: entity_name_def)
  have fl: "find_last_of CHR ''/'' (CHR ''/'' # e @ CHR ''/'' # to_string i) = Some (Suc (length e))"
    using find_last_of_append [OF to_string_no_slash, of "CHR ''/'' # e" i] by simp
  have "last (to_string i) \<noteq> CHR ''/''" by (rule last_Cons_notin) (simp_all add: to_string_no_slash)
  then show ?thesis
    using e assms(2) fl stoi_to_string [OF assms(3,4)]
    by (simp add: parse_url_target_def item_request_def item_path_def substr_from_ok Let_def)
qed

lemma item_path_alt:
  assumes "path_laws P (base_path h)" and "entity_name e"
  shows "path_append P (entity_path P h e) (to_string i) = item_path P h e i"
    and "parent_path P (item_path P h e i) = entity_path P h e"
    and "path_eq P (parent_path P (entity_path P h e)) (base_path h)"
  using assms to_string_no_slash [of i]
  by (simp_all add: path_laws_def entity_path_def item_path_def entity_name_def)

lemma posix_parent_append: "p \<noteq> [] \<Longrightarrow> CHR ''/'' \<notin> set w \<Longrightarrow> posix_parent (p @ CHR ''/'' # w) = p"
  by (simp add: posix_parent_def find_last_of_append)

lemma path_laws_posix:
  assumes "base \<noteq> []" and "last base \<noteq> CHR ''/''"
  shows "path_laws posix_path base"
proof -
  have app: "posix_append base (CHR ''/'' # w) = base @ CHR ''/'' # w" for w
    by (simp add: posix_append_def)
  have app2: "posix_append (base @ CHR ''/'' # e) n = base @ CHR ''/'' # e @ CHR ''/'' # n"
    if "e \<noteq> []" "n \<noteq> []" "CHR ''/'' \<notin> set e" "CHR ''/'' \<notin> set n" for e n
    using that last_Cons_notin [of e] by (cases n) (auto simp: posix_append_def)
  have "posix_parent (base @ CHR ''/'' # e @ CHR ''/'' # n) = base @ CHR ''/'' # e"
    if "CHR ''/'' \<notin> set n" for e n
    using posix_parent_append [of "base @ CHR ''/'' # e" n] that by simp
  then show ?thesis
    using assms(1) by (simp add: path_laws_def posix_path_def app app2 posix_parent_append)
qed

section \<open>Single requests\<close>

lemma method_string_requests [simp]:
  "method_string (entity_request m loc e text) = m" "method_string (item_request m loc e i text) = m"
  "req_body (entity_request m loc e text) = text" "req_body (item_request m loc e i text) = text"
  by (simp_all add: entity_request_def item_request_def)

text \<open>Retrieving an item: 200 with the file's content, or 404 and the identifier leaves the index.\<close>

lemma API_retrieve:
  assumes "payload_ok B" and "entity_name e" and "prefix_length h = length loc"
    and "int_min \<le> i" and "i \<le> int_max" and "i \<noteq> 0" and "p = item_path P h e i"
  shows "API_get_response B P FS h (item_request ''GET'' loc e i text) res st =
    (if fs_exists FS p (store st) \<and> fs_is_regular_file FS p (store st)
     then Inr (True, res\<lparr>result := ok, content_type := Some (extensionToMIME (path_extension P p)),
         body := fs_read_file FS p (store st),
         content_length := Some (length (fs_read_file FS p (store st)))\<rparr>,
       st\<lparr>entity_id_map := insert_if_notexist e i (entity_id_map st)\<rparr>)
     else Inr (False, set_notfound_request B res,
       st\<lparr>entity_id_map := erase_if_exist e i (entity_id_map st)\<rparr>))"
  using assms
  by (simp add: API_get_response_def parse_item_target API_get_def payload_okD)

lemma prepared_result:
  "payload_ok B \<Longrightarrow> prepare_payload B (res\<lparr>result := c\<rparr>) =
     res\<lparr>result := c, content_length := Some (length (body res))\<rparr>"
  by (simp add: payload_okD)

context file_store
begin

lemma API_post_spec:
  assumes B: "payload_ok B" and laws: "path_laws P (base_path h)" and e: "entity_name e"
    and loc: "prefix_length h = length loc"
    and inv: "invar (store st)" "index_inv (entity_id_map st)"
    and i: "i = next_free (ids_of (entity_id_map st) e) 1"
    and old: "fs_exists FS (entity_path P h e) (store st) \<Longrightarrow>
      map_find (entity_id_map st) e \<noteq> None \<and> writable (item_path P h e i) (store st)"
    and new: "\<not> fs_exists FS (entity_path P h e) (store st) \<Longrightarrow>
      makeable (entity_path P h e) (store st) \<and> inside (entity_path P h e) (item_path P h e i)"
  shows "\<exists>st' s1. API_get_response B P FS h (entity_request ''POST'' loc e text) res st =
      Inr (True, res\<lparr>result := created, body := created_body i,
        content_length := Some (length (created_body i))\<rparr>, st')
    \<and> index_inv (entity_id_map st')
    \<and> index_rel (entity_id_map st') = insert (e, i) (index_rel (entity_id_map st))
    \<and> store st' = snd (fs_write_file FS (item_path P h e i) text s1)
    \<and> invar s1 \<and> writable (item_path P h e i) s1"
proof -
  let ?d = "entity_path P h e"
  let ?m = "entity_id_map st"
  define m1 where "m1 = (if fs_exists FS ?d (store st) then ?m else map_insert e [] ?m)"
  have m1: "index_inv m1" "index_rel m1 = index_rel ?m" "map_find m1 e = Some (ids_of ?m e)"
    using inv(2) old
    by (auto simp: m1_def index_inv_insert index_rel_def map_facts index_inv_def ids_of_def
        set_member_def split: option.splits if_splits)
  obtain s1 where s1: "invar s1" "writable (item_path P h e i) s1"
    and step: "(if \<not> fs_exists FS ?d (store st)
        then bind_res (fs_create_directory FS ?d (store st)) (\<lambda>(_, s').
          Inr (st\<lparr>store := s', entity_id_map := map_insert e [] ?m\<rparr>))
        else Inr st) = Inr (st\<lparr>store := s1, entity_id_map := m1\<rparr>)"
  proof (cases "fs_exists FS ?d (store st)")
    case True
    with old inv(1) show ?thesis by (intro that [of "store st"]) (auto simp: m1_def)
  next
    case False
    with new mkdir [OF inv(1)] obtain s' where
      "fs_create_directory FS ?d (store st) = Inr (True, s')" "invar s'"
      "writable (item_path P h e i) s'" by blast
    with False show ?thesis by (intro that [of s']) (auto simp: m1_def)
  qed
  obtain m2 where m2: "get_next_id e m1 = Inr (i, m2)" "index_inv m2"
    "index_rel m2 = insert (e, i) (index_rel ?m)"
    using get_next_id_spec [OF m1(1,3)] m1(2) i by auto
  let ?st' = "st\<lparr>entity_id_map := m2, store := snd (fs_write_file FS (item_path P h e i) text s1)\<rparr>"
  have "API_get_response B P FS h (entity_request ''POST'' loc e text) res st =
      Inr (True, res\<lparr>result := created, body := created_body i,
        content_length := Some (length (created_body i))\<rparr>, ?st')"
    unfolding API_get_response_def parse_entity_target [OF e loc] API_post_def
    using item_path_alt [OF laws e] step m2(1)
    by (simp add: payload_okD [OF B] Let_def)
  with m2 s1 show ?thesis by (intro exI [of _ ?st'] exI [of _ s1]) simp
qed

lemma API_put_spec:
  assumes B: "payload_ok B" and laws: "path_laws P (base_path h)" and e: "entity_name e"
    and loc: "prefix_length h = length loc" and i: "int_min \<le> i" "i \<le> int_max" "i \<noteq> 0"
    and inv: "invar (store st)" "index_inv (entity_id_map st)"
    and old: "fs_exists FS (entity_path P h e) (store st) \<Longrightarrow> writable (item_path P h e i) (store st)"
    and new: "\<not> fs_exists FS (entity_path P h e) (store st) \<Longrightarrow>
      makeable (entity_path P h e) (store st) \<and> inside (entity_path P h e) (item_path P h e i)"
  shows "\<exists>st' s1. API_get_response B P FS h (item_request ''PUT'' loc e i text) res st =
      Inr (True, res\<lparr>result := ok, content_length := Some (length (body res))\<rparr>, st')
    \<and> index_inv (entity_id_map st')
    \<and> index_rel (entity_id_map st') = insert (e, i) (index_rel (entity_id_map st))
    \<and> store st' = snd (fs_write_file FS (item_path P h e i) text s1)
    \<and> invar s1 \<and> writable (item_path P h e i) s1"
proof -
  let ?d = "entity_path P h e"
  obtain s1 where s1: "invar s1" "writable (item_path P h e i) s1"
    and step: "(if \<not> fs_exists FS ?d (store st)
        then bind_res (fs_create_directory FS ?d (store st)) (\<lambda>(_, s'). Inr (st\<lparr>store := s'\<rparr>))
        else Inr st) = Inr (st\<lparr>store := s1\<rparr>)"
  proof (cases "fs_exists FS ?d (store st)")
    case True
    with old inv(1) show ?thesis by (intro that [of "store st"]) auto
  next
    case False
    with new mkdir [OF inv(1)] obtain s' where
      "fs_create_directory FS ?d (store st) = Inr (True, s')" "invar s'"
      "writable (item_path P h e i) s'" by blast
    with False show ?thesis by (intro that [of s']) auto
  qed
  let ?st' = "st\<lparr>store := snd (fs_write_file FS (item_path P h e i) text s1),
    entity_id_map := insert_if_notexist e i (entity_id_map st)\<rparr>"
  have "API_get_response B P FS h (item_request ''PUT'' loc e i text) res st =
      Inr (True, res\<lparr>result := ok, content_length := Some (length (body res))\<rparr>, ?st')"
    unfolding API_get_response_def parse_item_target [OF e loc i(1,2)] API_put_def bind_res_simps
      prod.case item_path_alt(2) [OF laws e] step
    using item_path_alt(3) [OF laws e] i(3) by (simp add: prepared_result [OF B] Let_def)
  with s1 inv(2) show ?thesis
    by (intro exI [of _ ?st'] exI [of _ s1])
      (simp add: index_inv_insert_if_notexist index_rel_insert_if_notexist)
qed

lemma API_delete_spec:
  assumes B: "payload_ok B" and e: "entity_name e" and loc: "prefix_length h = length loc"
    and i: "int_min \<le> i" "i \<le> int_max" and inv: "invar (store st)" "index_inv (entity_id_map st)"
    and p: "fs_exists FS (item_path P h e i) (store st)"
      "fs_is_regular_file FS (item_path P h e i) (store st)"
  shows "\<exists>st'. API_get_response B P FS h (item_request ''DELETE'' loc e i text) res st =
      Inr (True, res\<lparr>result := ok, content_length := Some (length (body res))\<rparr>, st')
    \<and> invar (store st') \<and> index_inv (entity_id_map st')
    \<and> index_rel (entity_id_map st') = index_rel (entity_id_map st) - {(e, i)}
    \<and> \<not> fs_exists FS (item_path P h e i) (store st')
    \<and> (\<forall>q. indep (item_path P h e i) q \<longrightarrow> fs_exists FS q (store st') = fs_exists FS q (store st))"
proof -
  obtain s' where s': "fs_remove FS (item_path P h e i) (store st) = Inr (True, s')" "invar s'"
    "\<not> fs_exists FS (item_path P h e i) s'"
    "\<forall>q. indep (item_path P h e i) q \<longrightarrow> fs_exists FS q s' = fs_exists FS q (store st)"
    using remove_gone [OF inv(1) p] by blast
  let ?st' = "st\<lparr>store := s', entity_id_map := erase_if_exist e i (entity_id_map st)\<rparr>"
  have "API_get_response B P FS h (item_request ''DELETE'' loc e i text) res st =
      Inr (True, res\<lparr>result := ok, content_length := Some (length (body res))\<rparr>, ?st')"
    unfolding API_get_response_def parse_item_target [OF e loc i] API_delete_def
    using p s'(1) by (simp add: prepared_result [OF B])
  with s' inv(2) show ?thesis
    by (intro exI [of _ ?st']) (simp add: index_inv_erase_if_exist index_rel_erase_if_exist)
qed

text \<open>A deleted item is gone: the next GET answers 404.\<close>

lemma API_delete_then_get:
  assumes B: "payload_ok B" and e: "entity_name e" and loc: "prefix_length h = length loc"
    and i: "int_min \<le> i" "i \<le> int_max" "i \<noteq> 0"
    and inv: "invar (store st)" "index_inv (entity_id_map st)"
    and p: "fs_exists FS (item_path P h e i) (store st)"
      "fs_is_regular_file FS (item_path P h e i) (store st)"
  shows "\<exists>res1 st1 res2 st2.
      API_get_response B P FS h (item_request ''DELETE'' loc e i t1) res st = Inr (True, res1, st1)
    \<and> result res1 = ok
    \<and> API_get_response B P FS h (item_request ''GET'' loc e i t2) res1 st1 = Inr (False, res2, st2)
    \<and> result res2 = not_found \<and> store st2 = store st1
    \<and> (e, i) \<notin> index_rel (entity_id_map st2)"
proof -
  obtain st1 where del: "API_get_response B P FS h (item_request ''DELETE'' loc e i t1) res st =
      Inr (True, res\<lparr>result := ok, content_length := Some (length (body res))\<rparr>, st1)"
    and inv1: "index_inv (entity_id_map st1)"
    and gone: "\<not> fs_exists FS (item_path P h e i) (store st1)"
    using API_delete_spec [OF B e loc i(1,2) inv p] by blast
  show ?thesis
    using del gone inv1
    by (auto simp: API_retrieve [OF B e loc i refl] set_notfound_request_def html_response_sel [OF B]
        index_rel_erase_if_exist)
qed

end

context content_store
begin

text \<open>What was posted or put is what the next GET returns.\<close>

lemma API_post_then_get:
  assumes B: "payload_ok B" and laws: "path_laws P (base_path h)" and e: "entity_name e"
    and loc: "prefix_length h = length loc"
    and inv: "invar (store st)" "index_inv (entity_id_map st)"
    and i: "i = next_free (ids_of (entity_id_map st) e) 1" "i \<le> int_max"
    and old: "fs_exists FS (entity_path P h e) (store st) \<Longrightarrow>
      map_find (entity_id_map st) e \<noteq> None \<and> writable (item_path P h e i) (store st)"
    and new: "\<not> fs_exists FS (entity_path P h e) (store st) \<Longrightarrow>
      makeable (entity_path P h e) (store st) \<and> inside (entity_path P h e) (item_path P h e i)"
  shows "\<exists>res1 st1 res2 st2.
      API_get_response B P FS h (entity_request ''POST'' loc e text) res st = Inr (True, res1, st1)
    \<and> result res1 = created \<and> body res1 = created_body i
    \<and> API_get_response B P FS h (item_request ''GET'' loc e i t2) res1 st1 = Inr (True, res2, st2)
    \<and> result res2 = ok \<and> body res2 = text"
proof -
  obtain st1 s1 where post: "API_get_response B P FS h (entity_request ''POST'' loc e text) res st =
      Inr (True, res\<lparr>result := created, body := created_body i,
        content_length := Some (length (created_body i))\<rparr>, st1)"
    and st1: "store st1 = snd (fs_write_file FS (item_path P h e i) text s1)"
    and s1: "invar s1" "writable (item_path P h e i) s1"
    using API_post_spec [OF B laws e loc inv i(1) old new] by blast
  have pos: "1 \<le> i" using i(1) next_free_ge by simp
  then have range: "int_min \<le> i" "i \<noteq> 0" by (simp_all add: int_min_def)
  show ?thesis
    using post st1 write_exists [OF s1] write_regular [OF s1] read_write [OF s1]
    by (simp add: API_retrieve [OF B e loc range(1) i(2) range(2) refl])
qed

lemma API_put_then_get:
  assumes B: "payload_ok B" and laws: "path_laws P (base_path h)" and e: "entity_name e"
    and loc: "prefix_length h = length loc" and i: "int_min \<le> i" "i \<le> int_max" "i \<noteq> 0"
    and inv: "invar (store st)" "index_inv (entity_id_map st)"
    and old: "fs_exists FS (entity_path P h e) (store st) \<Longrightarrow> writable (item_path P h e i) (store st)"
    and new: "\<not> fs_exists FS (entity_path P h e) (store st) \<Longrightarrow>
      makeable (entity_path P h e) (store st) \<and> inside (entity_path P h e) (item_path P h e i)"
  shows "\<exists>res1 st1 res2 st2.
      API_get_response B P FS h (item_request ''PUT'' loc e i text) res st = Inr (True, res1, st1)
    \<and> result res1 = ok
    \<and> API_get_response B P FS h (item_request ''GET'' loc e i t2) res1 st1 = Inr (True, res2, st2)
    \<and> result res2 = ok \<and> body res2 = text"
proof -
  obtain st1 s1 where put: "API_get_response B P FS h (item_request ''PUT'' loc e i text) res st =
      Inr (True, res\<lparr>result := ok, content_length := Some (length (body res))\<rparr>, st1)"
    and st1: "store st1 = snd (fs_write_file FS (item_path P h e i) text s1)"
    and s1: "invar s1" "writable (item_path P h e i) s1"
    using API_put_spec [OF B laws e loc i inv old new] by blast
  show ?thesis
    using put st1 write_exists [OF s1] write_regular [OF s1] read_write [OF s1]
    by (simp add: API_retrieve [OF B e loc i refl])
qed

end

section \<open>Every request\<close>

lemma API_framed:
  assumes "payload_ok B" and "API_get_response B P FS h req res st = Inr (b, res', st')"
  shows "well_framed res'"
  using assms
  by (auto simp: API_get_response_def API_post_def API_get_def API_put_def API_delete_def
      set_bad_request_def set_notfound_request_def bind_res_eq_Inr_conv Let_def
      well_framed_html well_framed_prepare split: if_splits)

lemma get_next_id_inv:
  "index_inv m \<Longrightarrow> get_next_id e m = Inr (i, m') \<Longrightarrow> index_inv m'"
  using get_next_id_spec [of m e] by (cases "map_find m e") (auto simp: get_next_id_def)

lemma API_post_index_inv:
  assumes "index_inv (entity_id_map st)" and "API_post B P FS h fp e req res st = Inr (b, res', st')"
  shows "index_inv (entity_id_map st')"
  using assms
  by (auto simp: API_post_def bind_res_eq_Inr_conv Let_def index_inv_insert split: if_splits
      dest!: get_next_id_inv [rotated])

lemma API_put_index_inv:
  assumes "index_inv (entity_id_map st)" and "API_put B P FS h fp i e req res st = Inr (b, res', st')"
  shows "index_inv (entity_id_map st')"
  using assms
  by (auto simp: API_put_def bind_res_eq_Inr_conv Let_def index.invar_ins split: if_splits)

lemma API_index_inv:
  assumes "index_inv (entity_id_map st)" and "API_get_response B P FS h req res st = Inr (b, res', st')"
  shows "index_inv (entity_id_map st')"
  using assms
  by (auto simp: API_get_response_def API_get_def API_delete_def bind_res_eq_Inr_conv
      index.invar_ins index.invar_era split: if_splits
      dest: API_post_index_inv API_put_index_inv)

lemma API_refused_store:
  assumes "API_get_response B P FS h req res st = Inr (False, res', st')"
  shows "store st' = store st"
  using assms
  by (auto simp: API_get_response_def API_post_def API_get_def API_put_def API_delete_def
      bind_res_eq_Inr_conv Let_def split: if_splits)

lemma API_refused_index:
  assumes "index_inv (entity_id_map st)"
    and "API_get_response B P FS h req res st = Inr (False, res', st')"
  shows "index_rel (entity_id_map st') \<subseteq> index_rel (entity_id_map st)"
  using assms
  by (auto simp: API_get_response_def API_post_def API_get_def API_put_def API_delete_def
      bind_res_eq_Inr_conv Let_def index.rel_era split: if_splits)

lemma parse_url_target_fault:
  "parse_url_target P h req = Inl err \<Longrightarrow> err = Exn Out_of_range \<and> length (target req) < prefix_length h"
  by (auto simp: parse_url_target_def substr_from_def Let_def bind_res_eq_Inl_conv
      split: if_splits option.splits sum.splits)

lemma get_next_id_fault:
  "get_next_id e m = Inl err \<Longrightarrow> map_find m e = None \<and> err = UB End_iterator_deref"
  by (auto simp: get_next_id_def Let_def split: option.splits)

lemma map_insert_found: "map_sorted m \<Longrightarrow> map_find (map_insert e v m) e \<noteq> None"
  by (simp add: map_facts)

text \<open>The only ways out of the handler other than a response.\<close>

lemma API_faults:
  assumes inv: "index_inv (entity_id_map st)"
    and fault: "API_get_response B P FS h req res st = Inl err"
  shows "err = Exn Out_of_range \<and> length (target req) < prefix_length h
    \<or> (\<exists>p. fs_create_directory FS p (store st) = Inl err \<or> fs_remove FS p (store st) = Inl err)
    \<or> err = UB End_iterator_deref \<and> method_string req = ''POST''
      \<and> (\<exists>p i e. parse_url_target P h req = Inr (True, p, i, e) \<and> fs_exists FS p (store st)
           \<and> map_find (entity_id_map st) e = None)"
proof (cases "parse_url_target P h req")
  case (Inl x)
  with fault show ?thesis
    using parse_url_target_fault [OF Inl] by (simp add: API_get_response_def)
next
  case (Inr r)
  obtain parsed p i e where r: "r = (parsed, p, i, e)" by (metis prod_cases4)
  have sorted: "map_sorted (entity_id_map st)" using inv by (simp add: index_inv_def)
  have "parsed" using fault Inr r by (auto simp: API_get_response_def split: if_splits)
  then consider
      (post) "method_string req = ''POST''" "API_post B P FS h p e req res st = Inl err"
    | (put) "API_put B P FS h p i e req res st = Inl err"
    | (del) "API_delete B FS p i e res st = Inl err"
    using fault Inr r by (auto simp: API_get_response_def split: if_splits)
  then show ?thesis
  proof cases
    case post
    then show ?thesis
      using Inr r \<open>parsed\<close> map_insert_found [OF sorted, of e "[]"]
      by (auto simp: API_post_def bind_res_eq_Inl_conv bind_res_eq_Inr_conv Let_def split: if_splits
          dest!: get_next_id_fault)
  next
    case put
    then show ?thesis by (auto simp: API_put_def bind_res_eq_Inl_conv Let_def split: if_splits)
  next
    case del
    then show ?thesis by (auto simp: API_delete_def bind_res_eq_Inl_conv split: if_splits)
  qed
qed

section \<open>Listings\<close>

lemma commas_join:
  "ids \<noteq> [] \<Longrightarrow> concat (map (\<lambda>i. to_string i @ '','') ids) = join_commas ids @ '',''"
  by (induction ids rule: join_commas.induct) simp_all

lemma listing_nonempty:
  assumes "map_find m e = Some ids" and "ids \<noteq> []"
  shows "listing_body e m = ''['' @ join_commas ids @ '']''"
  using assms by (simp add: listing_body_def commas_join butlast_append)

lemma listing_empty: "map_find m e = Some [] \<Longrightarrow> listing_body e m = '']''"
  by (simp add: listing_body_def)

end
