(* ===== verification/SecureApi.thy ===== *)
theory SecureApi
  imports ApiTheorems
begin

text \<open>
  \<^verbatim>\<open>SecureRequestHandlerAPI\<close> of \<^verbatim>\<open>src/request_handler.cc\<close>, over the interface
  \<^verbatim>\<open>Auth\<close> of \<^verbatim>\<open>include/token_auth.hh\<close>, and the implementation \<^verbatim>\<open>FakeAuth\<close> of
  \<^verbatim>\<open>src/token_auth.cc\<close>. \<^verbatim>\<open>get_auth\<close> returns the level and writes the user id into its
  reference argument, so the model maps a token and the old content of that argument to both; it may
  also end in a fault.
\<close>

section \<open>Authorization levels and FakeAuth\<close>

datatype auth_level = NO_AUTH | PUBLIC_AUTH | PRIVATE_AUTH

type_synonym authorizer = "string \<Rightarrow> string \<Rightarrow> (auth_level \<times> string) res"

definition FakeAuth_get_auth :: authorizer where
  "FakeAuth_get_auth id_token user_id =
     (if id_token = ''PRIVAUTH1'' then Inr (PRIVATE_AUTH, ''priv1'')
      else if id_token = ''PRIVAUTH2'' then Inr (PRIVATE_AUTH, ''priv2'')
      else if id_token = ''PUBAUTH1'' then Inr (PUBLIC_AUTH, ''pub1'')
      else Inr (NO_AUTH, user_id))"

section \<open>The handler\<close>

record secure_handler =
  data_path :: path
  secure_prefix_length :: nat

definition priv_handler :: "secure_handler \<Rightarrow> api_handler" where
  "priv_handler h = \<lparr>base_path = data_path h @ ''/priv'', prefix_length = secure_prefix_length h\<rparr>"

definition pub_handler :: "secure_handler \<Rightarrow> api_handler" where
  "pub_handler h = \<lparr>base_path = data_path h @ ''/pub'', prefix_length = secure_prefix_length h\<rparr>"

text \<open>The constructor creates the two directories when they are missing.\<close>

definition ensure_directory :: "'s filesystem \<Rightarrow> path \<Rightarrow> 's \<Rightarrow> 's res" where
  "ensure_directory FS p s =
     (if \<not> fs_exists FS p s
      then bind_res (fs_create_directory FS p s) (\<lambda>(_, s'). Inr s')
      else Inr s)"

definition SecureRequestHandlerAPI ::
  "'s filesystem \<Rightarrow> path \<Rightarrow> nat \<Rightarrow> 's \<Rightarrow> (secure_handler \<times> 's) res" where
  "SecureRequestHandlerAPI FS data plen s =
     bind_res (ensure_directory FS (data @ ''/priv'') s) (\<lambda>s1.
       bind_res (ensure_directory FS (data @ ''/pub'') s1) (\<lambda>s2.
         Inr (\<lparr>data_path = data, secure_prefix_length = plen\<rparr>, s2)))"

definition unauthorized_response :: "beast \<Rightarrow> string \<Rightarrow> http_response \<Rightarrow> http_response" where
  "unauthorized_response B text res =
     prepare_payload B (res\<lparr>res_version := 11, result := unauthorized,
       content_type := Some ''text/plain'', body := text\<rparr>)"

text \<open>The token is the \<^verbatim>\<open>Authorization\<close> field without its first seven characters.\<close>

definition request_token :: "beast \<Rightarrow> http_request \<Rightarrow> string" where
  "request_token B req =
     (let auth_field = field_at B req ''Authorization''
      in if 7 < length auth_field then drop 7 auth_field else '''')"

text \<open>Constructing the second request throws when Beast does not know the method.\<close>

definition private_request :: "beast \<Rightarrow> nat \<Rightarrow> string \<Rightarrow> http_request \<Rightarrow> http_request res" where
  "private_request B plen user_id req =
     (if \<not> known_verb B (method_string req) then Inl (Exn Invalid_argument)
      else Inr \<lparr>method_string = method_string req,
        target = take (plen + 1) (target req) @ user_id @ ''_'' @ drop (plen + 1) (target req),
        req_version = req_version req, req_fields = [], req_body = req_body req\<rparr>)"

definition SecureAPI_get_response ::
  "beast \<Rightarrow> path_lib \<Rightarrow> 's filesystem \<Rightarrow> authorizer \<Rightarrow> secure_handler \<Rightarrow> http_request \<Rightarrow>
   http_response \<Rightarrow> 's api_state \<Rightarrow> (bool \<times> http_response \<times> 's api_state) res" where
  "SecureAPI_get_response B P FS auth h req res st =
     (let token = request_token B req
      in if token = '''' then Inr (True, unauthorized_response B ''No token found'' res, st)
         else
           bind_res (auth token '''') (\<lambda>(level, user_id).
              case level of
                PRIVATE_AUTH \<Rightarrow>
                  if length (target req) \<le> secure_prefix_length h + 1
                  then API_get_response B P FS (priv_handler h) req res st
                  else bind_res (private_request B (secure_prefix_length h) user_id req) (\<lambda>req2.
                    API_get_response B P FS (priv_handler h) req2 res st)
              | PUBLIC_AUTH \<Rightarrow> API_get_response B P FS (pub_handler h) req res st
              | NO_AUTH \<Rightarrow> Inr (True, unauthorized_response B ''Invalid token'' res, st)))"

section \<open>The contract of Auth\<close>

text \<open>Neither the level nor the identity of an accepted token depends on what the caller's string held
  before, so a token names one user; and an authorizer throws nothing.\<close>

locale authority =
  fixes get_auth :: authorizer
  assumes level_indep: "map_sum id fst (get_auth t u) = map_sum id fst (get_auth t u')"
    and user_indep: "get_auth t u = Inr (l, v) \<Longrightarrow> l \<noteq> NO_AUTH \<Longrightarrow> get_auth t u' = Inr (l, v)"
    and no_throw: "get_auth t u = Inl err \<Longrightarrow> err = UB Signed_overflow"
begin

lemma refusal_indep: "get_auth t u = Inr (NO_AUTH, v) \<Longrightarrow> \<exists>v'. get_auth t u' = Inr (NO_AUTH, v')"
  using level_indep [of t u u'] by (cases "get_auth t u'") auto

lemma decided: "\<exists>r. get_auth t u = Inr r \<or> get_auth t u = Inl (UB Signed_overflow)"
  using no_throw [of t u] by (cases "get_auth t u") auto

text \<open>What answering a request can end in: a fault of the store, or the authorizer's.\<close>

lemma secure_faults:
  assumes "SecureAPI_get_response B P FS get_auth h req res st = Inl err"
  obtains "err = UB Signed_overflow"
    | (pub) "API_get_response B P FS (pub_handler h) req res st = Inl err"
    | (priv) "API_get_response B P FS (priv_handler h) req res st = Inl err"
    | (verb) "err = Exn Invalid_argument" "\<not> known_verb B (method_string req)"
    | (user) u req2 where "private_request B (secure_prefix_length h) u req = Inr req2"
        "API_get_response B P FS (priv_handler h) req2 res st = Inl err"
  using assms no_throw
  by (auto simp: SecureAPI_get_response_def Let_def bind_res_eq_Inl_conv private_request_def
      split: if_splits auth_level.splits prod.splits)

end

interpretation fakeauth: authority FakeAuth_get_auth
  by unfold_locales (auto simp: FakeAuth_get_auth_def split: if_splits)

section \<open>Who may do what\<close>

lemma secure_refuses:
  assumes "payload_ok B"
    and "request_token B req = '''' \<or> auth (request_token B req) '''' = Inr (NO_AUTH, u)"
  shows "\<exists>res'. SecureAPI_get_response B P FS auth h req res st = Inr (True, res', st)
    \<and> result res' = unauthorized"
  using assms
  by (auto simp: SecureAPI_get_response_def unauthorized_response_def payload_okD Let_def)

lemma secure_public:
  assumes "request_token B req \<noteq> ''''" and "auth (request_token B req) '''' = Inr (PUBLIC_AUTH, u)"
  shows "SecureAPI_get_response B P FS auth h req res st =
    API_get_response B P FS (pub_handler h) req res st"
  using assms by (simp add: SecureAPI_get_response_def Let_def)

text \<open>A private user works on the entities of the priv directory whose names begin with the user id.\<close>

definition private_entity :: "string \<Rightarrow> string \<Rightarrow> string" where
  "private_entity u e = u @ CHR ''_'' # e"

lemma private_request_target:
  assumes "plen = length loc" and "known_verb B (method_string req)"
    and "target req = loc @ CHR ''/'' # w"
  shows "private_request B plen u req =
    Inr \<lparr>method_string = method_string req, target = loc @ CHR ''/'' # private_entity u w,
      req_version = req_version req, req_fields = [], req_body = req_body req\<rparr>"
  using assms by (simp add: private_request_def private_entity_def)

lemma secure_private:
  assumes "request_token B req \<noteq> ''''" and "auth (request_token B req) '''' = Inr (PRIVATE_AUTH, u)"
    and "secure_prefix_length h = length loc" and "known_verb B (method_string req)"
    and "target req = loc @ CHR ''/'' # w" and "w \<noteq> []"
  shows "SecureAPI_get_response B P FS auth h req res st =
    API_get_response B P FS (priv_handler h)
      \<lparr>method_string = method_string req, target = loc @ CHR ''/'' # private_entity u w,
       req_version = req_version req, req_fields = [], req_body = req_body req\<rparr> res st"
  using assms private_request_target [of "secure_prefix_length h" loc B req w u]
  by (cases w) (simp_all add: SecureAPI_get_response_def Let_def)

lemma private_entity_inject:
  assumes "CHR ''_'' \<notin> set u" and "CHR ''_'' \<notin> set v"
  shows "private_entity u e = private_entity v f \<longleftrightarrow> u = v \<and> e = f"
proof -
  have "u = v \<and> e = f" if "u @ CHR ''_'' # e = v @ CHR ''_'' # f"
    using that assms
  proof (induction u arbitrary: v)
    case Nil
    then show ?case by (cases v) auto
  next
    case (Cons x u)
    then show ?case by (cases v) auto
  qed
  then show ?thesis by (auto simp: private_entity_def)
qed

lemma secure_framed:
  assumes "payload_ok B" and "SecureAPI_get_response B P FS auth h req res st = Inr (b, res', st')"
  shows "well_framed res'"
  using assms
  by (auto simp: SecureAPI_get_response_def unauthorized_response_def well_framed_prepare Let_def
      bind_res_eq_Inr_conv split: if_splits prod.splits auth_level.splits dest: API_framed)

lemma secure_index_inv:
  assumes "index_inv (entity_id_map st)"
    and "SecureAPI_get_response B P FS auth h req res st = Inr (b, res', st')"
  shows "index_inv (entity_id_map st')"
  using assms
  by (auto simp: SecureAPI_get_response_def Let_def bind_res_eq_Inr_conv
      split: if_splits prod.splits auth_level.splits dest: API_index_inv)

lemma secure_private_item:
  assumes "request_token B req \<noteq> ''''" and "auth (request_token B req) '''' = Inr (PRIVATE_AUTH, u)"
    and "secure_prefix_length h = length loc" and "known_verb B (method_string req)"
    and "target req = target (item_request [] loc e i [])"
  shows "SecureAPI_get_response B P FS auth h req res st =
      API_get_response B P FS (priv_handler h)
        ((item_request (method_string req) loc (private_entity u e) i (req_body req))
          \<lparr>req_version := req_version req\<rparr>) res st"
  using secure_private [where auth = auth and loc = loc and w = "e @ CHR ''/'' # to_string i"] assms
  by (simp add: item_request_def private_entity_def)

section \<open>Properties\<close>

definition sample_secure :: secure_handler where
  "sample_secure = \<lparr>data_path = ''/data'', secure_prefix_length = 4\<rparr>"

definition secure_state :: "disk api_state" where
  "secure_state = \<lparr>entity_id_map = [],
     store = [([''data''], Dir), ([''data'', ''priv''], Dir), ([''data'', ''pub''], Dir),
       ([''data'', ''priv'', ''priv1_Notes''], Dir),
       ([''data'', ''priv'', ''priv1_Notes'', ''1''], File ''secret'')]\<rparr>"

definition bearer :: "string \<Rightarrow> http_request \<Rightarrow> http_request" where
  "bearer token req = req\<lparr>req_fields := [(''Authorization'', ''Bearer '' @ token)]\<rparr>"

lemma request_token_bearer: "token \<noteq> [] \<Longrightarrow> request_token doc_beast (bearer token req) = token"
  by (simp add: request_token_def bearer_def doc_beast_def)

lemma bearer_sel [simp]:
  "method_string (bearer t req) = method_string req" "target (bearer t req) = target req"
  "req_version (bearer t req) = req_version req" "req_body (bearer t req) = req_body req"
  by (simp_all add: bearer_def)

lemma fake_tokens:
  "FakeAuth_get_auth ''PRIVAUTH1'' u = Inr (PRIVATE_AUTH, ''priv1'')"
  "FakeAuth_get_auth ''PRIVAUTH2'' u = Inr (PRIVATE_AUTH, ''priv2'')"
  "FakeAuth_get_auth ''PUBAUTH1'' u = Inr (PUBLIC_AUTH, ''pub1'')"
  "FakeAuth_get_auth ''x'' u = Inr (NO_AUTH, u)"
  by (simp_all add: FakeAuth_get_auth_def)

text \<open>C20: a request without a token, or with a token that the authorizer does not accept, is answered
  401 and changes neither the index nor the disk.\<close>

theorem secure_api_refuses:
  assumes "payload_ok B"
    and "request_token B req = '''' \<or> auth (request_token B req) '''' = Inr (NO_AUTH, u)"
  shows "\<exists>res'. SecureAPI_get_response B P FS auth h req res st = Inr (True, res', st)
    \<and> result res' = unauthorized"
  using assms by (rule secure_refuses)

theorem secure_api_refuses_witness:
  "\<exists>res'. SecureAPI_get_response doc_beast posix_path (RealFileSystem posix_fs) FakeAuth_get_auth
      sample_secure (bearer ''x'' (item_request ''DELETE'' ''/api'' ''e'' 1 [])) fresh_response
      secure_state = Inr (True, res', secure_state) \<and> result res' = unauthorized"
  by (rule secure_api_refuses [OF payload_ok_doc_beast])
    (simp add: request_token_bearer fake_tokens)



text \<open>The separation is one of names only: nothing keeps the dot-dot component out of a target, so on a
  disk that resolves it a public user reads a private item.\<close>

lemma public_user_reads_private_item:
  "case SecureAPI_get_response doc_beast posix_path (RealFileSystem posix_fs) FakeAuth_get_auth
      sample_secure (bearer ''PUBAUTH1'' (item_request ''GET'' ''/api'' ''../priv/priv1_Notes'' 1 []))
      fresh_response secure_state of
     Inr (served, res', st') \<Rightarrow> served \<and> result res' = ok \<and> body res' = ''secret''
   | Inl _ \<Rightarrow> False"
  by code_simp

end
