(* ===== verification/JwtErrors.thy ===== *)
theory JwtErrors
  imports Prelude
begin

text \<open>
  Namespace \<^verbatim>\<open>error\<close> of \<^verbatim>\<open>jwt-cpp/include/jwt-cpp/jwt.h\<close>: the five enumerations of error codes with
  their numeric values, the \<^verbatim>\<open>message\<close> of each category, \<^verbatim>\<open>std::error_code\<close> as the model uses it, and
  \<^verbatim>\<open>throw_if_error\<close>. Enumerators carry a prefix for their enumeration.
\<close>

section \<open>The enumerations\<close>

datatype rsa_error =
    Rsa_ok
  | Rsa_cert_load_failed
  | Rsa_get_key_failed
  | Rsa_write_key_failed
  | Rsa_write_cert_failed
  | Rsa_convert_to_pem_failed
  | Rsa_load_key_bio_write
  | Rsa_load_key_bio_read
  | Rsa_create_mem_bio_failed
  | Rsa_no_key_provided

fun rsa_error_value :: "rsa_error \<Rightarrow> int" where
  "rsa_error_value Rsa_ok = 0"
| "rsa_error_value Rsa_cert_load_failed = 10"
| "rsa_error_value Rsa_get_key_failed = 11"
| "rsa_error_value Rsa_write_key_failed = 12"
| "rsa_error_value Rsa_write_cert_failed = 13"
| "rsa_error_value Rsa_convert_to_pem_failed = 14"
| "rsa_error_value Rsa_load_key_bio_write = 15"
| "rsa_error_value Rsa_load_key_bio_read = 16"
| "rsa_error_value Rsa_create_mem_bio_failed = 17"
| "rsa_error_value Rsa_no_key_provided = 18"

definition rsa_error_message :: "int \<Rightarrow> string" where
  "rsa_error_message ev =
     (if ev = rsa_error_value Rsa_ok then ''no error''
      else if ev = rsa_error_value Rsa_cert_load_failed then ''error loading cert into memory''
      else if ev = rsa_error_value Rsa_get_key_failed then ''error getting key from certificate''
      else if ev = rsa_error_value Rsa_write_key_failed then ''error writing key data in PEM format''
      else if ev = rsa_error_value Rsa_write_cert_failed then ''error writing cert data in PEM format''
      else if ev = rsa_error_value Rsa_convert_to_pem_failed then ''failed to convert key to pem''
      else if ev = rsa_error_value Rsa_load_key_bio_write then ''failed to load key: bio write failed''
      else if ev = rsa_error_value Rsa_load_key_bio_read then ''failed to load key: bio read failed''
      else if ev = rsa_error_value Rsa_create_mem_bio_failed then ''failed to create memory bio''
      else if ev = rsa_error_value Rsa_no_key_provided then ''at least one of public or private key need to be present''
      else ''unknown RSA error'')"

datatype ecdsa_error =
    Ecdsa_ok
  | Ecdsa_load_key_bio_write
  | Ecdsa_load_key_bio_read
  | Ecdsa_create_mem_bio_failed
  | Ecdsa_no_key_provided
  | Ecdsa_invalid_key_size
  | Ecdsa_invalid_key
  | Ecdsa_create_context_failed

fun ecdsa_error_value :: "ecdsa_error \<Rightarrow> int" where
  "ecdsa_error_value Ecdsa_ok = 0"
| "ecdsa_error_value Ecdsa_load_key_bio_write = 10"
| "ecdsa_error_value Ecdsa_load_key_bio_read = 11"
| "ecdsa_error_value Ecdsa_create_mem_bio_failed = 12"
| "ecdsa_error_value Ecdsa_no_key_provided = 13"
| "ecdsa_error_value Ecdsa_invalid_key_size = 14"
| "ecdsa_error_value Ecdsa_invalid_key = 15"
| "ecdsa_error_value Ecdsa_create_context_failed = 16"

definition ecdsa_error_message :: "int \<Rightarrow> string" where
  "ecdsa_error_message ev =
     (if ev = ecdsa_error_value Ecdsa_ok then ''no error''
      else if ev = ecdsa_error_value Ecdsa_load_key_bio_write then ''failed to load key: bio write failed''
      else if ev = ecdsa_error_value Ecdsa_load_key_bio_read then ''failed to load key: bio read failed''
      else if ev = ecdsa_error_value Ecdsa_create_mem_bio_failed then ''failed to create memory bio''
      else if ev = ecdsa_error_value Ecdsa_no_key_provided then ''at least one of public or private key need to be present''
      else if ev = ecdsa_error_value Ecdsa_invalid_key_size then ''invalid key size''
      else if ev = ecdsa_error_value Ecdsa_invalid_key then ''invalid key''
      else if ev = ecdsa_error_value Ecdsa_create_context_failed then ''failed to create context''
      else ''unknown ECDSA error'')"

datatype signature_verification_error =
    Sigv_ok
  | Sigv_invalid_signature
  | Sigv_create_context_failed
  | Sigv_verifyinit_failed
  | Sigv_verifyupdate_failed
  | Sigv_verifyfinal_failed
  | Sigv_get_key_failed
  | Sigv_set_rsa_pss_saltlen_failed
  | Sigv_signature_encoding_failed

fun signature_verification_error_value :: "signature_verification_error \<Rightarrow> int" where
  "signature_verification_error_value Sigv_ok = 0"
| "signature_verification_error_value Sigv_invalid_signature = 10"
| "signature_verification_error_value Sigv_create_context_failed = 11"
| "signature_verification_error_value Sigv_verifyinit_failed = 12"
| "signature_verification_error_value Sigv_verifyupdate_failed = 13"
| "signature_verification_error_value Sigv_verifyfinal_failed = 14"
| "signature_verification_error_value Sigv_get_key_failed = 15"
| "signature_verification_error_value Sigv_set_rsa_pss_saltlen_failed = 16"
| "signature_verification_error_value Sigv_signature_encoding_failed = 17"

definition signature_verification_error_message :: "int \<Rightarrow> string" where
  "signature_verification_error_message ev =
     (if ev = signature_verification_error_value Sigv_ok then ''no error''
      else if ev = signature_verification_error_value Sigv_invalid_signature then ''invalid signature''
      else if ev = signature_verification_error_value Sigv_create_context_failed then ''failed to verify signature: could not create context''
      else if ev = signature_verification_error_value Sigv_verifyinit_failed then ''failed to verify signature: VerifyInit failed''
      else if ev = signature_verification_error_value Sigv_verifyupdate_failed then ''failed to verify signature: VerifyUpdate failed''
      else if ev = signature_verification_error_value Sigv_verifyfinal_failed then ''failed to verify signature: VerifyFinal failed''
      else if ev = signature_verification_error_value Sigv_get_key_failed then ''failed to verify signature: Could not get key''
      else if ev = signature_verification_error_value Sigv_set_rsa_pss_saltlen_failed then ''failed to verify signature: EVP_PKEY_CTX_set_rsa_pss_saltlen failed''
      else if ev = signature_verification_error_value Sigv_signature_encoding_failed then ''failed to verify signature: i2d_ECDSA_SIG failed''
      else ''unknown signature verification error'')"

datatype signature_generation_error =
    Sigg_ok
  | Sigg_hmac_failed
  | Sigg_create_context_failed
  | Sigg_signinit_failed
  | Sigg_signupdate_failed
  | Sigg_signfinal_failed
  | Sigg_ecdsa_do_sign_failed
  | Sigg_digestinit_failed
  | Sigg_digestupdate_failed
  | Sigg_digestfinal_failed
  | Sigg_rsa_padding_failed
  | Sigg_rsa_private_encrypt_failed
  | Sigg_get_key_failed
  | Sigg_set_rsa_pss_saltlen_failed
  | Sigg_signature_decoding_failed

fun signature_generation_error_value :: "signature_generation_error \<Rightarrow> int" where
  "signature_generation_error_value Sigg_ok = 0"
| "signature_generation_error_value Sigg_hmac_failed = 10"
| "signature_generation_error_value Sigg_create_context_failed = 11"
| "signature_generation_error_value Sigg_signinit_failed = 12"
| "signature_generation_error_value Sigg_signupdate_failed = 13"
| "signature_generation_error_value Sigg_signfinal_failed = 14"
| "signature_generation_error_value Sigg_ecdsa_do_sign_failed = 15"
| "signature_generation_error_value Sigg_digestinit_failed = 16"
| "signature_generation_error_value Sigg_digestupdate_failed = 17"
| "signature_generation_error_value Sigg_digestfinal_failed = 18"
| "signature_generation_error_value Sigg_rsa_padding_failed = 19"
| "signature_generation_error_value Sigg_rsa_private_encrypt_failed = 20"
| "signature_generation_error_value Sigg_get_key_failed = 21"
| "signature_generation_error_value Sigg_set_rsa_pss_saltlen_failed = 22"
| "signature_generation_error_value Sigg_signature_decoding_failed = 23"

definition signature_generation_error_message :: "int \<Rightarrow> string" where
  "signature_generation_error_message ev =
     (if ev = signature_generation_error_value Sigg_ok then ''no error''
      else if ev = signature_generation_error_value Sigg_hmac_failed then ''hmac failed''
      else if ev = signature_generation_error_value Sigg_create_context_failed then ''failed to create signature: could not create context''
      else if ev = signature_generation_error_value Sigg_signinit_failed then ''failed to create signature: SignInit failed''
      else if ev = signature_generation_error_value Sigg_signupdate_failed then ''failed to create signature: SignUpdate failed''
      else if ev = signature_generation_error_value Sigg_signfinal_failed then ''failed to create signature: SignFinal failed''
      else if ev = signature_generation_error_value Sigg_ecdsa_do_sign_failed then ''failed to generate ecdsa signature''
      else if ev = signature_generation_error_value Sigg_digestinit_failed then ''failed to create signature: DigestInit failed''
      else if ev = signature_generation_error_value Sigg_digestupdate_failed then ''failed to create signature: DigestUpdate failed''
      else if ev = signature_generation_error_value Sigg_digestfinal_failed then ''failed to create signature: DigestFinal failed''
      else if ev = signature_generation_error_value Sigg_rsa_padding_failed then ''failed to create signature: EVP_PKEY_CTX_set_rsa_padding failed''
      else if ev = signature_generation_error_value Sigg_rsa_private_encrypt_failed then ''failed to create signature: RSA_private_encrypt failed''
      else if ev = signature_generation_error_value Sigg_get_key_failed then ''failed to generate signature: Could not get key''
      else if ev = signature_generation_error_value Sigg_set_rsa_pss_saltlen_failed then ''failed to create signature: EVP_PKEY_CTX_set_rsa_pss_saltlen failed''
      else if ev = signature_generation_error_value Sigg_signature_decoding_failed then ''failed to create signature: d2i_ECDSA_SIG failed''
      else ''unknown signature generation error'')"

datatype token_verification_error =
    Tok_ok
  | Tok_wrong_algorithm
  | Tok_missing_claim
  | Tok_claim_type_missmatch
  | Tok_claim_value_missmatch
  | Tok_token_expired
  | Tok_audience_missmatch

fun token_verification_error_value :: "token_verification_error \<Rightarrow> int" where
  "token_verification_error_value Tok_ok = 0"
| "token_verification_error_value Tok_wrong_algorithm = 10"
| "token_verification_error_value Tok_missing_claim = 11"
| "token_verification_error_value Tok_claim_type_missmatch = 12"
| "token_verification_error_value Tok_claim_value_missmatch = 13"
| "token_verification_error_value Tok_token_expired = 14"
| "token_verification_error_value Tok_audience_missmatch = 15"

definition token_verification_error_message :: "int \<Rightarrow> string" where
  "token_verification_error_message ev =
     (if ev = token_verification_error_value Tok_ok then ''no error''
      else if ev = token_verification_error_value Tok_wrong_algorithm then ''wrong algorithm''
      else if ev = token_verification_error_value Tok_missing_claim then ''decoded JWT is missing required claim(s)''
      else if ev = token_verification_error_value Tok_claim_type_missmatch then ''claim type does not match expected type''
      else if ev = token_verification_error_value Tok_claim_value_missmatch then ''claim value does not match expected value''
      else if ev = token_verification_error_value Tok_token_expired then ''token expired''
      else if ev = token_verification_error_value Tok_audience_missmatch then ''token doesn't contain the required audience''
      else ''unknown token verification error'')"

section \<open>Error codes and exceptions\<close>

text \<open>A code of a category; \<open>No_error\<close> is the value that \<^verbatim>\<open>clear()\<close> leaves.\<close>

datatype error_code =
    No_error
  | Rsa_code rsa_error
  | Ecdsa_code ecdsa_error
  | Sigv_code signature_verification_error
  | Sigg_code signature_generation_error
  | Tok_code token_verification_error

fun code_value :: "error_code \<Rightarrow> int" where
  "code_value No_error = 0"
| "code_value (Rsa_code e) = rsa_error_value e"
| "code_value (Ecdsa_code e) = ecdsa_error_value e"
| "code_value (Sigv_code e) = signature_verification_error_value e"
| "code_value (Sigg_code e) = signature_generation_error_value e"
| "code_value (Tok_code e) = token_verification_error_value e"

text \<open>\<^verbatim>\<open>explicit operator bool\<close>.\<close>

definition is_error :: "error_code \<Rightarrow> bool" where
  "is_error ec \<longleftrightarrow> code_value ec \<noteq> 0"

fun throw_if_error :: "error_code \<Rightarrow> unit res" where
  "throw_if_error ec =
     (if is_error ec then
        (case ec of
           Rsa_code e \<Rightarrow> Inl (Exn (Rsa_exception (code_value ec)))
         | Ecdsa_code e \<Rightarrow> Inl (Exn (Ecdsa_exception (code_value ec)))
         | Sigv_code e \<Rightarrow> Inl (Exn (Signature_verification_exception (code_value ec)))
         | Sigg_code e \<Rightarrow> Inl (Exn (Signature_generation_exception (code_value ec)))
         | Tok_code e \<Rightarrow> Inl (Exn (Token_verification_exception (code_value ec)))
         | No_error \<Rightarrow> Inr ())
      else Inr ())"

declare throw_if_error.simps [simp del]

text \<open>The pattern of the throwing overloads: run with a fresh code, throw if one was set.\<close>

definition throwing :: "('a \<times> error_code) res \<Rightarrow> 'a res" where
  "throwing r = bind_res r (\<lambda>(x, ec). bind_res (throw_if_error ec) (\<lambda>_. Inr x))"

lemma throw_if_error_iff: "throw_if_error ec = Inr u \<longleftrightarrow> \<not> is_error ec"
  by (cases ec) (simp_all add: throw_if_error.simps is_error_def)

lemma throw_if_error_Exn: "throw_if_error ec = Inl err \<Longrightarrow> \<exists>e. err = Exn e"
  by (cases ec) (auto simp: throw_if_error.simps split: if_splits)

lemma error_value_zero [simp]:
  "rsa_error_value a = 0 \<longleftrightarrow> a = Rsa_ok"
  "ecdsa_error_value b = 0 \<longleftrightarrow> b = Ecdsa_ok"
  "signature_verification_error_value c = 0 \<longleftrightarrow> c = Sigv_ok"
  "signature_generation_error_value d = 0 \<longleftrightarrow> d = Sigg_ok"
  "token_verification_error_value e = 0 \<longleftrightarrow> e = Tok_ok"
      apply (cases a; simp)
     apply (cases b; simp)
    apply (cases c; simp)
   apply (cases d; simp)
  apply (cases e; simp)
  done

lemma is_error_simps [simp]:
  "\<not> is_error No_error"
  "is_error (Rsa_code a) \<longleftrightarrow> a \<noteq> Rsa_ok"
  "is_error (Ecdsa_code b) \<longleftrightarrow> b \<noteq> Ecdsa_ok"
  "is_error (Sigv_code c) \<longleftrightarrow> c \<noteq> Sigv_ok"
  "is_error (Sigg_code d) \<longleftrightarrow> d \<noteq> Sigg_ok"
  "is_error (Tok_code e) \<longleftrightarrow> e \<noteq> Tok_ok"
  by (simp_all add: is_error_def)

lemma throwing_Inr: "throwing r = Inr x \<longleftrightarrow> (\<exists>ec. r = Inr (x, ec) \<and> \<not> is_error ec)"
  by (auto simp: throwing_def bind_res_eq_Inr_conv throw_if_error_iff)

lemma throwing_Inl:
  "throwing r = Inl e \<Longrightarrow> r = Inl e \<or> (\<exists>x. e = Exn x)"
  by (auto simp: throwing_def bind_res_eq_Inl_conv dest: throw_if_error_Exn)

end
