(* ===== verification/Base64.thy ===== *)
theory Base64
  imports Prelude "HOL-Library.Word"
begin

unbundle bit_operations_syntax

text \<open>
  \<^verbatim>\<open>jwt-cpp/include/jwt-cpp/base.h\<close>: the base64 codec that the JWT library is built on, with its two
  alphabets. The shifts and masks are on 32-bit words as in the source, and a character is its byte.
  The contract of an alphabet is the locale \<open>base_alphabet\<close>; both alphabets of the source satisfy it.
\<close>

section \<open>The alphabets\<close>

definition base64_data :: "char list" where
  "base64_data = ''ABCDEFGHIJKLMNOPQRSTUVWXYZabcdefghijklmnopqrstuvwxyz0123456789+/''"

definition base64_fill :: string where
  "base64_fill = ''=''"

definition base64url_data :: "char list" where
  "base64url_data = ''ABCDEFGHIJKLMNOPQRSTUVWXYZabcdefghijklmnopqrstuvwxyz0123456789-_''"

definition base64url_fill :: string where
  "base64url_fill = ''%3d''"

section \<open>encode\<close>

definition octet :: "char \<Rightarrow> 32 word" where
  "octet c = of_nat (of_char c)"

definition octet_triple :: "32 word \<Rightarrow> 32 word \<Rightarrow> 32 word \<Rightarrow> 32 word" where
  "octet_triple octet_a octet_b octet_c = push_bit 0x10 octet_a + push_bit 0x08 octet_b + octet_c"

text \<open>\<^verbatim>\<open>alphabet[(triple >> k * 6) & 0x3F]\<close>.\<close>

definition letter :: "char list \<Rightarrow> 32 word \<Rightarrow> nat \<Rightarrow> char" where
  "letter alphabet triple k = alphabet ! unat (drop_bit (k * 6) triple AND 0x3F)"

text \<open>The loop over whole triples, then the one or two bytes left over.\<close>

fun encode :: "char list \<Rightarrow> string \<Rightarrow> string \<Rightarrow> string" where
  "encode alphabet fill (a # b # c # bin) =
     (let triple = octet_triple (octet a) (octet b) (octet c)
      in letter alphabet triple 3 # letter alphabet triple 2 # letter alphabet triple 1 #
         letter alphabet triple 0 # encode alphabet fill bin)"
| "encode alphabet fill [] = []"
| "encode alphabet fill [a] =
     (let triple = octet_triple (octet a) 0 0
      in letter alphabet triple 3 # letter alphabet triple 2 # fill @ fill)"
| "encode alphabet fill [a, b] =
     (let triple = octet_triple (octet a) (octet b) 0
      in letter alphabet triple 3 # letter alphabet triple 2 # letter alphabet triple 1 # fill)"

section \<open>decode\<close>

text \<open>The loop that takes the fill off the end: the len that is left and the number of fills.\<close>

function strip_fill :: "string \<Rightarrow> string \<Rightarrow> nat \<Rightarrow> nat \<Rightarrow> (nat \<times> nat) res" where
  "strip_fill base fill len fill_cnt =
     (if length fill < len then
        if take (length fill) (drop (len - length fill) base) = fill then
          if 2 < fill_cnt + 1 then Inl (Exn Runtime_error)
          else strip_fill base fill (len - length fill) (fill_cnt + 1)
        else Inr (len, fill_cnt)
      else Inr (len, fill_cnt))"
  by pat_completeness auto
termination
  by (relation "measure (\<lambda>(base, fill, len, fill_cnt). 3 - fill_cnt)") auto

declare strip_fill.simps [simp del]

fun index_of :: "char list \<Rightarrow> char \<Rightarrow> nat option" where
  "index_of [] c = None"
| "index_of (x # xs) c = (if x = c then Some 0 else map_option Suc (index_of xs c))"

definition get_sextet :: "char list \<Rightarrow> char \<Rightarrow> 32 word res" where
  "get_sextet alphabet c =
     (case index_of alphabet c of Some i \<Rightarrow> Inr (of_nat i) | None \<Rightarrow> Inl (Exn Runtime_error))"

text \<open>\<^verbatim>\<open>base[offset]\<close>: the terminating zero is readable, what lies behind it is not.\<close>

definition char_at :: "string \<Rightarrow> nat \<Rightarrow> char res" where
  "char_at s i =
     (if i < length s then Inr (s ! i) else if i = length s then Inr CHR 0x00
      else Inl (UB Index_out_of_range))"

definition sextet_at :: "char list \<Rightarrow> string \<Rightarrow> nat \<Rightarrow> 32 word res" where
  "sextet_at alphabet base offset = bind_res (char_at base offset) (get_sextet alphabet)"

text \<open>\<^verbatim>\<open>static_cast<char>((triple >> k * 8) & 0xFFU)\<close>.\<close>

definition byte_of :: "32 word \<Rightarrow> nat \<Rightarrow> char" where
  "byte_of triple k = char_of (unat (drop_bit (k * 8) triple AND 0xFF))"

fun decode_quads :: "char list \<Rightarrow> string \<Rightarrow> string res" where
  "decode_quads alphabet (w # x # y # z # base) =
     bind_res (get_sextet alphabet w) (\<lambda>sextet_a.
     bind_res (get_sextet alphabet x) (\<lambda>sextet_b.
     bind_res (get_sextet alphabet y) (\<lambda>sextet_c.
     bind_res (get_sextet alphabet z) (\<lambda>sextet_d.
       let triple = push_bit (3 * 6) sextet_a + push_bit (2 * 6) sextet_b + push_bit (1 * 6) sextet_c +
             push_bit (0 * 6) sextet_d
       in bind_res (decode_quads alphabet base) (\<lambda>res.
            Inr (byte_of triple 2 # byte_of triple 1 # byte_of triple 0 # res))))))"
| "decode_quads alphabet base = Inr []"

definition decode_tail :: "char list \<Rightarrow> string \<Rightarrow> nat \<Rightarrow> nat \<Rightarrow> string res" where
  "decode_tail alphabet base fast_size fill_cnt =
     bind_res (sextet_at alphabet base fast_size) (\<lambda>sextet_a.
     bind_res (sextet_at alphabet base (fast_size + 1)) (\<lambda>sextet_b.
       let triple = push_bit (3 * 6) sextet_a + push_bit (2 * 6) sextet_b
       in if fill_cnt = 1 then
            bind_res (sextet_at alphabet base (fast_size + 2)) (\<lambda>sextet_c.
              let triple = triple OR push_bit (1 * 6) sextet_c
              in Inr [byte_of triple 2, byte_of triple 1])
          else if fill_cnt = 2 then Inr [byte_of triple 2]
          else Inr []))"

definition decode :: "char list \<Rightarrow> string \<Rightarrow> string \<Rightarrow> string res" where
  "decode alphabet fill base =
     bind_res (strip_fill base fill (length base) 0) (\<lambda>(len, fill_cnt).
       if (len + fill_cnt) mod 4 \<noteq> 0 then Inl (Exn Runtime_error)
       else
         let fast_size = len - len mod 4
         in bind_res (decode_quads alphabet (take fast_size base)) (\<lambda>res.
              if fill_cnt = 0 then Inr res
              else bind_res (decode_tail alphabet base fast_size fill_cnt) (\<lambda>tail. Inr (res @ tail))))"

section \<open>pad and trim\<close>

definition pad :: "string \<Rightarrow> string \<Rightarrow> string" where
  "pad fill base =
     base @ (let r = length base mod 4
             in if r = 1 then fill @ fill @ fill else if r = 2 then fill @ fill
                else if r = 3 then fill else [])"

definition trim :: "string \<Rightarrow> string \<Rightarrow> string" where
  "trim fill base = (case find_str fill base of Some pos \<Rightarrow> take pos base | None \<Rightarrow> base)"

section \<open>The word arithmetic\<close>

lemma unat_of_nat_32: "n < 2 ^ 32 \<Longrightarrow> unat (of_nat n :: 32 word) = n"
  by (simp add: unat_of_nat)

lemma drop_mask_nat:
  assumes "t < 2 ^ 32"
  shows "unat (drop_bit k (of_nat t :: 32 word) AND mask n) = t div 2 ^ k mod 2 ^ n"
proof -
  have "unat (drop_bit k (of_nat t :: 32 word) AND mask n) =
      take_bit n (drop_bit k (unat (of_nat t :: 32 word)))"
    by (simp only: take_bit_eq_mask [symmetric] unsigned_take_bit_eq unat_drop_bit_eq)
  also have "\<dots> = t div 2 ^ k mod 2 ^ n"
    using assms by (simp only: unat_of_nat_32 take_bit_eq_mod drop_bit_eq_div)
  finally show ?thesis .
qed

lemma masks: "(0x3F :: 32 word) = mask 6" "(0xFF :: 32 word) = mask 8"
  by (simp_all add: mask_eq_exp_minus_1)

lemma octet_triple_nat:
  "octet_triple (of_nat x) (of_nat y) (of_nat z) = of_nat (x * 65536 + y * 256 + z)"
  by (simp add: octet_triple_def push_bit_eq_mult)

lemma letter_nat: "t < 2 ^ 32 \<Longrightarrow> letter A (of_nat t) k = A ! (t div 2 ^ (k * 6) mod 64)"
  unfolding letter_def masks by (simp add: drop_mask_nat del: drop_bit_eq_div)

lemma byte_of_nat: "t < 2 ^ 32 \<Longrightarrow> byte_of (of_nat t) k = char_of (t div 2 ^ (k * 8) mod 256)"
  unfolding byte_of_def masks by (simp add: drop_mask_nat)

lemma split_sextets:
  fixes t :: nat
  assumes "t < 2 ^ 24"
  shows "t div 262144 mod 64 * 262144 + t div 4096 mod 64 * 4096 + t div 64 mod 64 * 64 + t mod 64 = t"
proof -
  have q: "t div 4096 = t div 64 div 64" "t div 262144 = t div 64 div 64 div 64"
    by (simp_all add: div_mult2_eq [symmetric])
  have "t div 64 div 64 div 64 < 64"
    using assms unfolding q(2) [symmetric] by (simp add: less_mult_imp_div_less)
  then have "t div 64 div 64 div 64 mod 64 = t div 64 div 64 div 64" by (rule mod_less)
  with div_mult_mod_eq [of t 64] div_mult_mod_eq [of "t div 64" 64]
    div_mult_mod_eq [of "t div 64 div 64" 64]
  show ?thesis unfolding q by linarith
qed

text \<open>Adding a sextet below bit 12 to a multiple of \<open>2 ^ 12\<close> is the bitwise or of the two.\<close>

lemma or_sextet:
  assumes "y < 64"
  shows "(of_nat (x * 4096) :: 32 word) OR of_nat (y * 64) = of_nat (x * 4096 + y * 64)"
proof -
  have shift: "x * 4096 = push_bit 12 x" "y * 64 = push_bit 6 (take_bit 6 y)"
    using assms by (simp_all add: push_bit_eq_mult take_bit_eq_mod)
  have "push_bit 12 x AND push_bit 6 (take_bit 6 y) = 0"
    by (rule bit_eqI) (auto simp: bit_simps)
  then have "x * 4096 + y * 64 = x * 4096 OR y * 64"
    unfolding shift by (rule disjunctive_add_eq_or)
  then show ?thesis by (simp only: of_nat_or_eq)
qed

lemma triple_bytes:
  fixes x y z :: nat
  assumes "x < 256" "y < 256" "z < 256"
  shows "(x * 65536 + y * 256 + z) div 65536 mod 256 = x"
    and "(x * 65536 + y * 256 + z) div 256 mod 256 = y"
    and "(x * 65536 + y * 256 + z) mod 256 = z"
proof -
  have e: "x * 65536 + y * 256 + z = z + 256 * (y + 256 * x)" by simp
  then have d: "(x * 65536 + y * 256 + z) div 256 = y + 256 * x"
    using assms(3) by simp
  then show "(x * 65536 + y * 256 + z) div 256 mod 256 = y"
    using assms(2) by (simp only: mod_mult_self2) simp
  have "(x * 65536 + y * 256 + z) div 65536 = (x * 65536 + y * 256 + z) div 256 div 256"
    by (simp add: div_mult2_eq [symmetric])
  then show "(x * 65536 + y * 256 + z) div 65536 mod 256 = x"
    using assms(1,2) unfolding d by simp
  show "(x * 65536 + y * 256 + z) mod 256 = z"
    using assms(3) unfolding e by (simp only: mod_mult_self2) simp
qed

section \<open>The contract of an alphabet\<close>

lemma index_of_nth: "distinct xs \<Longrightarrow> i < length xs \<Longrightarrow> index_of xs (xs ! i) = Some i"
  by (induction xs arbitrary: i) (auto simp: nth_Cons' split: if_splits)

lemma index_of_None: "index_of xs c = None \<longleftrightarrow> c \<notin> set xs"
  by (induction xs) auto

text \<open>The part of an encoding before the fill, and how many fills follow.\<close>

definition fills :: "string \<Rightarrow> nat" where
  "fills s = (3 - length s mod 3) mod 3"

lemma fills_simps [simp]:
  "fills [] = 0" "fills [a] = 2" "fills [a, b] = 1" "fills (a # b # c # s) = fills s"
  by (simp_all add: fills_def)

lemma encode_fill: "encode A F s = encode A [] s @ concat (replicate (fills s) F)"
  by (induction A F s rule: encode.induct) (simp_all add: Let_def numeral_2_eq_2)

lemma length_encode_body: "(length (encode A [] s) + fills s) mod 4 = 0"
  by (induction A "[] :: string" s rule: encode.induct) (simp_all add: Let_def)

lemma encode_body_nonempty: "fills s \<noteq> 0 \<Longrightarrow> encode A [] s \<noteq> []"
  by (cases "(A, [] :: string, s)" rule: encode.cases) (auto simp: Let_def)

lemma fills_le: "fills s \<le> 2"
  by (simp add: fills_def)

section \<open>What decode does behind the fill\<close>

definition decode_rest :: "char list \<Rightarrow> string \<Rightarrow> nat \<Rightarrow> nat \<Rightarrow> string res" where
  "decode_rest alphabet base len fill_cnt =
     bind_res (decode_quads alphabet (take (len - len mod 4) base)) (\<lambda>res.
       if fill_cnt = 0 then Inr res
       else bind_res (decode_tail alphabet base (len - len mod 4) fill_cnt) (\<lambda>tail. Inr (res @ tail)))"

lemma decode_alt:
  "decode alphabet fill base =
     bind_res (strip_fill base fill (length base) 0) (\<lambda>(len, fill_cnt).
       if (len + fill_cnt) mod 4 \<noteq> 0 then Inl (Exn Runtime_error)
       else decode_rest alphabet base len fill_cnt)"
  unfolding decode_def decode_rest_def Let_def ..

lemma sextet_at_shift: "sextet_at alphabet (w # x # y # z # base) (4 + i) = sextet_at alphabet base i"
  by (simp add: sextet_at_def char_at_def)

lemma decode_tail_shift:
  "decode_tail alphabet (w # x # y # z # base) (4 + n) k = decode_tail alphabet base n k"
proof -
  have "sextet_at alphabet (w # x # y # z # base) (4 + n + i) = sextet_at alphabet base (n + i)" for i
    using sextet_at_shift [of alphabet w x y z base "n + i"] by (simp only: add.assoc)
  then show ?thesis
    unfolding decode_tail_def sextet_at_shift by (simp only:)
qed

lemma decode_rest_quad:
  assumes "get_sextet alphabet w = Inr sa" "get_sextet alphabet x = Inr sb"
    "get_sextet alphabet y = Inr sc" "get_sextet alphabet z = Inr sd"
    and "t = push_bit (3 * 6) sa + push_bit (2 * 6) sb + push_bit (1 * 6) sc + push_bit (0 * 6) sd"
  shows "decode_rest alphabet (w # x # y # z # base) (4 + n) k =
    bind_res (decode_rest alphabet base n k) (\<lambda>r. Inr (byte_of t 2 # byte_of t 1 # byte_of t 0 # r))"
proof -
  let ?m = "n - n mod 4"
  have m: "4 + n - (4 + n) mod 4 = 4 + ?m" by simp
  have tk: "take (4 + j) (w # x # y # z # base) = w # x # y # z # take j base" for j by (simp add: eval_nat_numeral)
  show ?thesis
    unfolding decode_rest_def m tk decode_tail_shift decode_quads.simps assms(1-4) bind_res_simps
      assms(5) [symmetric] Let_def
    by (cases "decode_quads alphabet (take ?m base)"; cases "decode_tail alphabet base ?m k") simp_all
qed

text \<open>The 24 bits of three bytes, as a number.\<close>

definition nat24 :: "char \<Rightarrow> char \<Rightarrow> char \<Rightarrow> nat" where
  "nat24 a b c = of_char a * 65536 + of_char b * 256 + of_char c"

lemma nat24_less: "nat24 a b c < 2 ^ 24" and nat24_less_32: "nat24 a b c < 2 ^ 32"
proof -
  have "of_char a < (256 :: nat)" "of_char b < (256 :: nat)" "of_char c < (256 :: nat)" by simp_all
  then have "nat24 a b c < 16777216" unfolding nat24_def by linarith
  then show "nat24 a b c < 2 ^ 24" by simp
  then show "nat24 a b c < 2 ^ 32" by simp
qed

lemma octet_triple_nat24: "octet_triple (octet a) (octet b) (octet c) = of_nat (nat24 a b c)"
  unfolding octet_def nat24_def by (rule octet_triple_nat)

lemma octet_zero: "(0 :: 32 word) = octet CHR 0x00"
  by (simp add: octet_def)

lemma nat24_bytes:
  "byte_of (of_nat (nat24 a b c)) 2 = a" "byte_of (of_nat (nat24 a b c)) 1 = b"
  "byte_of (of_nat (nat24 a b c)) 0 = c"
proof -
  have "of_char a < (256 :: nat)" "of_char b < (256 :: nat)" "of_char c < (256 :: nat)" by simp_all
  note t = triple_bytes [OF this]
  show "byte_of (of_nat (nat24 a b c)) 2 = a" "byte_of (of_nat (nat24 a b c)) 1 = b"
    "byte_of (of_nat (nat24 a b c)) 0 = c"
    unfolding byte_of_nat [OF nat24_less_32] unfolding nat24_def using t by simp_all
qed

lemmas nat24_decoded = nat24_bytes nat24_bytes(2) [unfolded One_nat_def]

text \<open>Four sextets put together again; and what the shorter tails put together.\<close>

lemma join_sextets:
  "push_bit (3 * 6) (of_nat (nat24 a b c div 2 ^ (3 * 6) mod 64)) +
   push_bit (2 * 6) (of_nat (nat24 a b c div 2 ^ (2 * 6) mod 64)) +
   push_bit (1 * 6) (of_nat (nat24 a b c div 2 ^ (1 * 6) mod 64)) +
   push_bit (0 * 6) (of_nat (nat24 a b c div 2 ^ (0 * 6) mod 64)) = (of_nat (nat24 a b c) :: 32 word)"
proof -
  have "(of_nat (nat24 a b c) :: 32 word) =
      of_nat (nat24 a b c div 262144 mod 64 * 262144 + nat24 a b c div 4096 mod 64 * 4096 +
        nat24 a b c div 64 mod 64 * 64 + nat24 a b c mod 64)"
    by (simp only: split_sextets [OF nat24_less])
  then show ?thesis by (simp add: push_bit_eq_mult)
qed

lemma low_sextets_zero:
  "nat24 a CHR 0x00 CHR 0x00 div 2 ^ (1 * 6) mod 64 = 0" "nat24 a b CHR 0x00 div 2 ^ (0 * 6) mod 64 = 0"
proof -
  have "nat24 a CHR 0x00 CHR 0x00 = 64 * (64 * (16 * of_char a))"
    by (simp add: nat24_def)
  then show "nat24 a CHR 0x00 CHR 0x00 div 2 ^ (1 * 6) mod 64 = 0"
    by simp
  have "nat24 a b CHR 0x00 = 64 * (1024 * of_char a + 4 * of_char b)"
    by (simp add: nat24_def)
  then show "nat24 a b CHR 0x00 div 2 ^ (0 * 6) mod 64 = 0"
    by simp
qed

lemma join_two_sextets:
  "push_bit (3 * 6) (of_nat (nat24 a CHR 0x00 CHR 0x00 div 2 ^ (3 * 6) mod 64)) +
   push_bit (2 * 6) (of_nat (nat24 a CHR 0x00 CHR 0x00 div 2 ^ (2 * 6) mod 64)) =
   (of_nat (nat24 a CHR 0x00 CHR 0x00) :: 32 word)"
  using join_sextets [of a "CHR 0x00" "CHR 0x00"] unfolding low_sextets_zero by simp

lemma join_three_sextets:
  "push_bit (3 * 6) (of_nat (nat24 a b CHR 0x00 div 2 ^ (3 * 6) mod 64)) +
   push_bit (2 * 6) (of_nat (nat24 a b CHR 0x00 div 2 ^ (2 * 6) mod 64)) OR
   push_bit (1 * 6) (of_nat (nat24 a b CHR 0x00 div 2 ^ (1 * 6) mod 64)) =
   (of_nat (nat24 a b CHR 0x00) :: 32 word)"
proof -
  let ?s = "\<lambda>k. nat24 a b CHR 0x00 div 2 ^ (k * 6) mod 64"
  have "push_bit (3 * 6) (of_nat (?s 3)) + push_bit (2 * 6) (of_nat (?s 2)) =
      (of_nat ((?s 3 * 64 + ?s 2) * 4096) :: 32 word)"
    and "push_bit (1 * 6) (of_nat (?s 1)) = (of_nat (?s 1 * 64) :: 32 word)"
    by (simp_all add: push_bit_eq_mult)
  then have "push_bit (3 * 6) (of_nat (?s 3)) + push_bit (2 * 6) (of_nat (?s 2)) OR
      push_bit (1 * 6) (of_nat (?s 1)) = (of_nat ((?s 3 * 64 + ?s 2) * 4096 + ?s 1 * 64) :: 32 word)"
    by (simp only: or_sextet mod_less_divisor zero_less_numeral)
  then show ?thesis
    using join_sextets [of a b "CHR 0x00"] unfolding low_sextets_zero
    by (simp add: push_bit_eq_mult mult.commute)
qed

lemma triples_induct [case_names Nil One Two Triple]:
  fixes s :: string
  assumes "P []" and "\<And>a. P [a]" and "\<And>a b. P [a, b]" and "\<And>a b c s. P s \<Longrightarrow> P (a # b # c # s)"
  shows "P s"
  by (rule encode.induct [of "\<lambda>_ _. P"]) (auto intro: assms)

locale base_alphabet =
  fixes A :: "char list" and F :: string
  assumes alphabet_length: "length A = 64" and alphabet_distinct: "distinct A"
    and fill_nonempty: "F \<noteq> []" and fill_outside: "hd F \<notin> set A"
begin

lemma letter_in: "letter A (octet_triple (octet a) (octet b) (octet c)) k \<in> set A"
  unfolding octet_triple_nat24 letter_nat [OF nat24_less_32] by (simp add: alphabet_length)

lemma get_sextet_letter:
  "get_sextet A (letter A (octet_triple (octet a) (octet b) (octet c)) k) =
     Inr (of_nat (nat24 a b c div 2 ^ (k * 6) mod 64))"
  unfolding octet_triple_nat24 letter_nat [OF nat24_less_32]
  by (simp add: get_sextet_def index_of_nth alphabet_distinct alphabet_length)

lemma encode_body_in: "set (encode A [] s) \<subseteq> set A"
  by (induction s rule: triples_induct) (simp_all add: Let_def letter_in octet_zero)

lemma decode_rest_encode:
  "decode_rest A (encode A [] s @ x) (length (encode A [] s)) (fills s) = Inr s"
proof (induction s rule: triples_induct)
  case Nil
  then show ?case by (simp add: decode_rest_def)
next
  case (One a)
  let ?t = "octet_triple (octet a) (octet CHR 0x00) (octet CHR 0x00)"
  have "decode_rest A (letter A ?t 3 # letter A ?t 2 # x) 2 2 = Inr [a]"
    unfolding decode_rest_def decode_tail_def sextet_at_def char_at_def
    by (simp add: get_sextet_letter Let_def join_two_sextets [simplified] nat24_decoded)
  then show ?case by (simp add: Let_def octet_zero numeral_2_eq_2)
next
  case (Two a b)
  let ?t = "octet_triple (octet a) (octet b) (octet CHR 0x00)"
  have "decode_rest A (letter A ?t 3 # letter A ?t 2 # letter A ?t 1 # x) 3 1 = Inr [a, b]"
    unfolding decode_rest_def decode_tail_def sextet_at_def char_at_def
    by (simp add: get_sextet_letter Let_def join_three_sextets [simplified] nat24_decoded)
  then show ?case by (simp add: Let_def octet_zero numeral_3_eq_3)
next
  case (Triple a b c s)
  let ?t = "octet_triple (octet a) (octet b) (octet c)" and ?n = "length (encode A [] s)"
  let ?l = "letter A ?t"
  have "decode_rest A (?l 3 # ?l 2 # ?l 1 # ?l 0 # encode A [] s @ x) (4 + ?n) (fills s) = Inr (a # b # c # s)"
    unfolding decode_rest_quad [OF get_sextet_letter get_sextet_letter get_sextet_letter
        get_sextet_letter join_sextets [symmetric]] Triple
    by (simp add: nat24_decoded)
  moreover have "length (encode A [] (a # b # c # s)) = 4 + ?n" by (simp add: Let_def)
  ultimately show ?case by (simp only: encode.simps(1) Let_def append_Cons fills_simps(4))
qed

lemma fill_decomp: obtains f fs where "F = f # fs" and "f \<notin> set A"
  using fill_nonempty fill_outside by (cases F) auto

text \<open>A text of letters does not end with the fill.\<close>

lemma no_fill_at_end:
  assumes "set u \<subseteq> set A" and "length F < length u"
  shows "take (length F) (drop (length u - length F) (u @ x)) \<noteq> F"
proof -
  obtain f fs where F: "F = f # fs" "f \<notin> set A" by (rule fill_decomp)
  have "u ! (length u - length F) \<in> set A"
    using assms F(1) by (intro subsetD [OF assms(1)] nth_mem) auto
  moreover have "(drop (length u - length F) (u @ x)) ! 0 = u ! (length u - length F)"
    using assms(2) F(1) by (simp add: nth_append)
  ultimately show ?thesis
    using F by (metis length_greater_0_conv list.distinct(1) nth_Cons_0 nth_take)
qed

lemma strip_fill_letters:
  assumes "set u \<subseteq> set A" and "j + k \<le> 2" and "k \<noteq> 0 \<Longrightarrow> u \<noteq> []"
  shows "strip_fill (u @ concat (replicate k F) @ y) F (length u + k * length F) j = Inr (length u, j + k)"
  using assms
proof (induction k arbitrary: j y)
  case 0
  then show ?case
    using no_fill_at_end [OF assms(1)] by (subst strip_fill.simps) auto
next
  case (Suc k)
  have u: "0 < length u" using Suc.prems by simp
  let ?base = "u @ concat (replicate (Suc k) F) @ y"
  have base: "?base = u @ concat (replicate k F) @ (F @ y)"
    by (simp add: replicate_append_same [symmetric])
  have "take (length F) (drop (length u + Suc k * length F - length F) ?base) = F"
    unfolding base by (simp add: length_concat sum_list_replicate)
  moreover have "strip_fill ?base F (length u + k * length F) (j + 1) = Inr (length u, j + 1 + k)"
    unfolding base using Suc.prems by (intro Suc.IH) auto
  ultimately show ?case
    using u Suc.prems(2) by (subst strip_fill.simps) (simp add: algebra_simps)
qed

text \<open>The round trip, with the fill and after it was cut off and put back.\<close>

lemma decode_encode: "decode A F (encode A F s) = Inr s"
proof -
  let ?u = "encode A [] s" and ?k = "fills s"
  have "strip_fill (?u @ concat (replicate ?k F)) F (length (?u @ concat (replicate ?k F))) 0 =
      Inr (length ?u, ?k)"
    using strip_fill_letters [OF encode_body_in, of 0 ?k s "[]"] fills_le encode_body_nonempty
    by (simp add: length_concat sum_list_replicate)
  then show ?thesis
    using length_encode_body [of A s]
    by (simp add: encode_fill [of A F] decode_alt decode_rest_encode)
qed

lemma find_fill: "set u \<subseteq> set A \<Longrightarrow> find_str F (u @ F @ y) = Some (length u)"
proof -
  assume u: "set u \<subseteq> set A"
  obtain f fs where F: "F = f # fs" "f \<notin> set A" by (rule fill_decomp)
  then show ?thesis using u by (intro find_str_skip [OF F(1)]) auto
qed

lemma find_no_fill: "set u \<subseteq> set A \<Longrightarrow> find_str F u = None"
  by (rule fill_decomp, induction u) auto

lemma trim_encode: "trim F (encode A F s) = encode A [] s"
proof (cases "fills s")
  case 0
  then show ?thesis by (simp add: encode_fill [of A F] trim_def find_no_fill encode_body_in)
next
  case (Suc k)
  then show ?thesis
    by (simp add: encode_fill [of A F] trim_def find_fill encode_body_in)
qed

lemma pad_body: "pad F (encode A [] s) = encode A F s"
proof -
  have "fills s = (if length (encode A [] s) mod 4 = 2 then 2 else if length (encode A [] s) mod 4 = 3 then 1 else 0)
      \<and> length (encode A [] s) mod 4 \<noteq> 1"
    using length_encode_body [of A s] fills_le [of s] by presburger
  then show ?thesis
    by (auto simp: pad_def Let_def encode_fill [of A F] numeral_2_eq_2)
qed

lemma decode_pad_trim: "decode A F (pad F (trim F (encode A F s))) = Inr s"
  by (simp add: trim_encode pad_body decode_encode)

end

interpretation b64: base_alphabet base64_data base64_fill
  by unfold_locales (simp_all add: base64_data_def base64_fill_def)

interpretation b64url: base_alphabet base64url_data base64url_fill
  by unfold_locales (simp_all add: base64url_data_def base64url_fill_def)

section \<open>Errors of decode\<close>

lemma strip_fill_range:
  "n \<le> length base \<Longrightarrow> cnt \<le> 2 \<Longrightarrow>
   (case strip_fill base fill n cnt of
      Inl e \<Rightarrow> e = Exn Runtime_error
    | Inr (len, fill_cnt) \<Rightarrow> len \<le> length base \<and> fill_cnt \<le> 2)"
proof (induction base fill n cnt rule: strip_fill.induct)
  case (1 base fill n cnt)
  then show ?case by (subst strip_fill.simps) auto
qed

lemma get_sextet_fault: "get_sextet alphabet c = Inl e \<Longrightarrow> e = Exn Runtime_error"
  by (auto simp: get_sextet_def split: option.splits)

lemma sextet_at_fault: "i \<le> length base \<Longrightarrow> sextet_at alphabet base i = Inl e \<Longrightarrow> e = Exn Runtime_error"
  by (auto simp: sextet_at_def char_at_def bind_res_eq_Inl_conv dest: get_sextet_fault split: if_splits)

lemma decode_quads_fault: "decode_quads alphabet base = Inl e \<Longrightarrow> e = Exn Runtime_error"
  by (induction alphabet base rule: decode_quads.induct)
    (auto simp: bind_res_eq_Inl_conv Let_def dest: get_sextet_fault)

lemma decode_tail_fault:
  "n + fill_cnt \<le> length base + 1 \<Longrightarrow> n + 2 \<le> length base + 1 \<Longrightarrow> fill_cnt = 1 \<longrightarrow> n + 2 \<le> length base \<Longrightarrow>
   decode_tail alphabet base n fill_cnt = Inl e \<Longrightarrow> e = Exn Runtime_error"
  by (auto simp: decode_tail_def bind_res_eq_Inl_conv Let_def dest: sextet_at_fault [rotated]
      split: if_splits)

lemma decode_fault:
  assumes "decode alphabet fill base = Inl e"
  shows "e = Exn Runtime_error"
proof -
  consider "strip_fill base fill (length base) 0 = Inl e"
    | (size) len cnt where "strip_fill base fill (length base) 0 = Inr (len, cnt)"
      "(len + cnt) mod 4 \<noteq> 0" "e = Exn Runtime_error"
    | (rest) len cnt where "strip_fill base fill (length base) 0 = Inr (len, cnt)" "(len + cnt) mod 4 = 0"
      "decode_rest alphabet base len cnt = Inl e"
    using assms by (auto simp: decode_alt bind_res_eq_Inl_conv split: if_splits) (metis gr0I)
  then show ?thesis
  proof cases
    case (rest len cnt)
    have "len \<le> length base" "cnt \<le> 2"
      using strip_fill_range [of "length base" base 0 fill] rest(1) by auto
    then have "cnt \<noteq> 0 \<Longrightarrow> (len - len mod 4) + 2 \<le> length base"
      using rest(2) by presburger
    with rest(3) \<open>cnt \<le> 2\<close> show ?thesis
      by (auto simp: decode_rest_def bind_res_eq_Inl_conv dest: decode_quads_fault
          intro: decode_tail_fault [rotated 3] split: if_splits)
  qed (use strip_fill_range [of "length base" base 0 fill] in auto)
qed

section \<open>What decode accepts\<close>

text \<open>Letters of the alphabet, a multiple of four of them when each fill counts for one, with at most two
  fills at the end.\<close>

definition well_padded :: "char list \<Rightarrow> string \<Rightarrow> string \<Rightarrow> bool" where
  "well_padded A F base \<longleftrightarrow>
     (\<exists>u k. base = u @ concat (replicate k F) \<and> k \<le> 2 \<and> (length u + k) mod 4 = 0 \<and> set u \<subseteq> set A)"

lemma get_sextet_ok: "(\<exists>w. get_sextet A c = Inr w) \<longleftrightarrow> c \<in> set A"
  using index_of_None [of A c] by (auto simp: get_sextet_def split: option.splits)

lemma bind_res_ok: "(\<exists>y. bind_res m f = Inr y) \<longleftrightarrow> (\<exists>x. m = Inr x \<and> (\<exists>y. f x = Inr y))"
  by (cases m) auto

lemma decode_quads_ok: "length u mod 4 = 0 \<Longrightarrow> (\<exists>r. decode_quads A u = Inr r) \<longleftrightarrow> set u \<subseteq> set A"
proof (induction A u rule: decode_quads.induct)
  case (1 A w x y z u)
  have "(\<exists>r. decode_quads A (w # x # y # z # u) = Inr r) \<longleftrightarrow>
      (\<exists>a b c d. get_sextet A w = Inr a \<and> get_sextet A x = Inr b \<and> get_sextet A y = Inr c \<and> get_sextet A z = Inr d
        \<and> (\<exists>r. decode_quads A u = Inr r))"
    by (auto simp: bind_res_ok Let_def)
  also have "\<dots> \<longleftrightarrow> {w, x, y, z} \<subseteq> set A \<and> set u \<subseteq> set A"
    using 1 get_sextet_ok [of A w] get_sextet_ok [of A x] get_sextet_ok [of A y] get_sextet_ok [of A z] by simp blast
  finally show ?case by simp
qed auto

lemma sextet_at_ok: "i < length base \<Longrightarrow> (\<exists>w. sextet_at A base i = Inr w) \<longleftrightarrow> base ! i \<in> set A"
  by (simp add: sextet_at_def char_at_def get_sextet_ok)

lemma decode_tail_ok:
  assumes "length v + k = 4" and "k = 1 \<or> k = 2"
  shows "(\<exists>r. decode_tail A (q @ v @ x) (length q) k = Inr r) \<longleftrightarrow> set v \<subseteq> set A"
proof -
  have "set v \<subseteq> set A \<longleftrightarrow> (\<forall>i < length v. v ! i \<in> set A)" by (auto simp: set_conv_nth)
  also have "\<dots> \<longleftrightarrow> (\<forall>i < length v. \<exists>w. sextet_at A (q @ v @ x) (length q + i) = Inr w)"
    by (simp add: sextet_at_ok nth_append)
  finally show ?thesis
    using assms by (auto simp: decode_tail_def bind_res_ok Let_def less_Suc_eq eval_nat_numeral)
qed

lemma decode_rest_ok:
  assumes "(length u + k) mod 4 = 0" and "k \<le> 2"
  shows "(\<exists>r. decode_rest A (u @ x) (length u) k = Inr r) \<longleftrightarrow> set u \<subseteq> set A"
proof -
  let ?n = "length u - length u mod 4"
  have u: "u = take ?n u @ drop ?n u" "length (take ?n u) = ?n" by simp_all
  have "(\<exists>r. decode_quads A (take ?n u) = Inr r) \<longleftrightarrow> set (take ?n u) \<subseteq> set A"
    by (rule decode_quads_ok) (simp add: minus_mod_eq_mult_div)
  moreover have "(\<exists>r. decode_tail A (u @ x) ?n k = Inr r) \<longleftrightarrow> set (drop ?n u) \<subseteq> set A" if "k \<noteq> 0"
  proof -
    have "length u mod 4 + k = 4" "k = 1 \<or> k = 2" using assms that by presburger+
    moreover have app: "take ?n u @ drop ?n u @ x = u @ x" by (metis append.assoc append_take_drop_id)
    ultimately show ?thesis
      using decode_tail_ok [of "drop ?n u" k A "take ?n u" x, unfolded app u(2)] by simp
  qed
  moreover have "k = 0 \<Longrightarrow> drop ?n u = []" using assms(1) by simp
  moreover have "set u = set (take ?n u) \<union> set (drop ?n u)" by (metis set_append append_take_drop_id)
  ultimately show ?thesis
    by (cases "k = 0") (auto simp: decode_rest_def bind_res_ok)
qed

lemma strip_fill_suffix:
  "strip_fill base F n j = Inr (len, k) \<Longrightarrow> n \<le> length base \<Longrightarrow> j \<le> 2 \<Longrightarrow>
   len \<le> n \<and> j \<le> k \<and> k \<le> 2 \<and> take n base = take len base @ concat (replicate (k - j) F)"
proof (induction base F n j arbitrary: len k rule: strip_fill.induct)
  case (1 base F n j)
  show ?case
  proof (cases "length F < n \<and> take (length F) (drop (n - length F) base) = F")
    case True
    then have rec: "strip_fill base F (n - length F) (j + 1) = Inr (len, k)" and j: "\<not> 2 < j + 1"
      using 1(2) by (subst (asm) strip_fill.simps; simp split: if_splits)+
    have "take n base = take (n - length F) base @ F"
      using True by (metis le_add_diff_inverse2 less_imp_le take_add)
    moreover from 1(1) [OF _ _ j rec] True 1(3) j have "len \<le> n - length F" "Suc j \<le> k" "k \<le> 2"
      "take (n - length F) base = take len base @ concat (replicate (k - Suc j) F)" by auto
    moreover from this(2) have "replicate (k - j) F = replicate (k - Suc j) F @ [F]"
      by (simp add: replicate_append_same Suc_diff_Suc flip: replicate_Suc)
    ultimately show ?thesis by simp
  next
    case False
    with 1(2-4) show ?thesis by (subst (asm) strip_fill.simps) (auto split: if_splits)
  qed
qed

context base_alphabet
begin

lemma decode_accepts: "(\<exists>s. decode A F base = Inr s) \<longleftrightarrow> well_padded A F base"
proof
  assume "\<exists>s. decode A F base = Inr s"
  then obtain len k where st: "strip_fill base F (length base) 0 = Inr (len, k)"
    and rest: "(len + k) mod 4 = 0" "\<exists>s. decode_rest A base len k = Inr s"
    by (auto simp: decode_alt bind_res_ok split: if_splits)
  from strip_fill_suffix [OF st] have len: "len \<le> length base" "k \<le> 2"
    and base: "base = take len base @ concat (replicate k F)" by auto
  then have "set (take len base) \<subseteq> set A"
    using decode_rest_ok [of "take len base" k A "drop len base"] rest by simp
  with base len rest(1) show "well_padded A F base"
    unfolding well_padded_def by (intro exI [of _ "take len base"] exI [of _ k]) auto
next
  assume "well_padded A F base"
  then obtain u k where base: "base = u @ concat (replicate k F)" and k: "k \<le> 2" "(length u + k) mod 4 = 0"
    and u: "set u \<subseteq> set A" by (auto simp: well_padded_def)
  have "k \<noteq> 0 \<Longrightarrow> u \<noteq> []" using k by auto
  then have "strip_fill base F (length base) 0 = Inr (length u, k)"
    using strip_fill_letters [OF u, of 0 k "[]"] k(1) base by (simp add: length_concat sum_list_replicate)
  with decode_rest_ok [OF k(2,1), of A "concat (replicate k F)"] u k(2) base show "\<exists>s. decode A F base = Inr s"
    by (simp add: decode_alt)
qed

lemma decode_refuses: "\<not> well_padded A F base \<Longrightarrow> decode A F base = Inl (Exn Runtime_error)"
  using decode_accepts [of base] decode_fault [of A F base] by (cases "decode A F base") auto

end

section \<open>Properties\<close>

text \<open>C14: the codec is lossless. For both alphabets, decoding an encoding gives the bytes back, also
  after the fill was trimmed and padded again, which is how tokens are written and read.\<close>

theorem base64_round_trip:
  "decode base64_data base64_fill (encode base64_data base64_fill s) = Inr s
   \<and> decode base64url_data base64url_fill
       (pad base64url_fill (trim base64url_fill (encode base64url_data base64url_fill s))) = Inr s"
  using b64.decode_encode b64url.decode_pad_trim by blast

text \<open>C31: decoding accepts exactly the well padded texts, and throws \<^verbatim>\<open>std::runtime_error\<close> on all
  others; for both alphabets it never reads behind the end of its input.\<close>

theorem base64_decode_errors:
  "(if well_padded base64_data base64_fill base then \<exists>s. decode base64_data base64_fill base = Inr s
    else decode base64_data base64_fill base = Inl (Exn Runtime_error)) \<and>
   (if well_padded base64url_data base64url_fill base then \<exists>s. decode base64url_data base64url_fill base = Inr s
    else decode base64url_data base64url_fill base = Inl (Exn Runtime_error))"
  using b64.decode_accepts b64.decode_refuses b64url.decode_accepts b64url.decode_refuses by auto

end
