(* ===== verification/JwtCrypto.thy ===== *)
theory JwtCrypto
  imports JwtErrors Base64
begin

text \<open>
  Namespace \<^verbatim>\<open>helper\<close> of \<^verbatim>\<open>jwt-cpp/include/jwt-cpp/jwt.h\<close>: loading keys and certificates, and the conversion
  of big numbers. Where the code depends on the version of OpenSSL, the model has the branch for 1.1.1, which
  the Docker image of the server brings.

  OpenSSL is the parameter record \<open>openssl\<close>: one field per function of the library that the code
  calls, a null pointer or a failure code as \<^const>\<open>None\<close> or a number. Its opaque objects are named by
  strings. A function with a \<^verbatim>\<open>std::error_code&\<close> argument returns the code beside its result; the
  overloads without it are \<open>throwing\<close>. Sizes are assumed to fit \<^verbatim>\<open>int\<close>.
\<close>

section \<open>OpenSSL\<close>

type_synonym evp_pkey = string
type_synonym x509 = string

type_synonym ec_key = string
type_synonym bignum = int

datatype evp_md = EVP_sha256 | EVP_sha384 | EVP_sha512

text \<open>How a digest context was set up: as it is by default, or for RSA-PSS with a salt length.\<close>

datatype digest_params = Default_params | Pss_params int

record openssl =
  bio_new :: bool
  bio_write :: "string \<Rightarrow> int"
  pem_read_x509 :: "string \<Rightarrow> string \<Rightarrow> x509 option"
  x509_get_pubkey :: "x509 \<Rightarrow> evp_pkey option"
  pem_write_pubkey :: "evp_pkey \<Rightarrow> string option"
  pem_write_x509 :: "x509 \<Rightarrow> string option"
  d2i_x509 :: "string \<Rightarrow> x509 option"
  pem_read_pubkey :: "string \<Rightarrow> string \<Rightarrow> evp_pkey option"
  pem_read_private_key :: "string \<Rightarrow> string \<Rightarrow> evp_pkey option"
  hmac :: "evp_md \<Rightarrow> string \<Rightarrow> string \<Rightarrow> string option"
  md_ctx_create :: bool
  sign_init :: "evp_md \<Rightarrow> bool"
  sign_update :: "evp_md \<Rightarrow> string \<Rightarrow> bool"
  sign_final :: "evp_md \<Rightarrow> string \<Rightarrow> evp_pkey \<Rightarrow> string option"
  verify_init :: "evp_md \<Rightarrow> bool"
  verify_update :: "evp_md \<Rightarrow> string \<Rightarrow> bool"
  verify_final :: "evp_md \<Rightarrow> string \<Rightarrow> string \<Rightarrow> evp_pkey \<Rightarrow> int"
  pkey_bits :: "evp_pkey \<Rightarrow> int"
  pkey_size :: "evp_pkey \<Rightarrow> nat"
  pkey_get1_ec_key :: "evp_pkey \<Rightarrow> ec_key option"
  ec_key_check_key :: "ec_key \<Rightarrow> int"
  set_rsa_padding :: "evp_pkey \<Rightarrow> int"
  set_rsa_pss_saltlen :: "evp_pkey \<Rightarrow> int \<Rightarrow> int"
  digest_update :: "evp_md \<Rightarrow> string \<Rightarrow> int"
  digest_sign_init :: "evp_md option \<Rightarrow> evp_pkey \<Rightarrow> int"
  digest_sign_length :: "evp_md \<Rightarrow> string \<Rightarrow> evp_pkey \<Rightarrow> nat option"
  digest_sign_final :: "digest_params \<Rightarrow> evp_md \<Rightarrow> string \<Rightarrow> evp_pkey \<Rightarrow> string option"
  digest_sign :: "string \<Rightarrow> evp_pkey \<Rightarrow> string option"
  digest_verify_init :: "evp_md option \<Rightarrow> evp_pkey \<Rightarrow> int"
  digest_verify_final :: "digest_params \<Rightarrow> evp_md \<Rightarrow> string \<Rightarrow> string \<Rightarrow> evp_pkey \<Rightarrow> int"
  digest_verify :: "string \<Rightarrow> string \<Rightarrow> evp_pkey \<Rightarrow> int"
  d2i_ecdsa_sig :: "string \<Rightarrow> (bignum \<times> bignum) option"
  ecdsa_sig_new :: bool
  i2d_ecdsa_sig :: "(bignum \<times> bignum) option \<Rightarrow> string option"
  bn_bn2bin :: "bignum \<Rightarrow> string"
  bn_bin2bn :: "string \<Rightarrow> bignum option"

section \<open>helper\<close>

definition extract_pubkey_from_cert_ec :: "openssl \<Rightarrow> string \<Rightarrow> string \<Rightarrow> string \<times> error_code" where
  "extract_pubkey_from_cert_ec S certstr pw =
     (if \<not> bio_new S then ([], Rsa_code Rsa_create_mem_bio_failed)
      else
        (case pem_read_x509 S certstr pw of
           None \<Rightarrow> ([], Rsa_code Rsa_cert_load_failed)
         | Some cert \<Rightarrow>
             (case x509_get_pubkey S cert of
                None \<Rightarrow> ([], Rsa_code Rsa_get_key_failed)
              | Some key \<Rightarrow>
                  (case pem_write_pubkey S key of
                     None \<Rightarrow> ([], Rsa_code Rsa_write_key_failed)
                   | Some text \<Rightarrow>
                       if text = [] then ([], Rsa_code Rsa_convert_to_pem_failed)
                       else (text, No_error)))))"

definition extract_pubkey_from_cert :: "openssl \<Rightarrow> string \<Rightarrow> string \<Rightarrow> string res" where
  "extract_pubkey_from_cert S certstr pw = throwing (Inr (extract_pubkey_from_cert_ec S certstr pw))"

text \<open>The decoder is an argument and may throw.\<close>

definition convert_base64_der_to_pem_with ::
  "openssl \<Rightarrow> (string \<Rightarrow> string res) \<Rightarrow> string \<Rightarrow> (string \<times> error_code) res" where
  "convert_base64_der_to_pem_with S dec cert_base64_der_str =
     bind_res (dec cert_base64_der_str) (\<lambda>decodedStr.
       Inr
         (case d2i_x509 S decodedStr of
            None \<Rightarrow> ([], Rsa_code Rsa_create_mem_bio_failed)
          | Some cert \<Rightarrow>
              if \<not> bio_new S then ([], Rsa_code Rsa_create_mem_bio_failed)
              else
                (case pem_write_x509 S cert of
                   None \<Rightarrow> ([], Rsa_code Rsa_write_cert_failed)
                 | Some text \<Rightarrow>
                     if text = [] then ([], Rsa_code Rsa_convert_to_pem_failed)
                     else (text, No_error))))"

definition convert_base64_der_to_pem :: "openssl \<Rightarrow> string \<Rightarrow> string res" where
  "convert_base64_der_to_pem S cert_base64_der_str =
     throwing (convert_base64_der_to_pem_with S
       (\<lambda>token. decode base64_data base64_fill (pad base64_fill token)) cert_base64_der_str)"

text \<open>The key text is written to a memory BIO and read back; a certificate is replaced by its key first.\<close>

definition load_public_key_from_string_ec ::
  "openssl \<Rightarrow> string \<Rightarrow> string \<Rightarrow> evp_pkey option \<times> error_code" where
  "load_public_key_from_string_ec S key password =
     (if \<not> bio_new S then (None, Rsa_code Rsa_create_mem_bio_failed)
      else
        (let (text, ec) = (if take 27 key = ''-----BEGIN CERTIFICATE-----''
               then extract_pubkey_from_cert_ec S key password else (key, No_error))
         in if is_error ec then (None, ec)
            else if bio_write S text \<noteq> int (length text) then (None, Rsa_code Rsa_load_key_bio_write)
            else
              (case pem_read_pubkey S text password of
                 None \<Rightarrow> (None, Rsa_code Rsa_load_key_bio_read)
               | Some pkey \<Rightarrow> (Some pkey, No_error))))"

definition load_public_key_from_string :: "openssl \<Rightarrow> string \<Rightarrow> string \<Rightarrow> evp_pkey option res" where
  "load_public_key_from_string S key password = throwing (Inr (load_public_key_from_string_ec S key password))"

text \<open>The private overloads do not clear the code they are given.\<close>

definition load_private_key_from_string_ec ::
  "openssl \<Rightarrow> string \<Rightarrow> string \<Rightarrow> error_code \<Rightarrow> evp_pkey option \<times> error_code" where
  "load_private_key_from_string_ec S key password ec =
     (if \<not> bio_new S then (None, Rsa_code Rsa_create_mem_bio_failed)
      else if bio_write S key \<noteq> int (length key) then (None, Rsa_code Rsa_load_key_bio_write)
      else
        (case pem_read_private_key S key password of
           None \<Rightarrow> (None, Rsa_code Rsa_load_key_bio_read)
         | Some pkey \<Rightarrow> (Some pkey, ec)))"

definition load_private_key_from_string :: "openssl \<Rightarrow> string \<Rightarrow> string \<Rightarrow> evp_pkey option res" where
  "load_private_key_from_string S key password =
     throwing (Inr (load_private_key_from_string_ec S key password No_error))"

definition load_public_ec_key_from_string_ec ::
  "openssl \<Rightarrow> string \<Rightarrow> string \<Rightarrow> evp_pkey option \<times> error_code" where
  "load_public_ec_key_from_string_ec S key password =
     (if \<not> bio_new S then (None, Ecdsa_code Ecdsa_create_mem_bio_failed)
      else
        (let (text, ec) = (if take 27 key = ''-----BEGIN CERTIFICATE-----''
               then extract_pubkey_from_cert_ec S key password else (key, No_error))
         in if is_error ec then (None, ec)
            else if bio_write S text \<noteq> int (length text) then (None, Ecdsa_code Ecdsa_load_key_bio_write)
            else
              (case pem_read_pubkey S text password of
                 None \<Rightarrow> (None, Ecdsa_code Ecdsa_load_key_bio_read)
               | Some pkey \<Rightarrow> (Some pkey, No_error))))"

definition load_public_ec_key_from_string :: "openssl \<Rightarrow> string \<Rightarrow> string \<Rightarrow> evp_pkey option res" where
  "load_public_ec_key_from_string S key password =
     throwing (Inr (load_public_ec_key_from_string_ec S key password))"

definition load_private_ec_key_from_string_ec ::
  "openssl \<Rightarrow> string \<Rightarrow> string \<Rightarrow> error_code \<Rightarrow> evp_pkey option \<times> error_code" where
  "load_private_ec_key_from_string_ec S key password ec =
     (if \<not> bio_new S then (None, Ecdsa_code Ecdsa_create_mem_bio_failed)
      else if bio_write S key \<noteq> int (length key) then (None, Ecdsa_code Ecdsa_load_key_bio_write)
      else
        (case pem_read_private_key S key password of
           None \<Rightarrow> (None, Ecdsa_code Ecdsa_load_key_bio_read)
         | Some pkey \<Rightarrow> (Some pkey, ec)))"

definition load_private_ec_key_from_string :: "openssl \<Rightarrow> string \<Rightarrow> string \<Rightarrow> evp_pkey option res" where
  "load_private_ec_key_from_string S key password =
     throwing (Inr (load_private_ec_key_from_string_ec S key password No_error))"

text \<open>The buffer has the size that \<^verbatim>\<open>BN_num_bytes\<close> gives and \<^verbatim>\<open>BN_bn2bin\<close> fills it.\<close>

definition bn2raw :: "openssl \<Rightarrow> bignum \<Rightarrow> string" where
  "bn2raw S bn = bn_bn2bin S bn"

definition raw2bn :: "openssl \<Rightarrow> string \<Rightarrow> bignum option" where
  "raw2bn S raw = bn_bin2bn S raw"

section \<open>Lemmas\<close>

lemma load_public_key_Some:
  "load_public_key_from_string S key pw = Inr pk \<Longrightarrow> \<exists>k. pk = Some k"
  by (auto simp: load_public_key_from_string_def throwing_Inr load_public_key_from_string_ec_def Let_def
      split: if_splits option.splits prod.splits dest!: sym [of "Some _"])

lemma load_private_key_Some:
  "load_private_key_from_string S key pw = Inr pk \<Longrightarrow> \<exists>k. pk = Some k"
  by (auto simp: load_private_key_from_string_def throwing_Inr load_private_key_from_string_ec_def
      split: if_splits option.splits dest!: sym [of "Some _"])

text \<open>Reading a certificate has no undefined step.\<close>

lemma extract_pubkey_Exn: "extract_pubkey_from_cert S c pw = Inl err \<Longrightarrow> \<exists>x. err = Exn x"
  by (auto simp: extract_pubkey_from_cert_def dest: throwing_Inl)

end
