(* ===== verification/JwtAlgorithms.thy ===== *)
theory JwtAlgorithms
  imports JwtCrypto
begin

text \<open>
  Namespace \<^verbatim>\<open>algorithm\<close> of \<^verbatim>\<open>jwt-cpp/include/jwt-cpp/jwt.h\<close>: the classes \<^verbatim>\<open>none\<close>, \<^verbatim>\<open>hmacsha\<close>, \<^verbatim>\<open>rsa\<close>,
  \<^verbatim>\<open>ecdsa\<close>, \<^verbatim>\<open>eddsa\<close> and \<^verbatim>\<open>pss\<close> with their specialisations. OpenSSL is the parameter \<open>openssl\<close>. What an
  algorithm signs, the algorithm with the matching key verifies.
\<close>

section \<open>algorithm\<close>

text \<open>An algorithm object holds what its class does: secret or key, hash, name, length of a signature.\<close>

datatype algorithm =
    Alg_none
  | Alg_hmacsha string evp_md string
  | Alg_rsa evp_pkey evp_md string
  | Alg_ecdsa evp_pkey evp_md string nat
  | Alg_eddsa evp_pkey string
  | Alg_pss evp_pkey evp_md string

fun alg_name :: "algorithm \<Rightarrow> string" where
  "alg_name Alg_none = ''none''"
| "alg_name (Alg_hmacsha secret md name) = name"
| "alg_name (Alg_rsa pkey md name) = name"
| "alg_name (Alg_ecdsa pkey md name siglen) = name"
| "alg_name (Alg_eddsa pkey name) = name"
| "alg_name (Alg_pss pkey md name) = name"

definition none_sign :: "string \<Rightarrow> string \<times> error_code" where
  "none_sign data = ([], No_error)"

definition none_verify :: "string \<Rightarrow> string \<Rightarrow> error_code" where
  "none_verify data sig = (if sig \<noteq> [] then Sigv_code Sigv_invalid_signature else No_error)"

definition hmacsha_sign :: "openssl \<Rightarrow> string \<Rightarrow> evp_md \<Rightarrow> string \<Rightarrow> string \<times> error_code" where
  "hmacsha_sign S secret md data =
     (case hmac S md secret data of
        None \<Rightarrow> ([], Sigg_code Sigg_hmac_failed)
      | Some res \<Rightarrow> (res, No_error))"

text \<open>The loop compares as far as both reach and never leaves early.\<close>

fun compare_bytes :: "string \<Rightarrow> string \<Rightarrow> bool \<Rightarrow> bool" where
  "compare_bytes (x # res) (y # sig) matched = compare_bytes res sig (if x \<noteq> y then False else matched)"
| "compare_bytes res sig matched = matched"

definition hmacsha_verify :: "openssl \<Rightarrow> string \<Rightarrow> evp_md \<Rightarrow> string \<Rightarrow> string \<Rightarrow> error_code" where
  "hmacsha_verify S secret md data sig =
     (case hmacsha_sign S secret md data of (res, ec) \<Rightarrow>
        if is_error ec then ec
        else
          (let matched = compare_bytes res sig True;
               matched = (if length res \<noteq> length sig then False else matched)
           in if \<not> matched then Sigv_code Sigv_invalid_signature else ec))"

text \<open>A private key wins over a public one; with neither the constructor throws.\<close>

definition rsa ::
  "openssl \<Rightarrow> string \<Rightarrow> string \<Rightarrow> string \<Rightarrow> string \<Rightarrow> evp_md \<Rightarrow> string \<Rightarrow> algorithm res" where
  "rsa S public_key private_key public_key_password private_key_password md name =
     bind_res
       (if private_key \<noteq> [] then load_private_key_from_string S private_key private_key_password
        else if public_key \<noteq> [] then load_public_key_from_string S public_key public_key_password
        else Inl (Exn (Rsa_exception (rsa_error_value Rsa_no_key_provided))))
       (\<lambda>pkey. case pkey of None \<Rightarrow> Inl (UB Null_deref) | Some k \<Rightarrow> Inr (Alg_rsa k md name))"

definition rsa_sign :: "openssl \<Rightarrow> evp_pkey \<Rightarrow> evp_md \<Rightarrow> string \<Rightarrow> string \<times> error_code" where
  "rsa_sign S pkey md data =
     (if \<not> md_ctx_create S then ([], Sigg_code Sigg_create_context_failed)
      else if \<not> sign_init S md then ([], Sigg_code Sigg_signinit_failed)
      else if \<not> sign_update S md data then ([], Sigg_code Sigg_signupdate_failed)
      else
        (case sign_final S md data pkey of
           None \<Rightarrow> ([], Sigg_code Sigg_signfinal_failed)
         | Some res \<Rightarrow> (res, No_error)))"

definition rsa_verify :: "openssl \<Rightarrow> evp_pkey \<Rightarrow> evp_md \<Rightarrow> string \<Rightarrow> string \<Rightarrow> error_code" where
  "rsa_verify S pkey md data sig =
     (if \<not> md_ctx_create S then Sigv_code Sigv_create_context_failed
      else if \<not> verify_init S md then Sigv_code Sigv_verifyinit_failed
      else if \<not> verify_update S md data then Sigv_code Sigv_verifyupdate_failed
      else if verify_final S md data sig pkey \<noteq> 1 then Sigv_code Sigv_verifyfinal_failed
      else No_error)"

subsection \<open>ecdsa\<close>

definition check_public_key :: "openssl \<Rightarrow> evp_pkey option \<Rightarrow> unit res" where
  "check_public_key S pkey =
     (case pkey of
        None \<Rightarrow> Inl (UB Null_deref)
      | Some k \<Rightarrow>
          (case pkey_get1_ec_key S k of
             None \<Rightarrow> Inl (Exn (Ecdsa_exception (ecdsa_error_value Ecdsa_invalid_key)))
           | Some eckey \<Rightarrow>
               if ec_key_check_key S eckey = 0
               then Inl (Exn (Ecdsa_exception (ecdsa_error_value Ecdsa_invalid_key)))
               else Inr ()))"

definition check_private_key :: "openssl \<Rightarrow> evp_pkey option \<Rightarrow> unit res" where
  "check_private_key S pkey =
     (case pkey of
        None \<Rightarrow> Inl (UB Null_deref)
      | Some k \<Rightarrow>
          (case pkey_get1_ec_key S k of
             None \<Rightarrow> Inl (Exn (Ecdsa_exception (ecdsa_error_value Ecdsa_invalid_key)))
           | Some eckey \<Rightarrow>
               if ec_key_check_key S eckey = 0
               then Inl (Exn (Ecdsa_exception (ecdsa_error_value Ecdsa_invalid_key)))
               else Inr ()))"

text \<open>\<^verbatim>\<open>size_t keysize = EVP_PKEY_bits(...)\<close> converts an \<^verbatim>\<open>int\<close> to 64 bits without sign.\<close>

definition ecdsa ::
  "openssl \<Rightarrow> string \<Rightarrow> string \<Rightarrow> string \<Rightarrow> string \<Rightarrow> evp_md \<Rightarrow> string \<Rightarrow> nat \<Rightarrow> algorithm res" where
  "ecdsa S public_key private_key public_key_password private_key_password md name siglen =
     bind_res
       (if private_key \<noteq> [] then
          bind_res (load_private_ec_key_from_string S private_key private_key_password) (\<lambda>pkey.
          bind_res (check_private_key S pkey) (\<lambda>_. Inr pkey))
        else if public_key \<noteq> [] then
          bind_res (load_public_ec_key_from_string S public_key public_key_password) (\<lambda>pkey.
          bind_res (check_public_key S pkey) (\<lambda>_. Inr pkey))
        else Inl (Exn (Ecdsa_exception (ecdsa_error_value Ecdsa_no_key_provided))))
       (\<lambda>pkey. case pkey of
          None \<Rightarrow> Inl (Exn (Ecdsa_exception (ecdsa_error_value Ecdsa_invalid_key)))
        | Some k \<Rightarrow>
            (let keysize = pkey_bits S k mod 2 ^ 64
             in if keysize \<noteq> int (siglen * 4) \<and> (siglen \<noteq> 132 \<or> keysize \<noteq> 521)
                then Inl (Exn (Ecdsa_exception (ecdsa_error_value Ecdsa_invalid_key_size)))
                else Inr (Alg_ecdsa k md name siglen)))"

text \<open>From the DER form that OpenSSL uses to the fixed-size form of a token: both numbers, filled up with
  zeros on the left. A number that does not fit is a \<^verbatim>\<open>std::logic_error\<close>.\<close>

definition fill_left :: "nat \<Rightarrow> string \<Rightarrow> string" where
  "fill_left n raw = replicate (n - length raw) CHR 0x00 @ raw"

definition der_to_p1363_signature :: "openssl \<Rightarrow> nat \<Rightarrow> string \<Rightarrow> (string \<times> error_code) res" where
  "der_to_p1363_signature S signature_length der_signature =
     (case d2i_ecdsa_sig S der_signature of
        None \<Rightarrow> Inr ([], Sigg_code Sigg_signature_decoding_failed)
      | Some (r, s) \<Rightarrow>
          (let rr = bn2raw S r; rs = bn2raw S s
           in if signature_length div 2 < length rr \<or> signature_length div 2 < length rs
              then Inl (Exn Logic_error)
              else Inr (fill_left (signature_length div 2) rr @ fill_left (signature_length div 2) rs, No_error)))"

text \<open>And back. \<^verbatim>\<open>ECDSA_SIG_set0\<close> refuses a null pointer, and the signature stays empty.\<close>

definition p1363_to_der_signature :: "openssl \<Rightarrow> string \<Rightarrow> string \<times> error_code" where
  "p1363_to_der_signature S sig =
     (let r = raw2bn S (take (length sig div 2) sig);
          s = raw2bn S (drop (length sig div 2) sig)
      in if \<not> ecdsa_sig_new S then ([], Sigv_code Sigv_create_context_failed)
         else
           (let psig = (case (r, s) of (Some rn, Some sn) \<Rightarrow> Some (rn, sn) | _ \<Rightarrow> None)
            in case i2d_ecdsa_sig S psig of
                 None \<Rightarrow> ([], Sigv_code Sigv_signature_encoding_failed)
               | Some der_signature \<Rightarrow> (der_signature, No_error)))"

text \<open>A negative result of \<^verbatim>\<open>EVP_DigestSignInit\<close> or \<^verbatim>\<open>EVP_DigestUpdate\<close> passes the tests.\<close>

definition ecdsa_sign :: "openssl \<Rightarrow> evp_pkey \<Rightarrow> evp_md \<Rightarrow> nat \<Rightarrow> string \<Rightarrow> (string \<times> error_code) res" where
  "ecdsa_sign S pkey md siglen data =
     (if \<not> md_ctx_create S then Inr ([], Sigg_code Sigg_create_context_failed)
      else if digest_sign_init S (Some md) pkey = 0 then Inr ([], Sigg_code Sigg_signinit_failed)
      else if digest_update S md data = 0 then Inr ([], Sigg_code Sigg_digestupdate_failed)
      else
        (case digest_sign_length S md data pkey of
           None \<Rightarrow> Inr ([], Sigg_code Sigg_signfinal_failed)
         | Some _ \<Rightarrow>
             (case digest_sign_final S Default_params md data pkey of
                None \<Rightarrow> Inr ([], Sigg_code Sigg_signfinal_failed)
              | Some der \<Rightarrow> der_to_p1363_signature S siglen der)))"

text \<open>Only the results 0 and -1 of \<^verbatim>\<open>EVP_DigestVerifyFinal\<close> are errors.\<close>

definition ecdsa_verify :: "openssl \<Rightarrow> evp_pkey \<Rightarrow> evp_md \<Rightarrow> string \<Rightarrow> string \<Rightarrow> error_code" where
  "ecdsa_verify S pkey md data sig =
     (case p1363_to_der_signature S sig of (der_signature, ec) \<Rightarrow>
        if is_error ec then ec
        else if \<not> md_ctx_create S then Sigv_code Sigv_create_context_failed
        else if digest_verify_init S (Some md) pkey = 0 then Sigv_code Sigv_verifyinit_failed
        else if digest_update S md data = 0 then Sigv_code Sigv_verifyupdate_failed
        else
          (let res = digest_verify_final S Default_params md data der_signature pkey
           in if res = 0 then Sigv_code Sigv_invalid_signature
              else if res = - 1 then Sigv_code Sigv_verifyfinal_failed
              else ec))"

subsection \<open>eddsa\<close>

definition eddsa ::
  "openssl \<Rightarrow> string \<Rightarrow> string \<Rightarrow> string \<Rightarrow> string \<Rightarrow> string \<Rightarrow> algorithm res" where
  "eddsa S public_key private_key public_key_password private_key_password name =
     bind_res
       (if private_key \<noteq> [] then load_private_key_from_string S private_key private_key_password
        else if public_key \<noteq> [] then load_public_key_from_string S public_key public_key_password
        else Inl (Exn (Ecdsa_exception (ecdsa_error_value Ecdsa_load_key_bio_read))))
       (\<lambda>pkey. case pkey of None \<Rightarrow> Inl (UB Null_deref) | Some k \<Rightarrow> Inr (Alg_eddsa k name))"

definition eddsa_sign :: "openssl \<Rightarrow> evp_pkey \<Rightarrow> string \<Rightarrow> string \<times> error_code" where
  "eddsa_sign S pkey data =
     (if \<not> md_ctx_create S then ([], Sigg_code Sigg_create_context_failed)
      else if digest_sign_init S None pkey = 0 then ([], Sigg_code Sigg_signinit_failed)
      else
        (case digest_sign S data pkey of
           None \<Rightarrow> ([], Sigg_code Sigg_signfinal_failed)
         | Some res \<Rightarrow> (res, No_error)))"

definition eddsa_verify :: "openssl \<Rightarrow> evp_pkey \<Rightarrow> string \<Rightarrow> string \<Rightarrow> error_code" where
  "eddsa_verify S pkey data sig =
     (if \<not> md_ctx_create S then Sigv_code Sigv_create_context_failed
      else if digest_verify_init S None pkey = 0 then Sigv_code Sigv_verifyinit_failed
      else if digest_verify S data sig pkey \<noteq> 1 then Sigv_code Sigv_verifyfinal_failed
      else No_error)"

subsection \<open>pss\<close>

definition pss ::
  "openssl \<Rightarrow> string \<Rightarrow> string \<Rightarrow> string \<Rightarrow> string \<Rightarrow> evp_md \<Rightarrow> string \<Rightarrow> algorithm res" where
  "pss S public_key private_key public_key_password private_key_password md name =
     bind_res
       (if private_key \<noteq> [] then load_private_key_from_string S private_key private_key_password
        else if public_key \<noteq> [] then load_public_key_from_string S public_key public_key_password
        else Inl (Exn (Rsa_exception (rsa_error_value Rsa_no_key_provided))))
       (\<lambda>pkey. case pkey of None \<Rightarrow> Inl (UB Null_deref) | Some k \<Rightarrow> Inr (Alg_pss k md name))"

text \<open>The result keeps the size of the key, whatever size \<^verbatim>\<open>EVP_DigestSignFinal\<close> reports.\<close>

definition pss_sign :: "openssl \<Rightarrow> evp_pkey \<Rightarrow> evp_md \<Rightarrow> string \<Rightarrow> string \<times> error_code" where
  "pss_sign S pkey md data =
     (if \<not> md_ctx_create S then ([], Sigg_code Sigg_create_context_failed)
      else if digest_sign_init S (Some md) pkey \<noteq> 1 then ([], Sigg_code Sigg_signinit_failed)
      else if set_rsa_padding S pkey \<le> 0 then ([], Sigg_code Sigg_rsa_padding_failed)
      else if set_rsa_pss_saltlen S pkey (- 1) \<le> 0 then ([], Sigg_code Sigg_set_rsa_pss_saltlen_failed)
      else if digest_update S md data \<noteq> 1 then ([], Sigg_code Sigg_digestupdate_failed)
      else
        (case digest_sign_final S (Pss_params (- 1)) md data pkey of
           None \<Rightarrow> ([], Sigg_code Sigg_signfinal_failed)
         | Some res \<Rightarrow> (res @ replicate (pkey_size S pkey - length res) CHR 0x00, No_error)))"

text \<open>The failure to set the padding is reported as an error of signature generation.\<close>

definition pss_verify :: "openssl \<Rightarrow> evp_pkey \<Rightarrow> evp_md \<Rightarrow> string \<Rightarrow> string \<Rightarrow> error_code" where
  "pss_verify S pkey md data sig =
     (if \<not> md_ctx_create S then Sigv_code Sigv_create_context_failed
      else if digest_verify_init S (Some md) pkey \<noteq> 1 then Sigv_code Sigv_verifyinit_failed
      else if set_rsa_padding S pkey \<le> 0 then Sigg_code Sigg_rsa_padding_failed
      else if set_rsa_pss_saltlen S pkey (- 1) \<le> 0 then Sigv_code Sigv_set_rsa_pss_saltlen_failed
      else if digest_update S md data \<noteq> 1 then Sigv_code Sigv_verifyupdate_failed
      else if digest_verify_final S (Pss_params (- 1)) md data sig pkey \<le> 0 then Sigv_code Sigv_verifyfinal_failed
      else No_error)"

subsection \<open>Any algorithm\<close>

fun alg_sign :: "openssl \<Rightarrow> algorithm \<Rightarrow> string \<Rightarrow> (string \<times> error_code) res" where
  "alg_sign S Alg_none data = Inr (none_sign data)"
| "alg_sign S (Alg_hmacsha secret md name) data = Inr (hmacsha_sign S secret md data)"
| "alg_sign S (Alg_rsa pkey md name) data = Inr (rsa_sign S pkey md data)"
| "alg_sign S (Alg_ecdsa pkey md name siglen) data = ecdsa_sign S pkey md siglen data"
| "alg_sign S (Alg_eddsa pkey name) data = Inr (eddsa_sign S pkey data)"
| "alg_sign S (Alg_pss pkey md name) data = Inr (pss_sign S pkey md data)"

fun alg_verify :: "openssl \<Rightarrow> algorithm \<Rightarrow> string \<Rightarrow> string \<Rightarrow> error_code" where
  "alg_verify S Alg_none data sig = none_verify data sig"
| "alg_verify S (Alg_hmacsha secret md name) data sig = hmacsha_verify S secret md data sig"
| "alg_verify S (Alg_rsa pkey md name) data sig = rsa_verify S pkey md data sig"
| "alg_verify S (Alg_ecdsa pkey md name siglen) data sig = ecdsa_verify S pkey md data sig"
| "alg_verify S (Alg_eddsa pkey name) data sig = eddsa_verify S pkey data sig"
| "alg_verify S (Alg_pss pkey md name) data sig = pss_verify S pkey md data sig"

subsection \<open>The named algorithms\<close>

definition hs256 :: "string \<Rightarrow> algorithm" where "hs256 key = Alg_hmacsha key EVP_sha256 ''HS256''"
definition hs384 :: "string \<Rightarrow> algorithm" where "hs384 key = Alg_hmacsha key EVP_sha384 ''HS384''"
definition hs512 :: "string \<Rightarrow> algorithm" where "hs512 key = Alg_hmacsha key EVP_sha512 ''HS512''"

definition rs256 :: "openssl \<Rightarrow> string \<Rightarrow> string \<Rightarrow> string \<Rightarrow> string \<Rightarrow> algorithm res" where
  "rs256 S public_key private_key public_key_password private_key_password =
     rsa S public_key private_key public_key_password private_key_password EVP_sha256 ''RS256''"
definition rs384 :: "openssl \<Rightarrow> string \<Rightarrow> string \<Rightarrow> string \<Rightarrow> string \<Rightarrow> algorithm res" where
  "rs384 S public_key private_key public_key_password private_key_password =
     rsa S public_key private_key public_key_password private_key_password EVP_sha384 ''RS384''"
definition rs512 :: "openssl \<Rightarrow> string \<Rightarrow> string \<Rightarrow> string \<Rightarrow> string \<Rightarrow> algorithm res" where
  "rs512 S public_key private_key public_key_password private_key_password =
     rsa S public_key private_key public_key_password private_key_password EVP_sha512 ''RS512''"

definition es256 :: "openssl \<Rightarrow> string \<Rightarrow> string \<Rightarrow> string \<Rightarrow> string \<Rightarrow> algorithm res" where
  "es256 S public_key private_key public_key_password private_key_password =
     ecdsa S public_key private_key public_key_password private_key_password EVP_sha256 ''ES256'' 64"
definition es384 :: "openssl \<Rightarrow> string \<Rightarrow> string \<Rightarrow> string \<Rightarrow> string \<Rightarrow> algorithm res" where
  "es384 S public_key private_key public_key_password private_key_password =
     ecdsa S public_key private_key public_key_password private_key_password EVP_sha384 ''ES384'' 96"
definition es512 :: "openssl \<Rightarrow> string \<Rightarrow> string \<Rightarrow> string \<Rightarrow> string \<Rightarrow> algorithm res" where
  "es512 S public_key private_key public_key_password private_key_password =
     ecdsa S public_key private_key public_key_password private_key_password EVP_sha512 ''ES512'' 132"
definition es256k :: "openssl \<Rightarrow> string \<Rightarrow> string \<Rightarrow> string \<Rightarrow> string \<Rightarrow> algorithm res" where
  "es256k S public_key private_key public_key_password private_key_password =
     ecdsa S public_key private_key public_key_password private_key_password EVP_sha256 ''ES256K'' 64"
definition ed25519 :: "openssl \<Rightarrow> string \<Rightarrow> string \<Rightarrow> string \<Rightarrow> string \<Rightarrow> algorithm res" where
  "ed25519 S public_key private_key public_key_password private_key_password =
     eddsa S public_key private_key public_key_password private_key_password ''EdDSA''"
definition ed448 :: "openssl \<Rightarrow> string \<Rightarrow> string \<Rightarrow> string \<Rightarrow> string \<Rightarrow> algorithm res" where
  "ed448 S public_key private_key public_key_password private_key_password =
     eddsa S public_key private_key public_key_password private_key_password ''EdDSA''"
definition ps256 :: "openssl \<Rightarrow> string \<Rightarrow> string \<Rightarrow> string \<Rightarrow> string \<Rightarrow> algorithm res" where
  "ps256 S public_key private_key public_key_password private_key_password =
     pss S public_key private_key public_key_password private_key_password EVP_sha256 ''PS256''"
definition ps384 :: "openssl \<Rightarrow> string \<Rightarrow> string \<Rightarrow> string \<Rightarrow> string \<Rightarrow> algorithm res" where
  "ps384 S public_key private_key public_key_password private_key_password =
     pss S public_key private_key public_key_password private_key_password EVP_sha384 ''PS384''"
definition ps512 :: "openssl \<Rightarrow> string \<Rightarrow> string \<Rightarrow> string \<Rightarrow> string \<Rightarrow> algorithm res" where
  "ps512 S public_key private_key public_key_password private_key_password =
     pss S public_key private_key public_key_password private_key_password EVP_sha512 ''PS512''"

section \<open>Lemmas\<close>

lemma compare_bytes_eq:
  "length res = length sig \<Longrightarrow> compare_bytes res sig matched \<longleftrightarrow> matched \<and> res = sig"
  by (induction res sig matched rule: compare_bytes.induct) auto

text \<open>The comparison without early exit is equality of the two strings.\<close>

lemma hmacsha_verify_iff:
  "\<not> is_error (hmacsha_verify S secret md data sig) \<longleftrightarrow> hmac S md secret data = Some sig"
  by (auto simp: hmacsha_verify_def hmacsha_sign_def compare_bytes_eq Let_def split: option.splits)

lemma rsa_verify_iff:
  "\<not> is_error (rsa_verify S pkey md data sig) \<longleftrightarrow>
     md_ctx_create S \<and> verify_init S md \<and> verify_update S md data \<and> verify_final S md data sig pkey = 1"
  by (simp add: rsa_verify_def)

text \<open>Constructing an RSA algorithm has no undefined step.\<close>

lemma rsa_Exn: "rsa S pub priv pw1 pw2 md name = Inl err \<Longrightarrow> \<exists>x. err = Exn x"
  by (auto simp: rsa_def bind_res_eq_Inl_conv load_public_key_from_string_def load_private_key_from_string_def
      split: if_splits option.splits dest: throwing_Inl load_public_key_Some [unfolded load_public_key_from_string_def]
      load_private_key_Some [unfolded load_private_key_from_string_def])

section \<open>What is signed can be verified\<close>

text \<open>What OpenSSL documents of the conversion of numbers and of the two halves of a key.\<close>

definition bn_codec :: "openssl \<Rightarrow> bool" where
  "bn_codec S \<longleftrightarrow> (\<forall>n k. 0 \<le> n \<longrightarrow> bn_bin2bn S (replicate k CHR 0x00 @ bn_bn2bin S n) = Some n)"

definition rsa_key_pair :: "openssl \<Rightarrow> evp_md \<Rightarrow> evp_pkey \<Rightarrow> evp_pkey \<Rightarrow> bool" where
  "rsa_key_pair S md priv pub \<longleftrightarrow>
     md_ctx_create S \<and> verify_init S md \<and> (\<forall>data. verify_update S md data) \<and>
     (\<forall>data sig. sign_final S md data priv = Some sig \<longrightarrow> verify_final S md data sig pub = 1)"

definition ec_key_pair :: "openssl \<Rightarrow> evp_md \<Rightarrow> evp_pkey \<Rightarrow> evp_pkey \<Rightarrow> bool" where
  "ec_key_pair S md priv pub \<longleftrightarrow>
     ecdsa_sig_new S \<and> digest_verify_init S (Some md) pub = 1 \<and>
     (\<forall>data der. digest_sign_final S Default_params md data priv = Some der \<longrightarrow>
        digest_verify_final S Default_params md data der pub = 1 \<and>
        (\<exists>r s. 0 \<le> r \<and> 0 \<le> s \<and> d2i_ecdsa_sig S der = Some (r, s) \<and> i2d_ecdsa_sig S (Some (r, s)) = Some der))"

definition ed_key_pair :: "openssl \<Rightarrow> evp_pkey \<Rightarrow> evp_pkey \<Rightarrow> bool" where
  "ed_key_pair S priv pub \<longleftrightarrow>
     digest_verify_init S None pub = 1 \<and>
     (\<forall>data sig. digest_sign S data priv = Some sig \<longrightarrow> digest_verify S data sig pub = 1)"

definition pss_key_pair :: "openssl \<Rightarrow> evp_md \<Rightarrow> evp_pkey \<Rightarrow> evp_pkey \<Rightarrow> bool" where
  "pss_key_pair S md priv pub \<longleftrightarrow>
     digest_verify_init S (Some md) pub = 1 \<and> 0 < set_rsa_padding S pub \<and> 0 < set_rsa_pss_saltlen S pub (- 1) \<and>
     (\<forall>data sig. digest_sign_final S (Pss_params (- 1)) md data priv = Some sig \<longrightarrow>
        length sig = pkey_size S priv \<and> digest_verify_final S (Pss_params (- 1)) md data sig pub = 1)"

text \<open>The algorithm that signs and the one that verifies: of the same kind, with matching keys.\<close>

fun matching :: "openssl \<Rightarrow> algorithm \<Rightarrow> algorithm \<Rightarrow> bool" where
  "matching S Alg_none Alg_none \<longleftrightarrow> True"
| "matching S (Alg_hmacsha secret md name) (Alg_hmacsha secret' md' name') \<longleftrightarrow> secret = secret' \<and> md = md'"
| "matching S (Alg_rsa priv md name) (Alg_rsa pub md' name') \<longleftrightarrow> md = md' \<and> rsa_key_pair S md priv pub"
| "matching S (Alg_ecdsa priv md name n) (Alg_ecdsa pub md' name' n') \<longleftrightarrow>
     md = md' \<and> ec_key_pair S md priv pub \<and> bn_codec S"
| "matching S (Alg_eddsa priv name) (Alg_eddsa pub name') \<longleftrightarrow> ed_key_pair S priv pub"
| "matching S (Alg_pss priv md name) (Alg_pss pub md' name') \<longleftrightarrow> md = md' \<and> pss_key_pair S md priv pub"
| "matching S a b \<longleftrightarrow> False"

lemma length_fill_left [simp]: "length raw \<le> n \<Longrightarrow> length (fill_left n raw) = n"
  by (simp add: fill_left_def)

lemma raw2bn_fill: "bn_codec S \<Longrightarrow> 0 \<le> n \<Longrightarrow> raw2bn S (fill_left k (bn2raw S n)) = Some n"
  by (simp add: bn_codec_def raw2bn_def fill_left_def bn2raw_def)

text \<open>The fixed-size form of a signature has the promised length and is turned back into the DER form.\<close>

lemma p1363_length:
  "der_to_p1363_signature S siglen der = Inr (sig, No_error) \<Longrightarrow> length sig = 2 * (siglen div 2)"
  by (auto simp: der_to_p1363_signature_def Let_def split: option.splits if_splits)

lemma p1363_round_trip:
  assumes "der_to_p1363_signature S siglen der = Inr (sig, ec)" and "\<not> is_error ec"
    and "d2i_ecdsa_sig S der = Some (r, s)" and "i2d_ecdsa_sig S (Some (r, s)) = Some der"
    and "bn_codec S" and "ecdsa_sig_new S" and "0 \<le> r" and "0 \<le> s"
  shows "p1363_to_der_signature S sig = (der, No_error)"
proof -
  let ?n = "siglen div 2"
  have le: "length (bn2raw S r) \<le> ?n" "length (bn2raw S s) \<le> ?n"
    and sig: "sig = fill_left ?n (bn2raw S r) @ fill_left ?n (bn2raw S s)"
    using assms(1,3) by (auto simp: der_to_p1363_signature_def Let_def split: if_splits)
  have "length sig div 2 = ?n" using le by (simp add: sig)
  then have "take (length sig div 2) sig = fill_left ?n (bn2raw S r)"
    "drop (length sig div 2) sig = fill_left ?n (bn2raw S s)"
    using le by (simp_all add: sig)
  with assms(4-8) show ?thesis by (simp add: p1363_to_der_signature_def raw2bn_fill)
qed

lemma ecdsa_sign_verify:
  assumes "ec_key_pair S md priv pub" and "bn_codec S"
    and "ecdsa_sign S priv md siglen data = Inr (sig, ec)" and "\<not> is_error ec"
  shows "\<not> is_error (ecdsa_verify S pub md data sig)"
proof -
  obtain der where der: "md_ctx_create S" "digest_update S md data \<noteq> 0"
    "digest_sign_final S Default_params md data priv = Some der" "der_to_p1363_signature S siglen der = Inr (sig, ec)"
    using assms(3,4) by (auto simp: ecdsa_sign_def split: if_splits option.splits)
  from assms(1) der(3) obtain r s where rs: "0 \<le> r" "0 \<le> s" "d2i_ecdsa_sig S der = Some (r, s)"
    "i2d_ecdsa_sig S (Some (r, s)) = Some der"
    unfolding ec_key_pair_def by blast
  from assms(1) der(3) have pub: "digest_verify_final S Default_params md data der pub = 1"
    "ecdsa_sig_new S" "digest_verify_init S (Some md) pub = 1"
    by (simp_all add: ec_key_pair_def)
  have "p1363_to_der_signature S sig = (der, No_error)"
    by (rule p1363_round_trip [OF der(4) assms(4) rs(3,4) assms(2) pub(2) rs(1,2)])
  with der(1,2) pub show ?thesis by (simp add: ecdsa_verify_def)
qed

lemma rsa_sign_verify:
  assumes "rsa_key_pair S md priv pub" and "rsa_sign S priv md data = (sig, ec)" and "\<not> is_error ec"
  shows "\<not> is_error (rsa_verify S pub md data sig)"
  using assms by (auto simp: rsa_key_pair_def rsa_sign_def rsa_verify_iff split: if_splits option.splits)

lemma eddsa_sign_verify:
  assumes "ed_key_pair S priv pub" and "eddsa_sign S priv data = (sig, ec)" and "\<not> is_error ec"
  shows "\<not> is_error (eddsa_verify S pub data sig)"
  using assms by (auto simp: ed_key_pair_def eddsa_sign_def eddsa_verify_def split: if_splits option.splits)

lemma pss_sign_verify:
  assumes "pss_key_pair S md priv pub" and "pss_sign S priv md data = (sig, ec)" and "\<not> is_error ec"
  shows "\<not> is_error (pss_verify S pub md data sig)"
  using assms by (auto simp: pss_key_pair_def pss_sign_def pss_verify_def split: if_splits option.splits)

lemma sign_verify:
  assumes "matching S a b" and "alg_sign S a data = Inr (sig, ec)" and "\<not> is_error ec"
  shows "\<not> is_error (alg_verify S b data sig)"
  using assms
proof (induction S a b rule: matching.induct)
  case (2 S secret md name secret' md' name')
  then show ?case by (auto simp: hmacsha_verify_iff hmacsha_sign_def split: option.splits)
next
  case (4 S priv md name n pub md' name' n')
  then show ?case using ecdsa_sign_verify [of S md priv pub n data sig ec] by auto
qed (auto simp: none_sign_def none_verify_def dest: rsa_sign_verify eddsa_sign_verify pss_sign_verify)

lemma alg_verify_code: "\<not> is_error (alg_verify S a data sig) \<Longrightarrow> alg_verify S a data sig = No_error"
  by (cases a) (auto simp: none_verify_def hmacsha_verify_def hmacsha_sign_def rsa_verify_def ecdsa_verify_def
      p1363_to_der_signature_def eddsa_verify_def pss_verify_def Let_def split: option.splits if_splits prod.splits)

section \<open>Results of OpenSSL that are misread\<close>

text \<open>OpenSSL documents that every result of \<^verbatim>\<open>EVP_DigestVerifyFinal\<close> but 1 is a failure. \<^verbatim>\<open>ecdsa::verify\<close>
  takes any other than 0 and -1 for a success.\<close>

lemma ecdsa_accepts_other_failures:
  assumes "p1363_to_der_signature S sig = (der, No_error)" and "md_ctx_create S"
    and "digest_verify_init S (Some md) pub = 1" and "digest_update S md data = 1"
    and "digest_verify_final S Default_params md data der pub = - 2"
  shows "\<not> is_error (ecdsa_verify S pub md data sig)"
  using assms by (simp add: ecdsa_verify_def)

text \<open>\<^verbatim>\<open>pss::verify\<close> reports the failure to set the padding in the category of signature generation.\<close>

lemma pss_verify_wrong_category:
  assumes "md_ctx_create S" and "digest_verify_init S (Some md) pub = 1" and "set_rsa_padding S pub \<le> 0"
  shows "throw_if_error (pss_verify S pub md data sig) =
    Inl (Exn (Signature_generation_exception (signature_generation_error_value Sigg_rsa_padding_failed)))"
  using assms by (simp add: pss_verify_def throw_if_error.simps)

end
