(* ===== verification/Json.thy ===== *)
theory Json
  imports Containers "HOL-Library.Word"
begin

unbundle bit_operations_syntax

text \<open>
  \<^verbatim>\<open>jwt-cpp/include/picojson/picojson.h\<close>, compiled with \<^verbatim>\<open>PICOJSON_USE_INT64\<close> as the JWT traits
  do: JSON values, the serializer and the recursive-descent parser with its \<^verbatim>\<open>default_parse_context\<close>.

  A \<^verbatim>\<open>double\<close> is its 64-bit pattern; \<^verbatim>\<open>strtod\<close>, the test for a small integral value, the two
  \<^verbatim>\<open>snprintf\<close> formats, the conversion from \<^verbatim>\<open>int64_t\<close> and the comparison belong to the C implementation
  and are the parameter record \<open>c_double\<close>. The decimal
  point is the one of the C locale, since the program never changes it. \<open>input\<close> is the class of the same
  name with its one-character push-back; a character code is \<^term>\<open>Some c\<close> and the \<open>-1\<close> that
  \<^verbatim>\<open>getc\<close> returns at the end is \<^const>\<open>None\<close>.

  The parser recurses through its context, so the model takes fuel; \<open>parse_text\<close> starts it with more
  than the input can use up, which is proved below.
\<close>

section \<open>Values\<close>

type_synonym double = "64 word"

datatype json =
    JNull
  | JBool bool
  | JInt int
  | JNumber double
  | JString string
  | JArray "json list"
  | JObject "(string \<times> json) list"

record c_double =
  strtod :: "string \<Rightarrow> double \<times> nat"
  small_integral :: "double \<Rightarrow> bool"
  print_f :: "double \<Rightarrow> string"
  print_17g :: "double \<Rightarrow> string"
  of_int64 :: "int \<Rightarrow> double"
  double_eq :: "double \<Rightarrow> double \<Rightarrow> bool"

text \<open>\<^verbatim>\<open>std::isnan(n) || std::isinf(n)\<close>: all exponent bits are set.\<close>

definition nan_or_inf :: "double \<Rightarrow> bool" where
  "nan_or_inf d \<longleftrightarrow> drop_bit 52 d AND 0x7FF = 0x7FF"

definition int64_min :: int where "int64_min = - 9223372036854775808"
definition int64_max :: int where "int64_max = 9223372036854775807"

section \<open>The serializer\<close>

fun to_str :: "c_double \<Rightarrow> json \<Rightarrow> string" where
  "to_str L JNull = ''null''"
| "to_str L (JBool b) = (if b then ''true'' else ''false'')"
| "to_str L (JInt i) = to_string i"
| "to_str L (JNumber d) = (if small_integral L d then print_f L d else print_17g L d)"
| "to_str L (JString s) = s"
| "to_str L (JArray _) = ''array''"
| "to_str L (JObject _) = ''object''"

definition hex_digit :: "nat \<Rightarrow> char" where
  "hex_digit n = ''0123456789abcdef'' ! n"

definition serialize_str_char :: "char \<Rightarrow> string" where
  "serialize_str_char c =
     (if c = CHR 0x22 then [CHR 0x5C, CHR 0x22]
      else if c = CHR 0x5C then [CHR 0x5C, CHR 0x5C]
      else if c = CHR ''/'' then [CHR 0x5C, CHR ''/'']
      else if c = CHR 0x08 then [CHR 0x5C, CHR ''b'']
      else if c = CHR 0x0C then [CHR 0x5C, CHR ''f'']
      else if c = CHR 0x0A then [CHR 0x5C, CHR ''n'']
      else if c = CHR 0x0D then [CHR 0x5C, CHR ''r'']
      else if c = CHR 0x09 then [CHR 0x5C, CHR ''t'']
      else if of_char c < (0x20 :: nat) \<or> c = CHR 0x7F
        then [CHR 0x5C, CHR ''u'', CHR ''0'', CHR ''0'', hex_digit (of_char c div 16), hex_digit (of_char c mod 16)]
      else [c])"

definition serialize_str :: "string \<Rightarrow> string" where
  "serialize_str s = CHR 0x22 # concat (map serialize_str_char s) @ [CHR 0x22]"

definition indent_line :: "int \<Rightarrow> string" where
  "indent_line indent = CHR 0x0A # replicate (nat (indent * 2)) CHR '' ''"

text \<open>\<open>inner\<close> is the indentation of the elements, \<open>-1\<close> in compact output.\<close>

definition inner_indent :: "int \<Rightarrow> int" where
  "inner_indent indent = (if indent \<noteq> - 1 then indent + 1 else indent)"

definition close_indent :: "int \<Rightarrow> bool \<Rightarrow> string" where
  "close_indent indent no_items = (if indent \<noteq> - 1 \<and> \<not> no_items then indent_line indent else [])"

definition final_newline :: "int \<Rightarrow> string" where
  "final_newline indent = (if indent = 0 then [CHR 0x0A] else [])"

fun serialize_value :: "c_double \<Rightarrow> int \<Rightarrow> json \<Rightarrow> string"
  and serialize_items :: "c_double \<Rightarrow> int \<Rightarrow> bool \<Rightarrow> json list \<Rightarrow> string"
  and serialize_members :: "c_double \<Rightarrow> int \<Rightarrow> bool \<Rightarrow> (string \<times> json) list \<Rightarrow> string" where
  "serialize_value L indent (JString s) = serialize_str s @ final_newline indent"
| "serialize_value L indent (JArray vs) =
     ''['' @ serialize_items L (inner_indent indent) True vs @ close_indent indent (vs = []) @ '']'' @
     final_newline indent"
| "serialize_value L indent (JObject kvs) =
     ''{'' @ serialize_members L (inner_indent indent) True kvs @ close_indent indent (kvs = []) @ ''}'' @
     final_newline indent"
| "serialize_value L indent v = to_str L v @ final_newline indent"
| "serialize_items L indent first [] = []"
| "serialize_items L indent first (v # vs) =
     (if first then [] else '','') @ (if indent \<noteq> - 1 then indent_line indent else []) @
     serialize_value L indent v @ serialize_items L indent False vs"
| "serialize_members L indent first [] = []"
| "serialize_members L indent first ((k, v) # kvs) =
     (if first then [] else '','') @ (if indent \<noteq> - 1 then indent_line indent else []) @
     serialize_str k @ '':'' @ (if indent \<noteq> - 1 then '' '' else []) @
     serialize_value L indent v @ serialize_members L indent False kvs"

definition serialize :: "c_double \<Rightarrow> bool \<Rightarrow> json \<Rightarrow> string" where
  "serialize L prettify v = serialize_value L (if prettify then 0 else - 1) v"

section \<open>The class input\<close>

record input =
  cur :: string
  consumed :: bool
  line :: nat

definition new_input :: "string \<Rightarrow> input" where
  "new_input s = \<lparr>cur = s, consumed = False, line = 1\<rparr>"

definition getc :: "input \<Rightarrow> char option \<times> input" where
  "getc inp =
     (let inp = (if consumed inp
        then inp\<lparr>line := (if hd (cur inp) = CHR 0x0A then line inp + 1 else line inp), cur := tl (cur inp)\<rparr>
        else inp)
      in if cur inp = [] then (None, inp\<lparr>consumed := False\<rparr>)
         else (Some (hd (cur inp)), inp\<lparr>consumed := True\<rparr>))"

definition ungetc :: "input \<Rightarrow> input" where
  "ungetc inp = inp\<lparr>consumed := False\<rparr>"

text \<open>The characters that are still to come.\<close>

definition rest :: "input \<Rightarrow> string" where
  "rest inp = (if consumed inp then tl (cur inp) else cur inp)"

lemma rest_new [simp]: "rest (new_input s) = s"
  by (simp add: rest_def new_input_def)

lemma fst_getc [simp]: "fst (getc inp) = (case rest inp of [] \<Rightarrow> None | c # _ \<Rightarrow> Some c)"
  by (auto simp: getc_def rest_def Let_def split: list.splits)

lemma rest_getc [simp]: "rest (snd (getc inp)) = tl (rest inp)"
  by (auto simp: getc_def rest_def Let_def)

lemma rest_ungetc [simp]: "rest (ungetc (snd (getc inp))) = rest inp"
  by (auto simp: getc_def rest_def ungetc_def Let_def)

lemma getc_SomeD: "getc inp = (Some c, inp') \<Longrightarrow> rest inp = c # rest inp'"
  using fst_getc [of inp] rest_getc [of inp] by (cases "rest inp") auto

lemma getc_NoneD: "getc inp = (None, inp') \<Longrightarrow> rest inp = [] \<and> rest inp' = []"
  using fst_getc [of inp] rest_getc [of inp] by (cases "rest inp") auto

lemma getc_Cons: "rest inp = c # cs \<Longrightarrow> getc inp = (Some c, snd (getc inp))"
  using fst_getc [of inp] by (metis list.simps(5) prod.collapse)

lemma getc_Nil: "rest inp = [] \<Longrightarrow> getc inp = (None, snd (getc inp))"
  using fst_getc [of inp] by (metis list.simps(4) prod.collapse)

lemma rest_unget: "getc inp = (ch, inp') \<Longrightarrow> rest (ungetc inp') = rest inp"
  using rest_ungetc [of inp] by simp

lemma getc_shrinks: "getc inp = (Some c, inp') \<Longrightarrow> length (rest inp') < length (rest inp)"
  by (drule getc_SomeD) simp

definition is_ws :: "char \<Rightarrow> bool" where
  "is_ws c \<longleftrightarrow> c = CHR '' '' \<or> c = CHR 0x09 \<or> c = CHR 0x0A \<or> c = CHR 0x0D"

function skip_ws :: "input \<Rightarrow> input" where
  "skip_ws inp =
     (case getc inp of (ch, inp') \<Rightarrow>
        (case ch of
           Some c \<Rightarrow> if is_ws c then skip_ws inp' else ungetc inp'
         | None \<Rightarrow> ungetc inp'))"
  by pat_completeness auto
termination
  by (relation "measure (\<lambda>inp. length (rest inp))") (auto intro: getc_shrinks [OF sym])

declare skip_ws.simps [simp del]

definition expect :: "char \<Rightarrow> input \<Rightarrow> bool \<times> input" where
  "expect expected inp =
     (case getc (skip_ws inp) of (ch, inp') \<Rightarrow>
        if ch \<noteq> Some expected then (False, ungetc inp') else (True, inp'))"

primrec match_text :: "string \<Rightarrow> input \<Rightarrow> bool \<times> input" where
  "match_text [] inp = (True, inp)"
| "match_text (p # ps) inp =
     (case getc inp of (ch, inp') \<Rightarrow>
        if ch \<noteq> Some p then (False, ungetc inp') else match_text ps inp')"

section \<open>Strings\<close>

definition hex_value :: "char \<Rightarrow> nat option" where
  "hex_value c =
     (if CHR ''0'' \<le> c \<and> c \<le> CHR ''9'' then Some (of_char c - of_char CHR ''0'')
      else if CHR ''A'' \<le> c \<and> c \<le> CHR ''F'' then Some (of_char c - (of_char CHR ''A'' - 0xa))
      else if CHR ''a'' \<le> c \<and> c \<le> CHR ''f'' then Some (of_char c - (of_char CHR ''a'' - 0xa))
      else None)"

text \<open>\<^verbatim>\<open>_parse_quadhex\<close>: the four iterations of its loop; \<^const>\<open>None\<close> is its \<open>-1\<close>.\<close>

fun quadhex :: "nat \<Rightarrow> nat \<Rightarrow> input \<Rightarrow> nat option \<times> input" where
  "quadhex 0 uni_ch inp = (Some uni_ch, inp)"
| "quadhex (Suc i) uni_ch inp =
     (case getc inp of (ch, inp') \<Rightarrow>
        (case ch of
           None \<Rightarrow> (None, inp')
         | Some c \<Rightarrow>
             (case hex_value c of
                None \<Rightarrow> (None, ungetc inp')
              | Some h \<Rightarrow> quadhex i (uni_ch * 16 + h) inp')))"

definition parse_quadhex :: "input \<Rightarrow> nat option \<times> input" where
  "parse_quadhex inp = quadhex 4 0 inp"

text \<open>The UTF-8 bytes that are pushed for a code point.\<close>

definition utf8 :: "nat \<Rightarrow> string" where
  "utf8 uni_ch =
     (if uni_ch < 0x80 then [char_of uni_ch]
      else
        (if uni_ch < 0x800 then [char_of (0xc0 OR drop_bit 6 uni_ch)]
         else
           (if uni_ch < 0x10000 then [char_of (0xe0 OR drop_bit 12 uni_ch)]
            else [char_of (0xf0 OR drop_bit 18 uni_ch), char_of (0x80 OR (drop_bit 12 uni_ch AND 0x3f))]) @
           [char_of (0x80 OR (drop_bit 6 uni_ch AND 0x3f))]) @
        [char_of (0x80 OR (uni_ch AND 0x3f))])"

text \<open>\<^verbatim>\<open>_parse_codepoint\<close>: the bytes to push, or failure. The second test of the surrogate escape
  is only made when the first character was a backslash.\<close>

definition parse_codepoint :: "input \<Rightarrow> string option \<times> input" where
  "parse_codepoint inp =
     (case parse_quadhex inp of
        (None, inp1) \<Rightarrow> (None, inp1)
      | (Some uni_ch, inp1) \<Rightarrow>
          if 0xd800 \<le> uni_ch \<and> uni_ch \<le> 0xdfff then
            if 0xdc00 \<le> uni_ch then (None, inp1)
            else
              (case getc inp1 of (ch1, inp2) \<Rightarrow>
                 if ch1 \<noteq> Some CHR 0x5C then (None, ungetc inp2)
                 else
                   (case getc inp2 of (ch2, inp3) \<Rightarrow>
                      if ch2 \<noteq> Some CHR ''u'' then (None, ungetc inp3)
                      else
                        (case parse_quadhex inp3 of
                           (None, inp4) \<Rightarrow> (None, inp4)
                         | (Some second, inp4) \<Rightarrow>
                             if \<not> (0xdc00 \<le> second \<and> second \<le> 0xdfff) then (None, inp4)
                             else (Some (utf8 ((push_bit 10 (uni_ch - 0xd800) OR ((second - 0xdc00) AND 0x3ff))
                                     + 0x10000)), inp4))))
          else (Some (utf8 uni_ch), inp1))"

definition unescape :: "char \<Rightarrow> char option" where
  "unescape c =
     (if c = CHR 0x22 then Some CHR 0x22
      else if c = CHR 0x5C then Some CHR 0x5C
      else if c = CHR ''/'' then Some CHR ''/''
      else if c = CHR ''b'' then Some CHR 0x08
      else if c = CHR ''f'' then Some CHR 0x0C
      else if c = CHR ''n'' then Some CHR 0x0A
      else if c = CHR ''r'' then Some CHR 0x0D
      else if c = CHR ''t'' then Some CHR 0x09
      else None)"

lemma quadhex_length: "length (rest (snd (quadhex i u inp))) \<le> length (rest inp)"
proof (induction i u inp rule: quadhex.induct)
  case (2 i u inp)
  then show ?case
    by (auto split: prod.splits option.splits dest: getc_SomeD getc_NoneD simp: rest_unget)
      (metis getc_SomeD le_SucI length_Cons snd_conv)
qed simp

lemma quadhex_le: "quadhex i u inp = (r, inp') \<Longrightarrow> length (rest inp') \<le> length (rest inp)"
  using quadhex_length [of i u inp] by simp

lemma getc_le: "getc inp = (ch, inp') \<Longrightarrow> length (rest inp') \<le> length (rest inp)"
  using rest_getc [of inp] by simp

lemma codepoint_le: "parse_codepoint inp = (r, inp') \<Longrightarrow> length (rest inp') \<le> length (rest inp)"
  by (auto simp: parse_codepoint_def parse_quadhex_def split: prod.splits option.splits if_splits
      dest!: quadhex_le getc_le [of inp] simp: rest_unget)
    (meson getc_le order_trans)+

function parse_string :: "string \<Rightarrow> input \<Rightarrow> string option \<times> input" where
  "parse_string out inp =
     (case getc inp of
        (None, inp1) \<Rightarrow> (None, ungetc inp1)
      | (Some c, inp1) \<Rightarrow>
          if of_char c < (0x20 :: nat) then (None, ungetc inp1)
          else if c = CHR 0x22 then (Some out, inp1)
          else if c = CHR 0x5C then
            (case getc inp1 of
               (None, inp2) \<Rightarrow> (None, inp2)
             | (Some e, inp2) \<Rightarrow>
                 if e = CHR ''u'' then
                   (case parse_codepoint inp2 of
                      (None, inp3) \<Rightarrow> (None, inp3)
                    | (Some bytes, inp3) \<Rightarrow> parse_string (out @ bytes) inp3)
                 else
                   (case unescape e of
                      Some x \<Rightarrow> parse_string (out @ [x]) inp2
                    | None \<Rightarrow> (None, inp2)))
          else parse_string (out @ [c]) inp1)"
  by pat_completeness auto
termination
proof (relation "measure (\<lambda>(out, inp). length (rest inp))", goal_cases)
  case 1
  then show ?case by simp
next
  case 2
  then show ?case by (auto dest!: codepoint_le [OF sym] getc_shrinks [OF sym])
next
  case 3
  then show ?case by (auto dest!: getc_shrinks [OF sym])
next
  case 4
  then show ?case by (auto dest!: getc_shrinks [OF sym])
qed

declare parse_string.simps [simp del]

section \<open>Numbers\<close>

definition number_char :: "char \<Rightarrow> bool" where
  "number_char c \<longleftrightarrow> is_digit c \<or> c = CHR ''+'' \<or> c = CHR ''-'' \<or> c = CHR ''e'' \<or> c = CHR ''E'' \<or> c = CHR ''.''"

function parse_number :: "string \<Rightarrow> input \<Rightarrow> string \<times> input" where
  "parse_number num_str inp =
     (case getc inp of
        (None, inp1) \<Rightarrow> (num_str, ungetc inp1)
      | (Some c, inp1) \<Rightarrow>
          if number_char c then parse_number (num_str @ [c]) inp1 else (num_str, ungetc inp1))"
  by pat_completeness auto
termination
  by (relation "measure (\<lambda>(num_str, inp). length (rest inp))") (auto dest!: getc_shrinks [OF sym])

declare parse_number.simps [simp del]

text \<open>\<^verbatim>\<open>strtoimax\<close> that reads the whole text and stays in range.\<close>

definition strtoimax_all :: "string \<Rightarrow> int option" where
  "strtoimax_all s =
     (let (neg, ds) = split_sign s; v = (if neg then - int (read_nat ds) else int (read_nat ds))
      in if ds \<noteq> [] \<and> list_all is_digit ds \<and> int64_min \<le> v \<and> v \<le> int64_max then Some v else None)"

section \<open>The parser\<close>

datatype 'a presult = Parsed 'a input | Failed input | Thrown cpp_exn | Out_of_fuel

fun after :: "'a presult \<Rightarrow> ('a \<Rightarrow> input \<Rightarrow> 'b presult) \<Rightarrow> 'b presult" where
  "after (Parsed v inp) k = k v inp"
| "after (Failed inp) k = Failed inp"
| "after (Thrown e) k = Thrown e"
| "after Out_of_fuel k = Out_of_fuel"

text \<open>\<^verbatim>\<open>in.expect(c)\<close> as a step that fails, or goes on.\<close>

definition expecting :: "char \<Rightarrow> 'a \<Rightarrow> input \<Rightarrow> 'a presult" where
  "expecting c v inp = (case expect c inp of (b, inp') \<Rightarrow> if b then Parsed v inp' else Failed inp')"

definition literal :: "string \<Rightarrow> json \<Rightarrow> input \<Rightarrow> json presult" where
  "literal text v inp = (case match_text text inp of (b, inp') \<Rightarrow> if b then Parsed v inp' else Failed inp')"

definition string_token :: "input \<Rightarrow> string presult" where
  "string_token inp =
     (case parse_string [] inp of (Some s, inp') \<Rightarrow> Parsed s inp' | (None, inp') \<Rightarrow> Failed inp')"

definition number :: "c_double \<Rightarrow> input \<Rightarrow> json presult" where
  "number L inp =
     (case parse_number [] inp of (num_str, inp') \<Rightarrow>
        if num_str = [] then Failed inp'
        else
          (case strtoimax_all num_str of
             Some i \<Rightarrow> Parsed (JInt i) inp'
           | None \<Rightarrow>
               (case strtod L num_str of (f, endp) \<Rightarrow>
                  if endp = length num_str
                  then if nan_or_inf f then Thrown Runtime_error else Parsed (JNumber f) inp'
                  else Failed inp')))"

text \<open>An object's key, up to and including the colon.\<close>

definition member_key :: "input \<Rightarrow> string presult" where
  "member_key inp =
     after (expecting CHR 0x22 () inp) (\<lambda>_ inp1.
       after (string_token inp1) (\<lambda>key inp2. expecting CHR '':'' key inp2))"

fun parse_value :: "c_double \<Rightarrow> nat \<Rightarrow> nat \<Rightarrow> input \<Rightarrow> json presult"
  and parse_items :: "c_double \<Rightarrow> nat \<Rightarrow> nat \<Rightarrow> json list \<Rightarrow> input \<Rightarrow> json list presult"
  and parse_members ::
    "c_double \<Rightarrow> nat \<Rightarrow> nat \<Rightarrow> (string, json) std_map \<Rightarrow> input \<Rightarrow> (string, json) std_map presult" where
  "parse_value L 0 depths inp = Out_of_fuel"
| "parse_value L (Suc fuel) depths inp =
     (case getc (skip_ws inp) of (ch, inp1) \<Rightarrow>
        case ch of
          None \<Rightarrow> Failed (ungetc inp1)
        | Some c \<Rightarrow>
            if c = CHR ''n'' then literal ''ull'' JNull inp1
            else if c = CHR ''f'' then literal ''alse'' (JBool False) inp1
            else if c = CHR ''t'' then literal ''rue'' (JBool True) inp1
            else if c = CHR 0x22 then after (string_token inp1) (\<lambda>s. Parsed (JString s))
            else if c = CHR ''['' then
              if depths = 0 then Failed inp1
              else
                (case expect CHR '']'' inp1 of (b, inp2) \<Rightarrow>
                   if b then Parsed (JArray []) inp2
                   else
                     after (parse_items L fuel (depths - 1) [] inp2) (\<lambda>vs.
                       expecting CHR '']'' (JArray vs)))
            else if c = CHR ''{'' then
              if depths = 0 then Failed inp1
              else
                (case expect CHR ''}'' inp1 of (b, inp2) \<Rightarrow>
                   if b then Parsed (JObject []) inp2
                   else
                     after (parse_members L fuel depths [] inp2) (\<lambda>kvs.
                       expecting CHR ''}'' (JObject kvs)))
            else if is_digit c \<or> c = CHR ''-'' then number L (ungetc inp1)
            else Failed (ungetc inp1))"
| "parse_items L 0 depths vs inp = Out_of_fuel"
| "parse_items L (Suc fuel) depths vs inp =
     after (parse_value L fuel depths inp) (\<lambda>v inp1.
       case expect CHR '','' inp1 of (b, inp2) \<Rightarrow>
         if b then parse_items L fuel depths (vs @ [v]) inp2 else Parsed (vs @ [v]) inp2)"
| "parse_members L 0 depths kvs inp = Out_of_fuel"
| "parse_members L (Suc fuel) depths kvs inp =
     after (member_key inp) (\<lambda>key inp1.
       after (parse_value L fuel depths inp1) (\<lambda>v inp2.
         case expect CHR '','' inp2 of (b, inp3) \<Rightarrow>
           if b then parse_members L fuel depths (map_assign key v kvs) inp3
           else Parsed (map_assign key v kvs) inp3))"

text \<open>The rest of the line at which parsing failed, for the error message.\<close>

function near :: "string \<Rightarrow> input \<Rightarrow> string \<times> input" where
  "near err inp =
     (case getc inp of
        (None, inp1) \<Rightarrow> (err, inp1)
      | (Some c, inp1) \<Rightarrow>
          if c = CHR 0x0A then (err, inp1)
          else near (if (0x20 :: nat) \<le> of_char c then err @ [c] else err) inp1)"
  by pat_completeness auto
termination
  by (relation "measure (\<lambda>(err, inp). length (rest inp))") (auto dest!: getc_shrinks [OF sym])

declare near.simps [simp del]

definition default_max_depths :: nat where
  "default_max_depths = 100"

definition enough_fuel :: "string \<Rightarrow> nat" where
  "enough_fuel s = 2 * length s + 1"

text \<open>\<^verbatim>\<open>parse(out, s)\<close>: the value, or the error message. What follows the value is ignored.\<close>

definition parse_text :: "c_double \<Rightarrow> string \<Rightarrow> (string + json) res" where
  "parse_text L s =
     (case parse_value L (enough_fuel s) default_max_depths (new_input s) of
        Parsed v _ \<Rightarrow> Inr (Inr v)
      | Failed inp \<Rightarrow>
          Inr (Inl (fst (near (''syntax error at line '' @ to_string (int (line inp)) @ '' near: '') inp)))
      | Thrown e \<Rightarrow> Inl (Exn e)
      | Out_of_fuel \<Rightarrow> Inr (Inl []))"

end
