(* ===== verification/Jwt.thy ===== *)
theory Jwt
  imports JwtAlgorithms Json
begin

text \<open>
  The classes of \<^verbatim>\<open>jwt-cpp/include/jwt-cpp/jwt.h\<close> over the traits of
  \<^verbatim>\<open>traits/kazuho-picojson/traits.h\<close>: claims, the decoded token, the builder, the verification
  operations and the verifier.

  \<open>jwt_lib\<close> collects what the library takes from outside: OpenSSL, the C library's numbers, the number of
  ticks in a second of \<^verbatim>\<open>std::chrono::system_clock\<close> (64 bits wide, so converting a far date overflows),
  and the order in which a \<^verbatim>\<open>std::unordered_map\<close> is iterated. A \<^verbatim>\<open>date\<close> is its count of ticks.
\<close>

section \<open>The traits\<close>

record jwt_lib =
  ssl :: openssl
  num :: c_double
  tick_rate :: int
  iteration :: "string list \<Rightarrow> string list"

datatype json_type = Type_boolean | Type_integer | Type_number | Type_string | Type_array | Type_object

type_synonym claims = "(string, json) std_map"

fun get_type :: "json \<Rightarrow> json_type res" where
  "get_type (JBool _) = Inr Type_boolean"
| "get_type (JInt _) = Inr Type_integer"
| "get_type (JNumber _) = Inr Type_number"
| "get_type (JString _) = Inr Type_string"
| "get_type (JArray _) = Inr Type_array"
| "get_type (JObject _) = Inr Type_object"
| "get_type JNull = Inl (Exn Logic_error)"

fun as_object :: "json \<Rightarrow> claims res" where
  "as_object (JObject kvs) = Inr kvs"
| "as_object _ = Inl (Exn Bad_cast)"

fun as_string :: "json \<Rightarrow> string res" where
  "as_string (JString s) = Inr s"
| "as_string _ = Inl (Exn Bad_cast)"

fun as_array :: "json \<Rightarrow> json list res" where
  "as_array (JArray vs) = Inr vs"
| "as_array _ = Inl (Exn Bad_cast)"

fun as_int :: "json \<Rightarrow> int res" where
  "as_int (JInt i) = Inr i"
| "as_int _ = Inl (Exn Bad_cast)"

fun as_bool :: "json \<Rightarrow> bool res" where
  "as_bool (JBool b) = Inr b"
| "as_bool _ = Inl (Exn Bad_cast)"

text \<open>\<^verbatim>\<open>is<double>()\<close> also holds of an integer, which \<^verbatim>\<open>get<double>()\<close> converts.\<close>

fun as_number :: "c_double \<Rightarrow> json \<Rightarrow> double res" where
  "as_number L (JNumber d) = Inr d"
| "as_number L (JInt i) = Inr (of_int64 L i)"
| "as_number L _ = Inl (Exn Bad_cast)"

text \<open>\<^verbatim>\<open>parse\<close>: the value when the parser reports no error.\<close>

definition traits_parse :: "c_double \<Rightarrow> string \<Rightarrow> json option res" where
  "traits_parse L str =
     bind_res (parse_text L str) (\<lambda>r. Inr (case r of Inl err \<Rightarrow> None | Inr v \<Rightarrow> Some v))"

definition traits_serialize :: "c_double \<Rightarrow> json \<Rightarrow> string" where
  "traits_serialize L v = serialize L False v"

section \<open>Dates\<close>

definition checked64 :: "int \<Rightarrow> int res" where
  "checked64 i = (if int64_min \<le> i \<and> i \<le> int64_max then Inr i else Inl (UB Signed_overflow))"

definition from_time_t :: "int \<Rightarrow> int \<Rightarrow> int res" where
  "from_time_t rate t = checked64 (t * rate)"

text \<open>\<^verbatim>\<open>to_time_t\<close> truncates towards zero.\<close>

definition to_time_t :: "int \<Rightarrow> int \<Rightarrow> int" where
  "to_time_t rate d = (if d < 0 then - ((- d) div rate) else d div rate)"

text \<open>\<^verbatim>\<open>std::chrono::seconds(leeway)\<close> of a \<^verbatim>\<open>size_t\<close>, as a signed 64-bit count.\<close>

definition seconds64 :: "nat \<Rightarrow> int" where
  "seconds64 leeway = sint (of_nat leeway :: 64 word)"

definition plus_seconds :: "int \<Rightarrow> int \<Rightarrow> nat \<Rightarrow> int res" where
  "plus_seconds rate d leeway =
     bind_res (checked64 (seconds64 leeway * rate)) (\<lambda>k. checked64 (d + k))"

definition minus_seconds :: "int \<Rightarrow> int \<Rightarrow> nat \<Rightarrow> int res" where
  "minus_seconds rate d leeway =
     bind_res (checked64 (seconds64 leeway * rate)) (\<lambda>k. checked64 (d - k))"

section \<open>basic_claim\<close>

definition claim_of_date :: "int \<Rightarrow> int \<Rightarrow> json" where
  "claim_of_date rate d = JInt (to_time_t rate d)"

definition claim_of_set :: "string std_set \<Rightarrow> json" where
  "claim_of_set s = JArray (map JString s)"

definition as_date :: "int \<Rightarrow> json \<Rightarrow> int res" where
  "as_date rate v = bind_res (as_int v) (from_time_t rate)"

fun insert_strings :: "json list \<Rightarrow> string std_set \<Rightarrow> string std_set res" where
  "insert_strings [] res = Inr res"
| "insert_strings (e # es) res = bind_res (as_string e) (\<lambda>s. insert_strings es (set_insert s res))"

definition as_set :: "json \<Rightarrow> string std_set res" where
  "as_set v = bind_res (as_array v) (\<lambda>es. insert_strings es [])"

section \<open>map_of_claims\<close>

definition parse_claims :: "c_double \<Rightarrow> string \<Rightarrow> claims res" where
  "parse_claims L str =
     bind_res (traits_parse L str) (\<lambda>r. case r of
        None \<Rightarrow> Inl (Exn Runtime_error)
      | Some v \<Rightarrow> as_object v)"

definition has_claim :: "claims \<Rightarrow> string \<Rightarrow> bool" where
  "has_claim cs name \<longleftrightarrow> map_find cs name \<noteq> None"

definition get_claim :: "claims \<Rightarrow> string \<Rightarrow> json res" where
  "get_claim cs name = (case map_find cs name of None \<Rightarrow> Inl (Exn Out_of_range) | Some v \<Rightarrow> Inr v)"

text \<open>The claims as an \<^verbatim>\<open>std::unordered_map\<close>.\<close>

definition get_claims :: "claims \<Rightarrow> string \<Rightarrow> json option" where
  "get_claims cs = map_find cs"

section \<open>decoded_jwt\<close>

record decoded_jwt =
  header_claims :: claims
  payload_claims :: claims
  get_token :: string
  get_header :: string
  get_header_base64 :: string
  get_payload :: string
  get_payload_base64 :: string
  get_signature :: string
  get_signature_base64 :: string

text \<open>The accessors of \<^verbatim>\<open>payload\<close>.\<close>

definition has_payload_claim :: "decoded_jwt \<Rightarrow> string \<Rightarrow> bool" where
  "has_payload_claim j name = has_claim (payload_claims j) name"

definition get_payload_claim :: "decoded_jwt \<Rightarrow> string \<Rightarrow> json res" where
  "get_payload_claim j name = get_claim (payload_claims j) name"

definition has_issuer :: "decoded_jwt \<Rightarrow> bool" where "has_issuer j = has_payload_claim j ''iss''"
definition has_subject :: "decoded_jwt \<Rightarrow> bool" where "has_subject j = has_payload_claim j ''sub''"
definition has_audience :: "decoded_jwt \<Rightarrow> bool" where "has_audience j = has_payload_claim j ''aud''"
definition has_expires_at :: "decoded_jwt \<Rightarrow> bool" where "has_expires_at j = has_payload_claim j ''exp''"
definition has_not_before :: "decoded_jwt \<Rightarrow> bool" where "has_not_before j = has_payload_claim j ''nbf''"
definition has_issued_at :: "decoded_jwt \<Rightarrow> bool" where "has_issued_at j = has_payload_claim j ''iat''"
definition has_id :: "decoded_jwt \<Rightarrow> bool" where "has_id j = has_payload_claim j ''jti''"

definition get_issuer :: "decoded_jwt \<Rightarrow> string res" where
  "get_issuer j = bind_res (get_payload_claim j ''iss'') as_string"

definition get_subject :: "decoded_jwt \<Rightarrow> string res" where
  "get_subject j = bind_res (get_payload_claim j ''sub'') as_string"

definition get_audience :: "decoded_jwt \<Rightarrow> string std_set res" where
  "get_audience j =
     bind_res (get_payload_claim j ''aud'') (\<lambda>aud.
     bind_res (get_type aud) (\<lambda>t.
       if t = Type_string then bind_res (as_string aud) (\<lambda>s. Inr [s])
       else as_set aud))"

definition get_expires_at :: "int \<Rightarrow> decoded_jwt \<Rightarrow> int res" where
  "get_expires_at rate j = bind_res (get_payload_claim j ''exp'') (as_date rate)"

definition get_not_before :: "int \<Rightarrow> decoded_jwt \<Rightarrow> int res" where
  "get_not_before rate j = bind_res (get_payload_claim j ''nbf'') (as_date rate)"

definition get_issued_at :: "int \<Rightarrow> decoded_jwt \<Rightarrow> int res" where
  "get_issued_at rate j = bind_res (get_payload_claim j ''iat'') (as_date rate)"

definition get_id :: "decoded_jwt \<Rightarrow> string res" where
  "get_id j = bind_res (get_payload_claim j ''jti'') as_string"

text \<open>The accessors of \<^verbatim>\<open>header\<close>.\<close>

definition has_header_claim :: "decoded_jwt \<Rightarrow> string \<Rightarrow> bool" where
  "has_header_claim j name = has_claim (header_claims j) name"

definition get_header_claim :: "decoded_jwt \<Rightarrow> string \<Rightarrow> json res" where
  "get_header_claim j name = get_claim (header_claims j) name"

definition has_algorithm :: "decoded_jwt \<Rightarrow> bool" where "has_algorithm j = has_header_claim j ''alg''"
definition has_type :: "decoded_jwt \<Rightarrow> bool" where "has_type j = has_header_claim j ''typ''"
definition has_content_type :: "decoded_jwt \<Rightarrow> bool" where "has_content_type j = has_header_claim j ''cty''"
definition has_key_id :: "decoded_jwt \<Rightarrow> bool" where "has_key_id j = has_header_claim j ''kid''"

definition get_algorithm :: "decoded_jwt \<Rightarrow> string res" where
  "get_algorithm j = bind_res (get_header_claim j ''alg'') as_string"

definition get_token_type :: "decoded_jwt \<Rightarrow> string res" where
  "get_token_type j = bind_res (get_header_claim j ''typ'') as_string"

definition get_content_type :: "decoded_jwt \<Rightarrow> string res" where
  "get_content_type j = bind_res (get_header_claim j ''cty'') as_string"

definition get_key_id :: "decoded_jwt \<Rightarrow> string res" where
  "get_key_id j = bind_res (get_header_claim j ''kid'') as_string"

text \<open>The constructor, with a decoder as argument, and with the library's own.\<close>

definition decode_token_with :: "c_double \<Rightarrow> (string \<Rightarrow> string res) \<Rightarrow> string \<Rightarrow> decoded_jwt res" where
  "decode_token_with L dec token =
     (case find_char CHR ''.'' token of
        None \<Rightarrow> Inl (Exn Invalid_argument)
      | Some hdr_end \<Rightarrow>
          (case find_char_from CHR ''.'' token (hdr_end + 1) of
             None \<Rightarrow> Inl (Exn Invalid_argument)
           | Some payload_end \<Rightarrow>
               bind_res (substr token 0 hdr_end) (\<lambda>header_base64.
               bind_res (substr token (hdr_end + 1) (payload_end - hdr_end - 1)) (\<lambda>payload_base64.
               bind_res (substr_from token (payload_end + 1)) (\<lambda>signature_base64.
               bind_res (dec header_base64) (\<lambda>header.
               bind_res (dec payload_base64) (\<lambda>payload.
               bind_res (dec signature_base64) (\<lambda>sig.
               bind_res (parse_claims L header) (\<lambda>hcs.
               bind_res (parse_claims L payload) (\<lambda>pcs.
                 Inr \<lparr>header_claims = hcs, payload_claims = pcs, get_token = token, get_header = header,
                   get_header_base64 = header_base64, get_payload = payload,
                   get_payload_base64 = payload_base64, get_signature = sig,
                   get_signature_base64 = signature_base64\<rparr>))))))))))"

definition base64url_decode :: "string \<Rightarrow> string res" where
  "base64url_decode str = decode base64url_data base64url_fill (pad base64url_fill str)"

definition decode_token :: "c_double \<Rightarrow> string \<Rightarrow> decoded_jwt res" where
  "decode_token L token = decode_token_with L base64url_decode token"

end
