(* ===== verification/JwtVerify.thy ===== *)
theory JwtVerify
  imports Jwt
begin

text \<open>
  The second half of \<^verbatim>\<open>jwt-cpp/include/jwt-cpp/jwt.h\<close>: the class \<^verbatim>\<open>builder\<close>, namespace
  \<^verbatim>\<open>verify_ops\<close> and the class \<^verbatim>\<open>verifier\<close>.
\<close>

section \<open>builder\<close>

record builder =
  b_header :: claims
  b_payload :: claims

definition new_builder :: builder where
  "new_builder = \<lparr>b_header = [], b_payload = []\<rparr>"

definition set_header_claim :: "string \<Rightarrow> json \<Rightarrow> builder \<Rightarrow> builder" where
  "set_header_claim i c b = b\<lparr>b_header := map_assign i c (b_header b)\<rparr>"

definition set_payload_claim :: "string \<Rightarrow> json \<Rightarrow> builder \<Rightarrow> builder" where
  "set_payload_claim i c b = b\<lparr>b_payload := map_assign i c (b_payload b)\<rparr>"

definition set_algorithm :: "string \<Rightarrow> builder \<Rightarrow> builder" where
  "set_algorithm str = set_header_claim ''alg'' (JString str)"
definition set_type :: "string \<Rightarrow> builder \<Rightarrow> builder" where
  "set_type str = set_header_claim ''typ'' (JString str)"
definition set_content_type :: "string \<Rightarrow> builder \<Rightarrow> builder" where
  "set_content_type str = set_header_claim ''cty'' (JString str)"
definition set_key_id :: "string \<Rightarrow> builder \<Rightarrow> builder" where
  "set_key_id str = set_header_claim ''kid'' (JString str)"
definition set_issuer :: "string \<Rightarrow> builder \<Rightarrow> builder" where
  "set_issuer str = set_payload_claim ''iss'' (JString str)"
definition set_subject :: "string \<Rightarrow> builder \<Rightarrow> builder" where
  "set_subject str = set_payload_claim ''sub'' (JString str)"
definition set_audiences :: "json list \<Rightarrow> builder \<Rightarrow> builder" where
  "set_audiences a = set_payload_claim ''aud'' (JArray a)"
definition set_audience :: "string \<Rightarrow> builder \<Rightarrow> builder" where
  "set_audience aud = set_payload_claim ''aud'' (JString aud)"
definition set_expires_at :: "int \<Rightarrow> int \<Rightarrow> builder \<Rightarrow> builder" where
  "set_expires_at rate d = set_payload_claim ''exp'' (claim_of_date rate d)"
definition set_not_before :: "int \<Rightarrow> int \<Rightarrow> builder \<Rightarrow> builder" where
  "set_not_before rate d = set_payload_claim ''nbf'' (claim_of_date rate d)"
definition set_issued_at :: "int \<Rightarrow> int \<Rightarrow> builder \<Rightarrow> builder" where
  "set_issued_at rate d = set_payload_claim ''iat'' (claim_of_date rate d)"
definition set_id :: "string \<Rightarrow> builder \<Rightarrow> builder" where
  "set_id str = set_payload_claim ''jti'' (JString str)"

definition signed_header :: "algorithm \<Rightarrow> builder \<Rightarrow> claims" where
  "signed_header algo b =
     (if map_find (b_header b) ''alg'' = None
      then map_assign ''alg'' (JString (alg_name algo)) (b_header b) else b_header b)"

definition sign_with ::
  "jwt_lib \<Rightarrow> (string \<Rightarrow> string) \<Rightarrow> algorithm \<Rightarrow> builder \<Rightarrow> (string \<times> error_code) res" where
  "sign_with M enc algo b =
     (let header = enc (traits_serialize (num M) (JObject (signed_header algo b)));
          payload = enc (traits_serialize (num M) (JObject (b_payload b)));
          token = header @ ''.'' @ payload
      in bind_res (alg_sign (ssl M) algo token) (\<lambda>(sig, ec).
           if is_error ec then Inr ([], ec) else Inr (token @ ''.'' @ enc sig, ec)))"

definition base64url_encode :: "string \<Rightarrow> string" where
  "base64url_encode data = trim base64url_fill (encode base64url_data base64url_fill data)"

definition sign_ec :: "jwt_lib \<Rightarrow> algorithm \<Rightarrow> builder \<Rightarrow> (string \<times> error_code) res" where
  "sign_ec M algo b = sign_with M base64url_encode algo b"

definition sign :: "jwt_lib \<Rightarrow> algorithm \<Rightarrow> builder \<Rightarrow> string res" where
  "sign M algo b = throwing (sign_ec M algo b)"

section \<open>verify_ops\<close>

record verify_context =
  current_time :: int
  ctx_jwt :: decoded_jwt
  ctx_leeway :: nat
  claim_key :: string

definition ctx_get_claim :: "verify_context \<Rightarrow> bool \<Rightarrow> error_code \<Rightarrow> (json \<times> error_code) res" where
  "ctx_get_claim ctx in_header ec =
     (if in_header then
        if \<not> has_header_claim (ctx_jwt ctx) (claim_key ctx) then Inr (JNull, Tok_code Tok_missing_claim)
        else bind_res (get_header_claim (ctx_jwt ctx) (claim_key ctx)) (\<lambda>c. Inr (c, ec))
      else
        if \<not> has_payload_claim (ctx_jwt ctx) (claim_key ctx) then Inr (JNull, Tok_code Tok_missing_claim)
        else bind_res (get_payload_claim (ctx_jwt ctx) (claim_key ctx)) (\<lambda>c. Inr (c, ec)))"

definition ctx_get_typed_claim ::
  "verify_context \<Rightarrow> bool \<Rightarrow> json_type \<Rightarrow> error_code \<Rightarrow> (json \<times> error_code) res" where
  "ctx_get_typed_claim ctx in_header t ec =
     bind_res (ctx_get_claim ctx in_header ec) (\<lambda>(c, ec).
       if is_error ec then Inr (JNull, ec)
       else bind_res (get_type c) (\<lambda>t'.
         if t' \<noteq> t then Inr (JNull, Tok_code Tok_claim_type_missmatch) else Inr (c, ec)))"

text \<open>A check reads the context and the error code, and returns the new code.\<close>

type_synonym check = "verify_context \<Rightarrow> error_code \<Rightarrow> error_code res"

definition claims_match :: "c_double \<Rightarrow> json \<Rightarrow> json \<Rightarrow> bool res" where
  "claims_match L expected jc =
     bind_res (get_type expected) (\<lambda>t. case t of
        Type_boolean \<Rightarrow> bind_res (as_bool expected) (\<lambda>a. bind_res (as_bool jc) (\<lambda>b. Inr (a = b)))
      | Type_integer \<Rightarrow> bind_res (as_int expected) (\<lambda>a. bind_res (as_int jc) (\<lambda>b. Inr (a = b)))
      | Type_number \<Rightarrow> bind_res (as_number L expected) (\<lambda>a. bind_res (as_number L jc) (\<lambda>b. Inr (double_eq L a b)))
      | Type_string \<Rightarrow> bind_res (as_string expected) (\<lambda>a. bind_res (as_string jc) (\<lambda>b. Inr (a = b)))
      | Type_array \<Rightarrow> Inr (traits_serialize L expected = traits_serialize L jc)
      | Type_object \<Rightarrow> Inr (traits_serialize L expected = traits_serialize L jc))"

definition equals_claim :: "c_double \<Rightarrow> bool \<Rightarrow> json \<Rightarrow> check" where
  "equals_claim L in_header expected ctx ec =
     bind_res (get_type expected) (\<lambda>t.
     bind_res (ctx_get_typed_claim ctx in_header t ec) (\<lambda>(jc, ec).
       if is_error ec then Inr ec
       else bind_res (claims_match L expected jc) (\<lambda>matches.
         Inr (if \<not> matches then Tok_code Tok_claim_value_missmatch else ec))))"

definition date_before_claim :: "int \<Rightarrow> bool \<Rightarrow> nat \<Rightarrow> check" where
  "date_before_claim rate in_header leeway ctx ec =
     bind_res (ctx_get_typed_claim ctx in_header Type_integer ec) (\<lambda>(jc, ec).
       if is_error ec then Inr ec
       else bind_res (as_date rate jc) (\<lambda>c. bind_res (plus_seconds rate c leeway) (\<lambda>l.
         Inr (if l < current_time ctx then Tok_code Tok_token_expired else ec))))"

definition date_after_claim :: "int \<Rightarrow> bool \<Rightarrow> nat \<Rightarrow> check" where
  "date_after_claim rate in_header leeway ctx ec =
     bind_res (ctx_get_typed_claim ctx in_header Type_integer ec) (\<lambda>(jc, ec).
       if is_error ec then Inr ec
       else bind_res (as_date rate jc) (\<lambda>c. bind_res (minus_seconds rate c leeway) (\<lambda>l.
         Inr (if current_time ctx < l then Tok_code Tok_token_expired else ec))))"

definition is_subset_claim :: "bool \<Rightarrow> string std_set \<Rightarrow> check" where
  "is_subset_claim in_header expected ctx ec =
     bind_res (ctx_get_claim ctx in_header ec) (\<lambda>(c, ec).
       if is_error ec then Inr ec
       else bind_res (get_type c) (\<lambda>t.
         if t = Type_string then
           bind_res (as_string c) (\<lambda>s.
             Inr (if length expected \<noteq> 1 \<or> hd expected \<noteq> s then Tok_code Tok_audience_missmatch else ec))
         else if t = Type_array then
           bind_res (as_set c) (\<lambda>jc.
             Inr (if list_all (set_member jc) expected then ec else Tok_code Tok_audience_missmatch))
         else Inr (Tok_code Tok_claim_type_missmatch)))"

text \<open>Lower-casing decodes UTF-8 and asks the locale; it is the argument \<open>lower\<close>.\<close>

definition insensitive_string_claim :: "(string \<Rightarrow> string res) \<Rightarrow> bool \<Rightarrow> string \<Rightarrow> check" where
  "insensitive_string_claim lower in_header expected ctx ec =
     bind_res (ctx_get_typed_claim ctx in_header Type_string ec) (\<lambda>(c, ec).
       if is_error ec then Inr ec
       else bind_res (as_string c) (\<lambda>s. bind_res (lower s) (\<lambda>l.
         Inr (if l \<noteq> expected then Tok_code Tok_claim_value_missmatch else ec))))"

section \<open>verifier\<close>

record verifier =
  v_claims :: "(string, check) std_map"
  default_leeway :: nat
  v_algs :: "(string, algorithm) std_map"

definition exp_check :: "int \<Rightarrow> check" where
  "exp_check rate ctx ec =
     (if \<not> has_expires_at (ctx_jwt ctx) then Inr ec
      else bind_res (get_expires_at rate (ctx_jwt ctx)) (\<lambda>e.
        bind_res (plus_seconds rate e (ctx_leeway ctx)) (\<lambda>l.
          Inr (if l < current_time ctx then Tok_code Tok_token_expired else ec))))"

definition iat_check :: "int \<Rightarrow> check" where
  "iat_check rate ctx ec =
     (if \<not> has_issued_at (ctx_jwt ctx) then Inr ec
      else bind_res (get_issued_at rate (ctx_jwt ctx)) (\<lambda>i.
        bind_res (minus_seconds rate i (ctx_leeway ctx)) (\<lambda>l.
          Inr (if current_time ctx < l then Tok_code Tok_token_expired else ec))))"

definition nbf_check :: "int \<Rightarrow> check" where
  "nbf_check rate ctx ec =
     (if \<not> has_not_before (ctx_jwt ctx) then Inr ec
      else bind_res (get_not_before rate (ctx_jwt ctx)) (\<lambda>n.
        bind_res (minus_seconds rate n (ctx_leeway ctx)) (\<lambda>l.
          Inr (if current_time ctx < l then Tok_code Tok_token_expired else ec))))"

definition with_check :: "string \<Rightarrow> check \<Rightarrow> verifier \<Rightarrow> verifier" where
  "with_check name fn v = v\<lparr>v_claims := map_assign name fn (v_claims v)\<rparr>"

definition new_verifier :: "int \<Rightarrow> verifier" where
  "new_verifier rate =
     with_check ''nbf'' (nbf_check rate) (with_check ''iat'' (iat_check rate)
       (with_check ''exp'' (exp_check rate) \<lparr>v_claims = [], default_leeway = 0, v_algs = []\<rparr>))"

definition with_leeway :: "nat \<Rightarrow> verifier \<Rightarrow> verifier" where
  "with_leeway n v = v\<lparr>default_leeway := n\<rparr>"
definition expires_at_leeway :: "int \<Rightarrow> nat \<Rightarrow> verifier \<Rightarrow> verifier" where
  "expires_at_leeway rate n = with_check ''exp'' (date_before_claim rate False n)"
definition not_before_leeway :: "int \<Rightarrow> nat \<Rightarrow> verifier \<Rightarrow> verifier" where
  "not_before_leeway rate n = with_check ''nbf'' (date_after_claim rate False n)"
definition issued_at_leeway :: "int \<Rightarrow> nat \<Rightarrow> verifier \<Rightarrow> verifier" where
  "issued_at_leeway rate n = with_check ''iat'' (date_after_claim rate False n)"

definition with_claim :: "c_double \<Rightarrow> string \<Rightarrow> json \<Rightarrow> verifier \<Rightarrow> verifier" where
  "with_claim L name c = with_check name (equals_claim L False c)"

definition with_type :: "(string \<Rightarrow> string res) \<Rightarrow> string \<Rightarrow> verifier \<Rightarrow> verifier res" where
  "with_type lower type v =
     bind_res (lower type) (\<lambda>e. Inr (with_check ''typ'' (insensitive_string_claim lower True e) v))"

definition with_issuer :: "c_double \<Rightarrow> string \<Rightarrow> verifier \<Rightarrow> verifier" where
  "with_issuer L iss = with_claim L ''iss'' (JString iss)"
definition with_subject :: "c_double \<Rightarrow> string \<Rightarrow> verifier \<Rightarrow> verifier" where
  "with_subject L sub = with_claim L ''sub'' (JString sub)"
definition with_audiences :: "string std_set \<Rightarrow> verifier \<Rightarrow> verifier" where
  "with_audiences aud = with_check ''aud'' (is_subset_claim False aud)"
definition with_audience :: "string \<Rightarrow> verifier \<Rightarrow> verifier" where
  "with_audience aud = with_audiences (set_insert aud [])"
definition with_id :: "c_double \<Rightarrow> string \<Rightarrow> verifier \<Rightarrow> verifier" where
  "with_id L i = with_claim L ''jti'' (JString i)"

definition allow_algorithm :: "algorithm \<Rightarrow> verifier \<Rightarrow> verifier" where
  "allow_algorithm alg v = v\<lparr>v_algs := map_assign (alg_name alg) alg (v_algs v)\<rparr>"

text \<open>The loop over the checks, in the order the \<^verbatim>\<open>std::unordered_map\<close> gives them.\<close>

fun run_checks :: "(string \<times> check) list \<Rightarrow> verify_context \<Rightarrow> error_code \<Rightarrow> error_code res" where
  "run_checks [] ctx ec = Inr ec"
| "run_checks ((k, c) # cs) ctx ec =
     bind_res (c (ctx\<lparr>claim_key := k\<rparr>) ec) (\<lambda>ec.
       if is_error ec then Inr ec else run_checks cs (ctx\<lparr>claim_key := k\<rparr>) ec)"

definition checks_in_order :: "jwt_lib \<Rightarrow> (string, check) std_map \<Rightarrow> (string \<times> check) list" where
  "checks_in_order M cs =
     List.map_filter (\<lambda>k. map_option (Pair k) (map_find cs k)) (iteration M (map fst cs))"

definition verify_ec :: "jwt_lib \<Rightarrow> int \<Rightarrow> verifier \<Rightarrow> decoded_jwt \<Rightarrow> error_code res" where
  "verify_ec M now v jwt =
     (let data = get_header_base64 jwt @ ''.'' @ get_payload_base64 jwt; sig = get_signature jwt
      in bind_res (get_algorithm jwt) (\<lambda>algo.
           case map_find (v_algs v) algo of
             None \<Rightarrow> Inr (Tok_code Tok_wrong_algorithm)
           | Some a \<Rightarrow>
               (let ec = alg_verify (ssl M) a data sig
                in if is_error ec then Inr ec
                   else run_checks (checks_in_order M (v_claims v))
                     \<lparr>current_time = now, ctx_jwt = jwt, ctx_leeway = default_leeway v, claim_key = []\<rparr> ec)))"

definition verify :: "jwt_lib \<Rightarrow> int \<Rightarrow> verifier \<Rightarrow> decoded_jwt \<Rightarrow> unit res" where
  "verify M now v jwt = bind_res (verify_ec M now v jwt) throw_if_error"

end
