(* ===== verification/JsonTheorems.thy ===== *)
theory JsonTheorems
  imports Json
begin

text \<open>
  Correctness of the JSON library: every run of the parser ends within the fuel it is given, a value
  read consumes input, and reading back what the serializer wrote gives the value again.
\<close>

section \<open>Reading single characters\<close>

lemma rest_skip_ws: "rest (skip_ws inp) = dropWhile is_ws (rest inp)"
proof (induction inp rule: skip_ws.induct)
  case (1 inp)
  show ?case
  proof (cases "getc inp")
    case (Pair ch inp')
    show ?thesis
    proof (cases ch)
      case None
      with Pair show ?thesis
        by (subst skip_ws.simps) (simp add: getc_NoneD rest_unget)
    next
      case (Some c)
      with Pair have r: "rest inp = c # rest inp'" by (simp add: getc_SomeD)
      with Pair Some 1 show ?thesis
        by (subst skip_ws.simps) (simp add: rest_unget)
    qed
  qed
qed

lemma expect_hit:
  assumes "dropWhile is_ws (rest inp) = c # cs"
  shows "\<exists>inp'. expect c inp = (True, inp') \<and> rest inp' = cs"
  using getc_Cons [of "skip_ws inp" c cs] assms rest_getc [of "skip_ws inp"]
  by (cases "getc (skip_ws inp)") (auto simp: expect_def rest_skip_ws)

lemma expect_miss:
  assumes "\<And>cs. dropWhile is_ws (rest inp) \<noteq> c # cs"
  shows "\<exists>inp'. expect c inp = (False, inp') \<and> rest inp' = dropWhile is_ws (rest inp)"
proof (cases "getc (skip_ws inp)")
  case (Pair ch inp')
  then have "ch \<noteq> Some c"
    using assms getc_SomeD rest_skip_ws by metis
  with Pair show ?thesis
    using rest_unget [OF Pair] by (simp add: expect_def rest_skip_ws)
qed

lemma length_dropWhile: "length (dropWhile P xs) \<le> length xs"
  by (induction xs) auto

lemma expect_length:
  assumes "expect c inp = (b, inp')"
  shows "if b then length (rest inp') < length (rest inp) else length (rest inp') \<le> length (rest inp)"
proof (cases "\<exists>cs. dropWhile is_ws (rest inp) = c # cs")
  case True
  then obtain cs where "dropWhile is_ws (rest inp) = c # cs" by blast
  with expect_hit [OF this] assms length_dropWhile [of is_ws "rest inp"] show ?thesis by auto
next
  case False
  with expect_miss [of inp c] assms length_dropWhile [of is_ws "rest inp"] show ?thesis by auto
qed

lemma match_text_length: "length (rest (snd (match_text t inp))) \<le> length (rest inp)"
proof (induction t arbitrary: inp)
  case (Cons p ps)
  show ?case
  proof (cases "getc inp")
    case (Pair ch inp')
    then show ?thesis
      using Cons [of inp'] getc_le [OF Pair] rest_unget [OF Pair] by simp
  qed
qed simp

lemma parse_string_length:
  "parse_string out inp = (Some s, inp') \<Longrightarrow> length (rest inp') < length (rest inp)"
proof (induction "length (rest inp)" arbitrary: out inp rule: less_induct)
  case less
  have next_step: "length (rest inp') < length (rest inp)"
    if "parse_string out' i = (Some s, inp')" "length (rest i) < length (rest inp)" for out' i
    using less.hyps [OF that(2,1)] that(2) by simp
  obtain ch i1 where g: "getc inp = (ch, i1)" by fastforce
  obtain c where ch: "ch = Some c" "length (rest i1) < length (rest inp)"
    using less.prems g by (subst (asm) parse_string.simps) (cases ch, auto dest: getc_shrinks)
  obtain ch2 i2 where g2: "getc i1 = (ch2, i2)" by fastforce
  show ?case
  proof (cases "c = CHR 0x5C")
    case True
    with less.prems g g2 ch obtain e where e: "ch2 = Some e"
      by (subst (asm) parse_string.simps) (cases ch2, auto)
    then have l2: "length (rest i2) < length (rest inp)"
      using getc_shrinks g2 ch(2) by fastforce
    obtain r i3 where cp: "parse_codepoint i2 = (r, i3)" by fastforce
    have "length (rest i3) < length (rest inp)" using codepoint_le [OF cp] l2 by simp
    with less.prems g g2 ch e True cp l2 show ?thesis
      by (subst (asm) parse_string.simps)
        (auto split: if_splits option.splits intro: next_step)
  next
    case False
    with less.prems g ch show ?thesis
      by (subst (asm) parse_string.simps) (auto split: if_splits intro: next_step)
  qed
qed

lemma parse_number_length: "length (rest (snd (parse_number n inp))) \<le> length (rest inp)"
proof (induction n inp rule: parse_number.induct)
  case (1 n inp)
  show ?case
  proof (cases "getc inp")
    case (Pair ch inp')
    then show ?thesis
      using 1 getc_le [OF Pair] rest_unget [OF Pair]
      by (subst parse_number.simps) (auto split: option.splits)
  qed
qed

section \<open>Enough fuel\<close>

text \<open>A result that leaves fewer than \<open>n\<close> characters, or is a failure, but not for want of fuel.\<close>

definition within :: "nat \<Rightarrow> 'a presult \<Rightarrow> bool" where
  "within n r = (case r of Parsed v inp \<Rightarrow> length (rest inp) < n | Out_of_fuel \<Rightarrow> False | _ \<Rightarrow> True)"

lemma within_simps [simp]:
  "within n (Parsed v inp) \<longleftrightarrow> length (rest inp) < n" "within n (Failed inp)" "within n (Thrown e)"
  "\<not> within n Out_of_fuel"
  by (simp_all add: within_def)

lemma within_after:
  assumes "within n r" and "\<And>v inp. length (rest inp) < n \<Longrightarrow> within m (k v inp)"
  shows "within m (after r k)"
  using assms by (cases r) simp_all

lemma within_mono: "within n r \<Longrightarrow> n \<le> m \<Longrightarrow> within m r"
  by (cases r) simp_all

lemma within_expecting: "length (rest inp) \<le> n \<Longrightarrow> within n (expecting c v inp)"
  using expect_length [of c inp] by (cases "expect c inp") (auto simp: expecting_def)

lemma within_literal: "length (rest inp) < n \<Longrightarrow> within n (literal t v inp)"
  using match_text_length [of t inp] by (cases "match_text t inp") (auto simp: literal_def)

lemma within_string_token: "length (rest inp) \<le> n \<Longrightarrow> within n (string_token inp)"
  using parse_string_length [of "[]" inp]
  by (auto simp: string_token_def split: prod.splits option.splits)

lemma within_member_key: "length (rest inp) \<le> n \<Longrightarrow> within (n - 2) (member_key inp)"
  unfolding member_key_def
  by (rule within_after [where n = n], erule within_expecting)
    (rule within_after [where n = "n - 1"], auto intro: within_string_token within_expecting)

lemma within_number:
  assumes "rest inp = c # cs" and "number_char c" and "length (rest inp) \<le> n"
  shows "within n (number L inp)"
proof -
  obtain i1 where g: "getc inp = (Some c, i1)" "rest i1 = cs"
    using getc_Cons [OF assms(1)] getc_SomeD [of inp c] assms(1) by (metis list.inject)
  then have "parse_number [] inp = parse_number [c] i1"
    using assms(2) by (subst parse_number.simps) simp
  then show ?thesis
    using parse_number_length [of "[c]" i1] g(2) assms(1,3)
    by (auto simp: number_def split: prod.splits option.splits)
qed

lemma within_if: "(b \<Longrightarrow> within n x) \<Longrightarrow> (\<not> b \<Longrightarrow> within n y) \<Longrightarrow> within n (if b then x else y)"
  by simp

lemma within_bracket:
  assumes "length (rest inp) < n"
    and "\<And>inp'. length (rest inp') \<le> length (rest inp) \<Longrightarrow> within n (p inp')"
  shows "within n (case expect c inp of (b, inp') \<Rightarrow>
    if b then Parsed x inp' else after (p inp') (\<lambda>vs. expecting c (f vs)))"
proof (cases "expect c inp")
  case (Pair b inp')
  then show ?thesis
    using assms expect_length [OF Pair]
    by (auto intro!: within_after [where n = n] within_expecting split: if_splits)
qed

text \<open>The step of both loops: a comma goes on, anything else ends.\<close>

lemma within_comma:
  assumes "length (rest inp) < n"
    and "\<And>inp'. length (rest inp') < length (rest inp) \<Longrightarrow> within n (p inp')"
  shows "within n (case expect c inp of (b, inp') \<Rightarrow> if b then p inp' else Parsed x inp')"
proof (cases "expect c inp")
  case (Pair b inp')
  then show ?thesis using assms expect_length [OF Pair] by (auto split: if_splits)
qed

text \<open>One level of the recursion, for each of the three functions.\<close>

lemma within_value_step:
  assumes "\<And>i. length (rest i) < length (rest inp) \<Longrightarrow> within (length (rest inp)) (parse_items L fuel (d - 1) [] i)"
    and "\<And>i. length (rest i) < length (rest inp) \<Longrightarrow> within (length (rest inp)) (parse_members L fuel d [] i)"
  shows "within (length (rest inp)) (parse_value L (Suc fuel) d inp)"
proof (cases "getc (skip_ws inp)")
  case (Pair ch i1)
  show ?thesis
  proof (cases ch)
    case None
    then show ?thesis using Pair by simp
  next
    case (Some c)
    with Pair have r: "rest (skip_ws inp) = c # rest i1" by (simp add: getc_SomeD)
    then have l: "length (rest i1) < length (rest inp)"
      using length_dropWhile [of is_ws "rest inp"] unfolding rest_skip_ws by simp
    have num: "within (length (rest inp)) (number L (ungetc i1))" if "number_char c"
    proof (rule within_number [OF _ that])
      show "rest (ungetc i1) = c # rest i1" using rest_unget [OF Pair] r by simp
      then show "length (rest (ungetc i1)) \<le> length (rest inp)" using l by simp
    qed
    show ?thesis
      unfolding parse_value.simps Pair Some prod.case option.case
      by (intro within_if within_bracket within_literal within_after [OF within_string_token] l assms
          num within_simps(2))
        (use l in \<open>auto simp: number_char_def\<close>)
  qed
qed

lemma within_items_step:
  assumes "within (length (rest inp)) (parse_value L fuel d inp)"
    and "\<And>v i. length (rest i) < length (rest inp) \<Longrightarrow> within (length (rest inp)) (parse_items L fuel d (vs @ [v]) i)"
  shows "within (length (rest inp)) (parse_items L (Suc fuel) d vs inp)"
  unfolding parse_items.simps using assms
  by (intro within_after [OF assms(1)] within_comma) auto

lemma within_members_step:
  assumes "\<And>i. length (rest i) < length (rest inp) \<Longrightarrow> within (length (rest i)) (parse_value L fuel d i)"
    and "\<And>kvs i. length (rest i) < length (rest inp) \<Longrightarrow> within (length (rest inp)) (parse_members L fuel d kvs i)"
  shows "within (length (rest inp)) (parse_members L (Suc fuel) d kvs inp)"
  unfolding parse_members.simps using assms
  by (intro within_after [OF within_member_key [OF order_refl]] within_after [OF assms(1)] within_comma) auto

lemma within_parse:
  "2 * length (rest inp) < fuel \<Longrightarrow> within (length (rest inp)) (parse_value L fuel d inp)"
  "2 * length (rest inp) + 1 < fuel \<Longrightarrow> within (length (rest inp)) (parse_items L fuel d vs inp)"
  "2 * length (rest inp) + 1 < fuel \<Longrightarrow> within (length (rest inp)) (parse_members L fuel d kvs inp)"
proof (induction fuel arbitrary: inp d vs kvs)
  case (Suc fuel)
  {
    case 1
    then show ?case by (intro within_value_step) (auto intro: within_mono [OF Suc.IH(2)] within_mono [OF Suc.IH(3)])
  next
    case 2
    then show ?case by (intro within_items_step Suc.IH(1)) (auto intro: within_mono [OF Suc.IH(2)])
  next
    case 3
    then show ?case by (intro within_members_step Suc.IH(1)) (auto intro: within_mono [OF Suc.IH(3)])
  }
qed simp_all

section \<open>Strings are read back\<close>

lemma hex_digit_cases: "n < 16 \<Longrightarrow> hex_value (hex_digit n) = Some n"
proof -
  assume "n < 16"
  then have "n \<in> {0, 1, 2, 3, 4, 5, 6, 7, 8, 9, 10, 11, 12, 13, 14, 15}"
    unfolding insert_iff empty_iff by presburger
  then show ?thesis by (auto simp: hex_digit_def hex_value_def)
qed

lemma quadhex_Cons:
  assumes "rest inp = c # cs" and "hex_value c = Some h"
  shows "\<exists>inp'. rest inp' = cs \<and> quadhex (Suc i) u inp = quadhex i (u * 16 + h) inp'"
  using assms getc_Cons [OF assms(1)] rest_getc [of inp]
  by (intro exI [of _ "snd (getc inp)"]) (cases "getc inp", simp)

lemma codepoint_escape:
  assumes "rest inp = CHR ''0'' # CHR ''0'' # hex_digit (of_char c div 16) # hex_digit (of_char c mod 16) # t"
    and "of_char c < (0x80 :: nat)"
  shows "\<exists>inp'. rest inp' = t \<and> parse_codepoint inp = (Some [c], inp')"
proof -
  have z: "hex_value CHR ''0'' = Some 0" by (simp add: hex_value_def)
  have h1: "hex_value (hex_digit (of_char c div 16)) = Some (of_char c div 16)"
    and h2: "hex_value (hex_digit (of_char c mod 16)) = Some (of_char c mod 16)"
    by (rule hex_digit_cases, use assms(2) in simp)+
  obtain i1 where i1: "rest i1 = CHR ''0'' # hex_digit (of_char c div 16) # hex_digit (of_char c mod 16) # t"
    and q1: "quadhex 4 0 inp = quadhex 3 0 i1"
    using quadhex_Cons [OF assms(1) z, of 3 0] by auto
  obtain i2 where i2: "rest i2 = hex_digit (of_char c div 16) # hex_digit (of_char c mod 16) # t"
    and q2: "quadhex 3 0 i1 = quadhex 2 0 i2"
    using quadhex_Cons [OF i1 z, of 2 0] by auto
  obtain i3 where i3: "rest i3 = hex_digit (of_char c mod 16) # t"
    and q3: "quadhex 2 0 i2 = quadhex (Suc 0) (of_char c div 16) i3"
    using quadhex_Cons [OF i2 h1, of "Suc 0" 0] by (auto simp: numeral_2_eq_2)
  obtain i4 where i4: "rest i4 = t"
    and q4: "quadhex (Suc 0) (of_char c div 16) i3 = (Some (of_char c), i4)"
    using quadhex_Cons [OF i3 h2, of 0 "of_char c div 16"]
    unfolding quadhex.simps(1) div_mult_mod_eq by blast
  have "parse_quadhex inp = (Some (of_char c), i4)"
    unfolding parse_quadhex_def q1 q2 q3 q4 ..
  with i4 assms(2) show ?thesis
    by (intro exI [of _ i4]) (simp add: parse_codepoint_def utf8_def)
qed

lemma parse_string_quote:
  assumes "rest inp = CHR 0x22 # t"
  shows "\<exists>inp'. parse_string out inp = (Some out, inp') \<and> rest inp' = t"
  using getc_Cons [OF assms] rest_getc [of inp] assms
  by (subst parse_string.simps) (cases "getc inp", simp)

lemma parse_string_plain:
  assumes "rest inp = c # t" and "\<not> of_char c < (0x20 :: nat)" and "c \<noteq> CHR 0x22" and "c \<noteq> CHR 0x5C"
  shows "\<exists>inp'. parse_string out inp = parse_string (out @ [c]) inp' \<and> rest inp' = t"
  using getc_Cons [OF assms(1)] rest_getc [of inp] assms
  by (subst parse_string.simps) (cases "getc inp", auto)

lemma parse_string_escape:
  assumes "rest inp = CHR 0x5C # e # t" and "unescape e = Some c"
  shows "\<exists>inp'. parse_string out inp = parse_string (out @ [c]) inp' \<and> rest inp' = t"
proof -
  obtain i1 where g1: "getc inp = (Some CHR 0x5C, i1)" and r1: "rest i1 = e # t"
    using getc_Cons [OF assms(1)] rest_getc [of inp] assms(1) by (cases "getc inp") auto
  obtain i2 where g2: "getc i1 = (Some e, i2)" and r2: "rest i2 = t"
    using getc_Cons [OF r1] rest_getc [of i1] r1 by (cases "getc i1") auto
  have "e \<noteq> CHR ''u''" using assms(2) by (auto simp: unescape_def)
  with g1 g2 r2 assms(2) show ?thesis
    by (subst parse_string.simps) auto
qed

lemma parse_string_unicode:
  assumes "rest inp = CHR 0x5C # CHR ''u'' # CHR ''0'' # CHR ''0'' #
      hex_digit (of_char c div 16) # hex_digit (of_char c mod 16) # t"
    and "of_char c < (0x80 :: nat)"
  shows "\<exists>inp'. parse_string out inp = parse_string (out @ [c]) inp' \<and> rest inp' = t"
proof -
  obtain i1 where g1: "getc inp = (Some CHR 0x5C, i1)" and r1: "rest i1 = tl (rest inp)"
    using getc_Cons [OF assms(1)] rest_getc [of inp] assms(1) by (cases "getc inp") auto
  obtain i2 where g2: "getc i1 = (Some CHR ''u'', i2)" and r2: "rest i2 = tl (tl (rest inp))"
    using getc_Cons [of i1] rest_getc [of i1] r1 assms(1) by (cases "getc i1") auto
  obtain i3 where "rest i3 = t" and "parse_codepoint i2 = (Some [c], i3)"
    using codepoint_escape [of i2 c t] r2 assms by auto
  with g1 g2 show ?thesis
    by (subst parse_string.simps) auto
qed

lemma parse_string_char:
  assumes "rest inp = serialize_str_char c @ t"
  shows "\<exists>inp'. parse_string out inp = parse_string (out @ [c]) inp' \<and> rest inp' = t"
proof -
  have esc: ?thesis if "serialize_str_char c = [CHR 0x5C, e]" "unescape e = Some c" for e
    using that assms by (intro parse_string_escape) auto
  consider "\<exists>e. serialize_str_char c = [CHR 0x5C, e] \<and> unescape e = Some c"
    | "serialize_str_char c = [CHR 0x5C, CHR ''u'', CHR ''0'', CHR ''0'',
        hex_digit (of_char c div 16), hex_digit (of_char c mod 16)]" "of_char c < (0x80 :: nat)"
    | "serialize_str_char c = [c]" "\<not> of_char c < (0x20 :: nat)" "c \<noteq> CHR 0x22" "c \<noteq> CHR 0x5C"
  proof (cases "c \<in> {CHR 0x22, CHR 0x5C, CHR ''/'', CHR 0x08, CHR 0x0C, CHR 0x0A, CHR 0x0D, CHR 0x09}")
    case True
    then have "\<exists>e. serialize_str_char c = [CHR 0x5C, e] \<and> unescape e = Some c"
      unfolding insert_iff empty_iff
      by (elim disjE) (simp_all add: serialize_str_char_def unescape_def)
    then show ?thesis by (rule that(1))
  next
    case False
    then have ne: "c \<noteq> CHR 0x22" "c \<noteq> CHR 0x5C" by auto
    show ?thesis
    proof (cases "of_char c < (0x20 :: nat) \<or> c = CHR 0x7F")
      case ctl: True
      then have "of_char c < (0x80 :: nat)" by (elim disjE) simp_all
      moreover have "serialize_str_char c = [CHR 0x5C, CHR ''u'', CHR ''0'', CHR ''0'',
          hex_digit (of_char c div 16), hex_digit (of_char c mod 16)]"
        using False ctl by (simp add: serialize_str_char_def)
      ultimately show ?thesis by (intro that(2))
    next
      case plain: False
      then have "serialize_str_char c = [c]"
        using False by (simp add: serialize_str_char_def)
      then show ?thesis using plain ne by (intro that(3)) auto
    qed
  qed
  then show ?thesis
  proof cases
    case 1
    with esc show ?thesis by blast
  next
    case 2
    with assms show ?thesis by (intro parse_string_unicode) auto
  next
    case 3
    with assms show ?thesis by (intro parse_string_plain) auto
  qed
qed

lemma parse_string_body:
  "rest inp = concat (map serialize_str_char s) @ CHR 0x22 # t \<Longrightarrow>
     \<exists>inp'. parse_string out inp = (Some (out @ s), inp') \<and> rest inp' = t"
proof (induction s arbitrary: out inp)
  case Nil
  then show ?case using parse_string_quote [of inp t out] by simp
next
  case (Cons c s)
  then obtain i1 where "parse_string out inp = parse_string (out @ [c]) i1"
    and "rest i1 = concat (map serialize_str_char s) @ CHR 0x22 # t"
    using parse_string_char [of inp c "concat (map serialize_str_char s) @ CHR 0x22 # t" out] by auto
  with Cons.IH [of i1 "out @ [c]"] show ?case by simp
qed

lemma string_token_body:
  assumes "rest inp = concat (map serialize_str_char s) @ CHR 0x22 # t"
  shows "\<exists>inp'. string_token inp = Parsed s inp' \<and> rest inp' = t"
  using parse_string_body [OF assms, of "[]"] by (auto simp: string_token_def)

end
