(* ===== verification/JsonRoundTrip.thy ===== *)
theory JsonRoundTrip
  imports JsonTheorems
begin

text \<open>
  Reading back what the serializer wrote: numbers, arrays and objects, compact or indented, and the
  properties of \<open>parse_text\<close>. A value that comes back is one without a floating-point number (their
  text is the C library's), with integers of 64 bits, keys in the order of \<^verbatim>\<open>std::map\<close>, and arrays
  nested no deeper than the parser's limit; objects do not count towards that limit.
\<close>

section \<open>Numbers\<close>

text \<open>A number ends where a character comes that cannot belong to one.\<close>

definition ends_number :: "string \<Rightarrow> bool" where
  "ends_number t = (case t of [] \<Rightarrow> True | c # _ \<Rightarrow> \<not> number_char c)"

lemma parse_number_all:
  "rest inp = ds @ t \<Longrightarrow> list_all number_char ds \<Longrightarrow> ends_number t \<Longrightarrow>
     \<exists>inp'. parse_number acc inp = (acc @ ds, inp') \<and> rest inp' = t"
proof (induction ds arbitrary: acc inp)
  case Nil
  then show ?case
    using getc_Nil [of inp] getc_Cons [of inp] rest_ungetc [of inp]
    by (subst parse_number.simps) (cases "getc inp"; cases t; fastforce simp: ends_number_def)
next
  case (Cons d ds)
  obtain i1 where g: "getc inp = (Some d, i1)" and r: "rest i1 = ds @ t"
    using getc_Cons [of inp d "ds @ t"] rest_getc [of inp] Cons.prems(1) by (cases "getc inp") auto
  have "parse_number acc inp = parse_number (acc @ [d]) i1"
    using g Cons.prems(2) by (subst parse_number.simps) simp
  moreover have "\<exists>inp'. parse_number (acc @ [d]) i1 = ((acc @ [d]) @ ds, inp') \<and> rest inp' = t"
    using Cons.prems by (intro Cons.IH [OF r]) auto
  ultimately show ?case by simp
qed

lemma number_char_digit: "is_digit c \<Longrightarrow> number_char c"
  by (simp add: number_char_def)

lemma to_string_number: "list_all number_char (to_string i)"
  using show_nat_digits number_char_digit
  by (auto simp: to_string_def list_all_iff) (simp add: number_char_def)

lemma strtoimax_to_string:
  assumes "int64_min \<le> i" and "i \<le> int64_max"
  shows "strtoimax_all (to_string i) = Some i"
proof (cases "i < 0")
  case True
  then show ?thesis
    using assms show_nat_digits [of "nat (- i)"]
    by (simp add: to_string_def strtoimax_all_def list_all_iff)
next
  case False
  obtain c cs where s: "show_nat (nat i) = c # cs" "is_digit c" by (rule show_nat_split)
  then have "split_sign (show_nat (nat i)) = (False, show_nat (nat i))"
    using is_digit_not_sign [of c] by simp
  with False show ?thesis
    using assms show_nat_digits [of "nat i"]
    by (simp add: to_string_def strtoimax_all_def list_all_iff)
qed

lemma number_to_string:
  assumes "rest inp = to_string i @ t" and "ends_number t" and "int64_min \<le> i" and "i \<le> int64_max"
  shows "\<exists>inp'. number L inp = Parsed (JInt i) inp' \<and> rest inp' = t"
  using parse_number_all [OF assms(1) to_string_number assms(2), of "[]"] strtoimax_to_string [OF assms(3,4)]
  by (auto simp: number_def)

section \<open>White space\<close>

definition blank :: "string \<Rightarrow> bool" where
  "blank s = list_all is_ws s"

lemma blank_simps [simp]:
  "blank []" "blank (indent_line i)" "blank (final_newline i)" "blank (close_indent i b)"
  "blank ('' '')" "blank (s @ t) \<longleftrightarrow> blank s \<and> blank t"
  by (auto simp: blank_def indent_line_def final_newline_def close_indent_def is_ws_def list_all_iff)

lemma dropWhile_blank: "blank s \<Longrightarrow> dropWhile is_ws (s @ t) = dropWhile is_ws t"
  by (induction s) (auto simp: blank_def)

lemma dropWhile_blank_Cons: "blank s \<Longrightarrow> \<not> is_ws c \<Longrightarrow> dropWhile is_ws (s @ c # t) = c # t"
  by (simp add: dropWhile_blank)

lemma ends_number_blank: "blank s \<Longrightarrow> ends_number t \<Longrightarrow> ends_number (s @ t)"
  by (cases s) (auto simp: ends_number_def blank_def number_char_def is_ws_def is_digit_def)

lemma expect_blank:
  assumes "rest inp = s @ c # t" and "blank s" and "\<not> is_ws c"
  shows "\<exists>inp'. expect c inp = (True, inp') \<and> rest inp' = t"
  using assms by (intro expect_hit) (simp add: dropWhile_blank_Cons)

lemma expect_other:
  assumes "rest inp = s @ c # t" and "blank s" and "\<not> is_ws c" and "c \<noteq> e"
  shows "\<exists>inp'. expect e inp = (False, inp') \<and> rest inp' = c # t"
  using expect_miss [of inp e] assms by (auto simp: dropWhile_blank_Cons)

lemma value_start:
  assumes "rest inp = s @ c # t" and "blank s" and "\<not> is_ws c"
  shows "\<exists>inp'. getc (skip_ws inp) = (Some c, inp') \<and> rest inp' = t \<and> rest (ungetc inp') = c # t"
proof -
  have r: "rest (skip_ws inp) = c # t"
    using assms by (simp add: rest_skip_ws dropWhile_blank_Cons)
  then obtain i where i: "getc (skip_ws inp) = (Some c, i)"
    using getc_Cons [OF r] by blast
  then show ?thesis
    using r rest_unget [OF i] getc_SomeD [OF i] by simp
qed

section \<open>Arrays and objects\<close>

text \<open>A double whose text is read back: it begins like a number, has only characters of numbers in it, is not the
  text of an integer, and \<^verbatim>\<open>strtod\<close> takes all of it for this double.\<close>

definition reads_number :: "c_double \<Rightarrow> double \<Rightarrow> bool" where
  "reads_number L f \<longleftrightarrow>
     (let s = to_str L (JNumber f)
      in s \<noteq> [] \<and> (is_digit (hd s) \<or> hd s = CHR ''-'') \<and> list_all number_char s \<and>
         strtoimax_all s = None \<and> strtod L s = (f, length s) \<and> \<not> nan_or_inf f)"

fun storable :: "c_double \<Rightarrow> nat \<Rightarrow> json \<Rightarrow> bool" where
  "storable L d (JInt i) \<longleftrightarrow> int64_min \<le> i \<and> i \<le> int64_max"
| "storable L d (JNumber f) \<longleftrightarrow> reads_number L f"
| "storable L d (JArray vs) \<longleftrightarrow> 0 < d \<and> list_all (storable L (d - 1)) vs"
| "storable L d (JObject kvs) \<longleftrightarrow> 0 < d \<and> map_sorted kvs \<and> list_all (\<lambda>kv. storable L d (snd kv)) kvs"
| "storable L d v \<longleftrightarrow> True"

definition reads_back :: "c_double \<Rightarrow> json \<Rightarrow> bool" where
  "reads_back L v \<longleftrightarrow>
     (\<forall>ind ws t d fuel inp. storable L d v \<and> blank ws \<and> ends_number t \<and>
        rest inp = ws @ serialize_value L ind v @ t \<and> 2 * length (rest inp) < fuel \<longrightarrow>
        (\<exists>inp'. parse_value L fuel d inp = Parsed v inp' \<and> rest inp' = final_newline ind @ t))"

lemma reads_backD:
  assumes "reads_back L v" and "storable L d v" and "blank ws" and "ends_number t"
    and "rest inp = ws @ serialize_value L ind v @ t" and "2 * length (rest inp) < fuel"
  shows "\<exists>inp'. parse_value L fuel d inp = Parsed v inp' \<and> rest inp' = final_newline ind @ t"
  using assms unfolding reads_back_def by blast

definition line_start :: "int \<Rightarrow> string" where
  "line_start ind = (if ind \<noteq> - 1 then indent_line ind else [])"

lemma blank_line_start [simp]: "blank (line_start ind)"
  by (simp add: line_start_def)

text \<open>The text of the elements without the white space before the first.\<close>

fun items_text :: "c_double \<Rightarrow> int \<Rightarrow> json list \<Rightarrow> string" where
  "items_text L ind [] = []"
| "items_text L ind (v # vs) = serialize_value L ind v @
     (if vs = [] then [] else CHR '','' # line_start ind @ items_text L ind vs)"

fun members_text :: "c_double \<Rightarrow> int \<Rightarrow> (string \<times> json) list \<Rightarrow> string" where
  "members_text L ind [] = []"
| "members_text L ind ((k, v) # kvs) = serialize_str k @ CHR '':'' #
     (if ind \<noteq> - 1 then '' '' else []) @ serialize_value L ind v @
     (if kvs = [] then [] else CHR '','' # line_start ind @ members_text L ind kvs)"

lemma serialize_items_text:
  "vs \<noteq> [] \<Longrightarrow> serialize_items L ind b vs = (if b then [] else '','') @ line_start ind @ items_text L ind vs"
  by (induction vs arbitrary: b) (auto simp: line_start_def)

lemma serialize_members_text:
  "kvs \<noteq> [] \<Longrightarrow>
     serialize_members L ind b kvs = (if b then [] else '','') @ line_start ind @ members_text L ind kvs"
  by (induction kvs arbitrary: b) (auto simp: line_start_def)

lemma ends_number_Cons [simp]: "ends_number (c # t) \<longleftrightarrow> \<not> number_char c"
  by (simp add: ends_number_def)

lemma number_char_puncts [simp]:
  "\<not> number_char CHR '',''" "\<not> number_char CHR '']''" "\<not> number_char CHR ''}''"
  by (simp_all add: number_char_def is_digit_def)

lemma is_ws_puncts [simp]:
  "\<not> is_ws CHR '',''" "\<not> is_ws CHR '']''" "\<not> is_ws CHR ''}''" "\<not> is_ws CHR ''[''" "\<not> is_ws CHR ''{''"
  "\<not> is_ws CHR '':''" "\<not> is_ws CHR 0x22"
  by (simp_all add: is_ws_def)

lemma items_read_back:
  "\<forall>v \<in> set vs. reads_back L v \<and> storable L d v \<Longrightarrow> vs \<noteq> [] \<Longrightarrow> blank ws \<and> blank ws0 \<Longrightarrow>
   rest inp = ws0 @ items_text L ind vs @ ws @ CHR '']'' # t \<Longrightarrow> 2 * length (rest inp) + 1 < fuel \<Longrightarrow>
   \<exists>inp'. parse_items L fuel d acc inp = Parsed (acc @ vs) inp' \<and> rest inp' = CHR '']'' # t"
proof (induction vs arbitrary: inp fuel acc ws0)
  case (Cons v vs)
  define u where "u = (if vs = [] then ws @ CHR '']'' # t
    else CHR '','' # line_start ind @ items_text L ind vs @ ws @ CHR '']'' # t)"
  have r: "rest inp = ws0 @ serialize_value L ind v @ u"
    using Cons.prems(4) by (simp add: u_def)
  have u: "ends_number u"
    using Cons.prems(3) by (simp add: u_def ends_number_blank)
  obtain f where f: "fuel = Suc f" using Cons.prems(5) by (cases fuel) auto
  obtain i1 where p1: "parse_value L f d inp = Parsed v i1" and r1: "rest i1 = final_newline ind @ u"
    using reads_backD [OF _ _ _ u r, of d f] Cons.prems(1,3,5) f by auto
  show ?case
  proof (cases "vs = []")
    case True
    with r1 obtain i2 where "expect CHR '','' i1 = (False, i2)" "rest i2 = CHR '']'' # t"
      using expect_other [of i1 "final_newline ind @ ws" "CHR '']''" t "CHR '',''"] Cons.prems(3)
      by (auto simp: u_def)
    with p1 f True show ?thesis by simp
  next
    case False
    with r1 obtain i2 where e: "expect CHR '','' i1 = (True, i2)"
      and r2: "rest i2 = line_start ind @ items_text L ind vs @ ws @ CHR '']'' # t"
      using expect_blank [of i1 "final_newline ind" "CHR '',''"] by (auto simp: u_def)
    have "2 * length (rest i2) + 1 < f"
      using Cons.prems(5) f False unfolding r r2 u_def by simp
    then obtain i3 where "parse_items L f d (acc @ [v]) i2 = Parsed ((acc @ [v]) @ vs) i3"
      and "rest i3 = CHR '']'' # t"
      using Cons.IH [OF _ False _ r2, of f "acc @ [v]"] Cons.prems(1,3) by auto
    with p1 f e show ?thesis by simp
  qed
qed simp

lemma map_assign_last: "\<forall>x \<in> fst ` set m. x < k \<Longrightarrow> map_assign k v m = m @ [(k, v)]"
  by (induction k v m rule: map_assign.induct) auto

lemma map_sorted_snoc: "map_sorted (acc @ (k, v) # kvs) \<Longrightarrow> \<forall>x \<in> fst ` set acc. x < k"
  by (auto simp: map_sorted_def sorted_wrt_append)

lemma member_key_reads:
  assumes "rest inp = ws @ serialize_str k @ CHR '':'' # t" and "blank ws"
  shows "\<exists>inp'. member_key inp = Parsed k inp' \<and> rest inp' = t"
proof -
  obtain i1 where e1: "expect CHR 0x22 inp = (True, i1)"
    and r1: "rest i1 = concat (map serialize_str_char k) @ CHR 0x22 # CHR '':'' # t"
    using expect_blank [of inp ws "CHR 0x22"] assms by (auto simp: serialize_str_def)
  obtain i2 where s: "string_token i1 = Parsed k i2" and r2: "rest i2 = CHR '':'' # t"
    using string_token_body [OF r1] by blast
  obtain i3 where "expect CHR '':'' i2 = (True, i3)" and "rest i3 = t"
    using expect_blank [of i2 "[]" "CHR '':''"] r2 by auto
  with e1 s show ?thesis by (simp add: member_key_def expecting_def)
qed

lemma members_read_back:
  "\<forall>kv \<in> set kvs. reads_back L (snd kv) \<and> storable L d (snd kv) \<Longrightarrow> kvs \<noteq> [] \<Longrightarrow>
   blank ws \<and> blank ws0 \<Longrightarrow> map_sorted (acc @ kvs) \<Longrightarrow>
   rest inp = ws0 @ members_text L ind kvs @ ws @ CHR ''}'' # t \<Longrightarrow> 2 * length (rest inp) + 1 < fuel \<Longrightarrow>
   \<exists>inp'. parse_members L fuel d acc inp = Parsed (acc @ kvs) inp' \<and> rest inp' = CHR ''}'' # t"
proof (induction kvs arbitrary: inp fuel acc ws0)
  case (Cons kv kvs)
  obtain k v where kv: "kv = (k, v)" by fastforce
  define sp where "sp = (if ind \<noteq> - 1 then '' '' else [])"
  have sp: "blank sp" by (simp add: sp_def)
  define u where "u = (if kvs = [] then ws @ CHR ''}'' # t
    else CHR '','' # line_start ind @ members_text L ind kvs @ ws @ CHR ''}'' # t)"
  have r: "rest inp = ws0 @ serialize_str k @ CHR '':'' # sp @ serialize_value L ind v @ u"
    using Cons.prems(5) by (simp add: kv u_def sp_def)
  have u: "ends_number u"
    using Cons.prems(3) by (simp add: u_def ends_number_blank)
  obtain f where f: "fuel = Suc f" using Cons.prems(6) by (cases fuel) auto
  obtain i0 where k: "member_key inp = Parsed k i0" and r0: "rest i0 = sp @ serialize_value L ind v @ u"
    using member_key_reads [OF r] Cons.prems(3) by blast
  have l0: "2 * length (rest i0) < f"
    using Cons.prems(6) f unfolding r r0 by simp
  have v: "reads_back L v" "storable L d v" using Cons.prems(1) kv by auto
  obtain i1 where p1: "parse_value L f d i0 = Parsed v i1" and r1: "rest i1 = final_newline ind @ u"
    using reads_backD [OF v sp u r0 l0] by blast
  have "map_sorted (acc @ (k, v) # kvs)" using Cons.prems(4) kv by simp
  then have asg: "map_assign k v acc = acc @ [(k, v)]"
    by (rule map_assign_last [OF map_sorted_snoc])
  show ?case
  proof (cases "kvs = []")
    case True
    with r1 obtain i2 where "expect CHR '','' i1 = (False, i2)" "rest i2 = CHR ''}'' # t"
      using expect_other [of i1 "final_newline ind @ ws" "CHR ''}''" t "CHR '',''"] Cons.prems(3)
      by (auto simp: u_def)
    with k p1 f True show ?thesis by (simp add: asg kv)
  next
    case False
    with r1 obtain i2 where e: "expect CHR '','' i1 = (True, i2)"
      and r2: "rest i2 = line_start ind @ members_text L ind kvs @ ws @ CHR ''}'' # t"
      using expect_blank [of i1 "final_newline ind" "CHR '',''"] by (auto simp: u_def)
    have "2 * length (rest i2) + 1 < f"
      using Cons.prems(6) f False unfolding r r2 u_def by simp
    then obtain i3 where "parse_members L f d (acc @ [(k, v)]) i2 = Parsed ((acc @ [(k, v)]) @ kvs) i3"
      and "rest i3 = CHR ''}'' # t"
      using Cons.IH [OF _ False _ _ r2, of "acc @ [(k, v)]" f] Cons.prems(1,3,4) kv by auto
    with k p1 f e show ?thesis by (simp add: asg kv)
  qed
qed simp

section \<open>The round trip\<close>

lemma match_text_hit:
  "rest inp = w @ t \<Longrightarrow> \<exists>inp'. match_text w inp = (True, inp') \<and> rest inp' = t"
proof (induction w arbitrary: inp)
  case (Cons p ps)
  then obtain i1 where "getc inp = (Some p, i1)" "rest i1 = ps @ t"
    using getc_Cons [of inp p "ps @ t"] rest_getc [of inp] by (cases "getc inp") auto
  with Cons.IH [of i1] show ?case by simp
qed simp

lemma literal_hit: "rest inp = w @ t \<Longrightarrow> \<exists>inp'. literal w v inp = Parsed v inp' \<and> rest inp' = t"
  using match_text_hit [of inp w t] by (auto simp: literal_def)

lemma value_reads:
  assumes "rest inp = ws @ c # u" and "blank ws" and "\<not> is_ws c" and "2 * length (rest inp) < fuel"
  shows "\<exists>i1 f. fuel = Suc f \<and> 2 * length u + 1 < f \<and> getc (skip_ws inp) = (Some c, i1) \<and> rest i1 = u \<and>
    rest (ungetc i1) = c # u"
  using value_start [OF assms(1-3)] assms(1,4) by (cases fuel) auto

lemma value_first:
  assumes "storable L d v"
  shows "\<exists>c cs. serialize_value L ind v = c # cs \<and> \<not> is_ws c \<and> c \<noteq> CHR '']''"
proof -
  have "\<exists>c cs. to_string i = c # cs \<and> \<not> is_ws c \<and> c \<noteq> CHR '']''" for i
  proof -
    obtain c cs where "to_string i = c # cs" by (cases "to_string i") auto
    moreover from this have "number_char c" using to_string_number [of i] by simp
    ultimately show ?thesis by (auto simp: number_char_def is_ws_def is_digit_def)
  qed
  then have num: "\<exists>c cs. to_string i @ t = c # cs \<and> \<not> is_ws c \<and> c \<noteq> CHR '']''" for i t
    by (metis append_Cons)
  show ?thesis
  proof (cases v)
    case (JInt i)
    then show ?thesis using num by simp
  next
    case (JBool b)
    then show ?thesis by (cases b) (simp_all add: is_ws_def)
  next
    case (JNumber f)
    then show ?thesis
      using assms by (cases "to_str L (JNumber f)") (auto simp: reads_number_def Let_def is_ws_def is_digit_def simp del: to_str.simps)
  qed (use assms in \<open>simp_all add: serialize_str_def is_ws_def\<close>)
qed

lemma bracket_miss:
  assumes "rest inp = ws @ X" and "blank ws" and "X = c # cs" and "\<not> is_ws c" and "c \<noteq> e"
  shows "\<exists>inp'. expect e inp = (False, inp') \<and> rest inp' = X"
  using expect_other [of inp ws c cs e] assms by simp

lemma array_reads_back:
  assumes "\<And>v. v \<in> set vs \<Longrightarrow> reads_back L v"
  shows "reads_back L (JArray vs)"
  unfolding reads_back_def
proof (intro allI impI, elim conjE)
  fix ind ws t d fuel inp
  assume st: "storable L d (JArray vs)" and ws: "blank ws" and fuel: "2 * length (rest inp) < fuel"
    and r: "rest inp = ws @ serialize_value L ind (JArray vs) @ t"
  let ?in = "inner_indent ind" and ?t = "final_newline ind @ t"
  let ?body = "serialize_items L ?in True vs @ close_indent ind (vs = []) @ CHR '']'' # ?t"
  have r': "rest inp = ws @ CHR ''['' # ?body" using r by simp
  obtain i1 f where f: "fuel = Suc f" "2 * length ?body + 1 < f"
    and g: "getc (skip_ws inp) = (Some CHR ''['', i1)" and r1: "rest i1 = ?body"
    using value_reads [OF r' ws is_ws_puncts(4) fuel] by blast
  show "\<exists>inp'. parse_value L fuel d inp = Parsed (JArray vs) inp' \<and> rest inp' = ?t"
  proof (cases vs)
    case Nil
    then have "rest i1 = CHR '']'' # ?t" using r1 by (simp add: close_indent_def)
    then obtain i2 where "expect CHR '']'' i1 = (True, i2)" "rest i2 = ?t"
      using expect_blank [of i1 "[]" "CHR '']''"] by auto
    then show ?thesis using f g st Nil by simp
  next
    case (Cons v vs')
    let ?X = "items_text L ?in vs @ close_indent ind (vs = []) @ CHR '']'' # ?t"
    have X: "rest i1 = line_start ?in @ ?X"
      using Cons unfolding r1 by (subst serialize_items_text) simp_all
    obtain c cs where "serialize_value L ?in v = c # cs" "\<not> is_ws c" "c \<noteq> CHR '']''"
      using value_first [of L "d - 1" v ?in] st Cons by auto
    then obtain i2 where e: "expect CHR '']'' i1 = (False, i2)" and r2: "rest i2 = [] @ ?X"
      using bracket_miss [OF X blank_line_start, of c _ "CHR '']''"] Cons by auto
    have "2 * length (rest i2) + 1 < f" using f(2) unfolding r1 [symmetric] X r2 by simp
    then obtain i3 where "parse_items L f (d - 1) [] i2 = Parsed ([] @ vs) i3" and r3: "rest i3 = CHR '']'' # ?t"
      using items_read_back [OF _ _ _ r2, of "d - 1" f "[]"] st assms Cons by (auto simp: list_all_iff)
    moreover obtain i4 where "expect CHR '']'' i3 = (True, i4)" "rest i4 = ?t"
      using expect_blank [of i3 "[]" "CHR '']''"] r3 by auto
    ultimately show ?thesis using f(1) g e st by (simp add: expecting_def)
  qed
qed

lemma object_reads_back:
  assumes "\<And>kv. kv \<in> set kvs \<Longrightarrow> reads_back L (snd kv)"
  shows "reads_back L (JObject kvs)"
  unfolding reads_back_def
proof (intro allI impI, elim conjE)
  fix ind ws t d fuel inp
  assume st: "storable L d (JObject kvs)" and ws: "blank ws" and fuel: "2 * length (rest inp) < fuel"
    and r: "rest inp = ws @ serialize_value L ind (JObject kvs) @ t"
  let ?in = "inner_indent ind" and ?t = "final_newline ind @ t"
  let ?body = "serialize_members L ?in True kvs @ close_indent ind (kvs = []) @ CHR ''}'' # ?t"
  have r': "rest inp = ws @ CHR ''{'' # ?body" using r by simp
  obtain i1 f where f: "fuel = Suc f" "2 * length ?body + 1 < f"
    and g: "getc (skip_ws inp) = (Some CHR ''{'', i1)" and r1: "rest i1 = ?body"
    using value_reads [OF r' ws is_ws_puncts(5) fuel] by blast
  show "\<exists>inp'. parse_value L fuel d inp = Parsed (JObject kvs) inp' \<and> rest inp' = ?t"
  proof (cases kvs)
    case Nil
    then have "rest i1 = CHR ''}'' # ?t" using r1 by (simp add: close_indent_def)
    then obtain i2 where "expect CHR ''}'' i1 = (True, i2)" "rest i2 = ?t"
      using expect_blank [of i1 "[]" "CHR ''}''"] by auto
    then show ?thesis using f g st Nil by simp
  next
    case (Cons kv kvs')
    let ?X = "members_text L ?in kvs @ close_indent ind (kvs = []) @ CHR ''}'' # ?t"
    have X: "rest i1 = line_start ?in @ ?X"
      using Cons unfolding r1 by (subst serialize_members_text) simp_all
    obtain i2 where e: "expect CHR ''}'' i1 = (False, i2)" and r2: "rest i2 = [] @ ?X"
      using bracket_miss [OF X blank_line_start, of "CHR 0x22" _ "CHR ''}''"] Cons
      by (cases kv) (auto simp: serialize_str_def)
    have "2 * length (rest i2) + 1 < f" using f(2) unfolding r1 [symmetric] X r2 by simp
    then obtain i3 where "parse_members L f d [] i2 = Parsed ([] @ kvs) i3" and r3: "rest i3 = CHR ''}'' # ?t"
      using members_read_back [OF _ _ _ _ r2, of d "[]" f] st assms Cons by (auto simp: list_all_iff)
    moreover obtain i4 where "expect CHR ''}'' i3 = (True, i4)" "rest i4 = ?t"
      using expect_blank [of i3 "[]" "CHR ''}''"] r3 by auto
    ultimately show ?thesis using f(1) g e st by (simp add: expecting_def)
  qed
qed

lemma literals_read_back:
  assumes "\<not> is_ws c"
    and "\<And>ind. serialize_value L ind v = c # w @ final_newline ind"
    and "\<And>f d inp i1. getc (skip_ws inp) = (Some c, i1) \<Longrightarrow> parse_value L (Suc f) d inp = literal w v i1"
  shows "reads_back L v"
  unfolding reads_back_def
proof (intro allI impI, elim conjE)
  fix ind ws t d fuel inp
  assume ws: "blank ws" and fuel: "2 * length (rest inp) < fuel"
    and r: "rest inp = ws @ serialize_value L ind v @ t"
  let ?u = "w @ final_newline ind @ t"
  have r': "rest inp = ws @ c # ?u" using r assms(2) by simp
  obtain i1 f where f: "fuel = Suc f" and g: "getc (skip_ws inp) = (Some c, i1)" and r1: "rest i1 = ?u"
    using value_reads [OF r' ws assms(1) fuel] by blast
  obtain i2 where "literal w v i1 = Parsed v i2" "rest i2 = final_newline ind @ t"
    using literal_hit [OF r1] by blast
  then show "\<exists>inp'. parse_value L fuel d inp = Parsed v inp' \<and> rest inp' = final_newline ind @ t"
    using assms(3) [OF g] f by simp
qed

lemma string_reads_back: "reads_back L (JString s)"
  unfolding reads_back_def
proof (intro allI impI, elim conjE)
  fix ind ws t d fuel inp
  assume ws: "blank ws" and fuel: "2 * length (rest inp) < fuel"
    and r: "rest inp = ws @ serialize_value L ind (JString s) @ t"
  let ?u = "concat (map serialize_str_char s) @ CHR 0x22 # final_newline ind @ t"
  have r': "rest inp = ws @ CHR 0x22 # ?u" using r by (simp add: serialize_str_def)
  obtain i1 f where f: "fuel = Suc f" and g: "getc (skip_ws inp) = (Some CHR 0x22, i1)" and r1: "rest i1 = ?u"
    using value_reads [OF r' ws is_ws_puncts(7) fuel] by blast
  obtain i2 where "string_token i1 = Parsed s i2" "rest i2 = final_newline ind @ t"
    using string_token_body [OF r1] by blast
  then show "\<exists>inp'. parse_value L fuel d inp = Parsed (JString s) inp' \<and> rest inp' = final_newline ind @ t"
    using f g by simp
qed

lemma to_string_first:
  obtains c cs where "to_string i = c # cs" and "is_digit c \<or> c = CHR ''-''"
proof (cases "i < 0")
  case False
  then show ?thesis using show_nat_split [of "nat i"] that by (auto simp: to_string_def)
qed (simp add: that to_string_def)

lemma numeral_reads_back:
  assumes "\<And>ind. serialize_value L ind v = s @ final_newline ind" and "s \<noteq> []" and "is_digit (hd s) \<or> hd s = CHR ''-''"
    and "\<And>inp t. rest inp = s @ t \<Longrightarrow> ends_number t \<Longrightarrow> \<exists>inp'. number L inp = Parsed v inp' \<and> rest inp' = t"
  shows "reads_back L v"
  unfolding reads_back_def
proof (intro allI impI, elim conjE)
  fix ind ws t d fuel inp
  assume ws: "blank ws" and fuel: "2 * length (rest inp) < fuel" and t: "ends_number t"
    and r: "rest inp = ws @ serialize_value L ind v @ t"
  obtain c cs where s: "s = c # cs" and c: "is_digit c \<or> c = CHR ''-''" using assms(2,3) by (cases s) auto
  let ?t = "final_newline ind @ t"
  have r': "rest inp = ws @ c # cs @ ?t" using r s assms(1) by simp
  have nw: "\<not> is_ws c" using c by (auto simp: is_ws_def is_digit_def)
  obtain i1 f where f: "fuel = Suc f" and g: "getc (skip_ws inp) = (Some c, i1)"
    and r1: "rest (ungetc i1) = c # cs @ ?t"
    using value_reads [OF r' ws nw fuel] by blast
  have "rest (ungetc i1) = s @ ?t" using r1 s by simp
  then obtain i2 where n: "number L (ungetc i1) = Parsed v i2" "rest i2 = ?t"
    using assms(4) [of "ungetc i1" ?t] ends_number_blank [OF blank_simps(3) t] by auto
  have "parse_value L fuel d inp = number L (ungetc i1)"
    using c f g by (auto simp: is_digit_def)
  with n show "\<exists>inp'. parse_value L fuel d inp = Parsed v inp' \<and> rest inp' = ?t" by simp
qed

lemma reads_back_storable: "(\<And>d. storable L d v \<Longrightarrow> reads_back L v) \<Longrightarrow> reads_back L v"
  unfolding reads_back_def by blast

lemma int_reads_back: "reads_back L (JInt i)"
proof (rule reads_back_storable)
  fix d
  assume st: "storable L d (JInt i)"
  obtain c cs where "to_string i = c # cs" "is_digit c \<or> c = CHR ''-''" by (rule to_string_first)
  then show "reads_back L (JInt i)"
    using number_to_string st by (intro numeral_reads_back [where s = "to_string i"]) auto
qed

lemma number_text:
  assumes "rest inp = s @ t" and "ends_number t" and "list_all number_char s" and "s \<noteq> []"
  shows "\<exists>inp'. rest inp' = t \<and> number L inp =
    (case strtoimax_all s of
       Some i \<Rightarrow> Parsed (JInt i) inp'
     | None \<Rightarrow> if snd (strtod L s) = length s
               then if nan_or_inf (fst (strtod L s)) then Thrown Runtime_error else Parsed (JNumber (fst (strtod L s))) inp'
               else Failed inp')"
  using parse_number_all [OF assms(1,3,2), of "[]"] assms(4)
  by (auto simp: number_def split: option.splits prod.splits)

lemma double_reads_back: "reads_back L (JNumber f)"
proof (rule reads_back_storable)
  fix d
  assume "storable L d (JNumber f)"
  then have f: "reads_number L f" by simp
  show "reads_back L (JNumber f)"
  proof (rule numeral_reads_back [where s = "to_str L (JNumber f)"])
    fix inp t
    assume "rest inp = to_str L (JNumber f) @ t" and "ends_number t"
    then show "\<exists>inp'. number L inp = Parsed (JNumber f) inp' \<and> rest inp' = t"
      using number_text [of inp "to_str L (JNumber f)" t L] f by (auto simp: reads_number_def Let_def simp del: to_str.simps)
  qed (use f in \<open>simp_all add: reads_number_def Let_def del: to_str.simps\<close>)
qed

lemma all_read_back: "reads_back L v"
proof (induction v)
  case JNull
  show ?case
    by (rule literals_read_back [where c = "CHR ''n''" and w = "''ull''"]) (simp_all add: is_ws_def)
next
  case (JBool b)
  show ?case
  proof (cases b)
    case True
    have "reads_back L (JBool True)"
      by (rule literals_read_back [where c = "CHR ''t''" and w = "''rue''"]) (simp_all add: is_ws_def)
    with True show ?thesis by simp
  next
    case False
    have "reads_back L (JBool False)"
      by (rule literals_read_back [where c = "CHR ''f''" and w = "''alse''"])
        (simp_all add: is_ws_def)
    with False show ?thesis by simp
  qed
next
  case (JObject kvs)
  have "reads_back L (snd kv)" if "kv \<in> set kvs" for kv
    using JObject [OF that, of "snd kv"] by (cases kv) simp
  then show ?case by (rule object_reads_back)
qed (auto intro: int_reads_back double_reads_back string_reads_back array_reads_back)

lemma parse_serialized:
  assumes "storable L default_max_depths v" and "ends_number t"
  shows "parse_text L (serialize L prettify v @ t) = Inr (Inr v)"
proof -
  let ?s = "serialize L prettify v @ t"
  have r: "rest (new_input ?s) = [] @ serialize_value L (if prettify then 0 else - 1) v @ t"
    by (simp add: serialize_def)
  have "2 * length (rest (new_input ?s)) < enough_fuel ?s"
    by (simp add: enough_fuel_def)
  then obtain inp' where "parse_value L (enough_fuel ?s) default_max_depths (new_input ?s) = Parsed v inp'"
    using reads_backD [OF all_read_back assms(1) blank_simps(1) assms(2) r] by blast
  then show ?thesis by (simp add: parse_text_def)
qed


definition sample_c_double :: c_double where
  "sample_c_double = \<lparr>strtod = (\<lambda>s. (if s = ''0.5'' then 0x3FE0000000000000 else 0, length s)), small_integral = (\<lambda>d. d = 0),
     print_f = (\<lambda>d. ''0''), print_17g = (\<lambda>d. ''0.5''),
     of_int64 = of_int, double_eq = (=)\<rparr>"

lemma sample_half: "reads_number sample_c_double 0x3FE0000000000000"
  by code_simp


text \<open>A double whose text is that of an integer, as of every integral double below \<open>2 ^ 53\<close>, is read back as an integer.\<close>

lemma integral_number_becomes_int:
  assumes "to_str L (JNumber f) = to_string i" and "int64_min \<le> i" and "i \<le> int64_max" and "ends_number t"
  shows "parse_text L (serialize L False (JNumber f) @ t) = Inr (Inr (JInt i))"
proof -
  have "serialize L False (JNumber f) = serialize L False (JInt i)"
    using assms(1) by (simp add: serialize_def)
  then show ?thesis using parse_serialized [of L "JInt i" t False] assms(2-4) by simp
qed

section \<open>The parser always returns\<close>

text \<open>A run with more fuel gives the same result, unless the first one ran out.\<close>

definition agrees :: "'a presult \<Rightarrow> 'a presult \<Rightarrow> bool" where
  "agrees r r' \<longleftrightarrow> r = Out_of_fuel \<or> r' = r"

lemma agrees_refl: "agrees r r"
  by (simp add: agrees_def)

lemma agrees_if: "agrees x x' \<Longrightarrow> agrees y y' \<Longrightarrow> agrees (if b then x else y) (if b then x' else y')"
  by simp

lemma agrees_prod:
  "(\<And>a b. agrees (f a b) (f' a b)) \<Longrightarrow> agrees (case p of (a, b) \<Rightarrow> f a b) (case p of (a, b) \<Rightarrow> f' a b)"
  by (cases p) simp

lemma agrees_option:
  "agrees x x' \<Longrightarrow> (\<And>c. agrees (f c) (f' c)) \<Longrightarrow>
     agrees (case m of None \<Rightarrow> x | Some c \<Rightarrow> f c) (case m of None \<Rightarrow> x' | Some c \<Rightarrow> f' c)"
  by (cases m) simp_all

lemma agrees_after: "agrees r r' \<Longrightarrow> (\<And>v i. agrees (k v i) (k' v i)) \<Longrightarrow> agrees (after r k) (after r' k')"
  unfolding agrees_def by (cases r) auto

lemmas agrees_intros = agrees_if agrees_prod agrees_option agrees_after

lemma more_fuel:
  "agrees (parse_value L f d inp) (parse_value L (Suc f) d inp)"
  "agrees (parse_items L f d vs inp) (parse_items L (Suc f) d vs inp)"
  "agrees (parse_members L f d kvs inp) (parse_members L (Suc f) d kvs inp)"
proof (induction f arbitrary: inp d vs kvs)
  case (Suc f)
  {
    case 1
    show ?case
      by (subst (1 2) parse_value.simps) (intro agrees_intros Suc.IH agrees_refl)
  next
    case 2
    show ?case
      by (subst (1 2) parse_items.simps) (intro agrees_intros Suc.IH agrees_refl)
  next
    case 3
    show ?case
      by (subst (1 2) parse_members.simps) (intro agrees_intros Suc.IH agrees_refl)
  }
qed (simp_all add: agrees_def)

lemma enough_fuel_ok: "parse_value L (enough_fuel s) d (new_input s) \<noteq> Out_of_fuel"
  using within_parse(1) [of "new_input s" "enough_fuel s" L d] by (auto simp del: parse_value.simps simp: enough_fuel_def)

text \<open>The recursive parser returns on every text: with the fuel that \<open>parse_text\<close> gives it, it ends
  with a value, a syntax error or the exception for a number that is not finite, never for want of fuel, and
  any more fuel leads to the same result.\<close>

lemma json_parse_returns:
  "parse_value L (enough_fuel s + k) d (new_input s) = parse_value L (enough_fuel s) d (new_input s) \<and>
   parse_value L (enough_fuel s) d (new_input s) \<noteq> Out_of_fuel"
proof (induction k)
  case (Suc k)
  then show ?case
    using more_fuel(1) [of L "enough_fuel s + k" d "new_input s"] unfolding agrees_def by auto
qed (simp add: enough_fuel_ok)

section \<open>The limit on nesting\<close>

text \<open>\<^verbatim>\<open>parse_object_start\<close> tests the limit but never lowers it: objects nest as deep as the text does.\<close>

primrec nested_objects :: "nat \<Rightarrow> json" where
  "nested_objects 0 = JInt 0"
| "nested_objects (Suc n) = JObject [(''o'', nested_objects n)]"

lemma storable_nested: "0 < d \<Longrightarrow> storable L d (nested_objects n)"
  by (induction n) (simp_all add: map_sorted_def int64_min_def int64_max_def)

theorem objects_nest_without_limit:
  "parse_text L (serialize L False (nested_objects n)) = Inr (Inr (nested_objects n))"
proof -
  have "storable L default_max_depths (nested_objects n)"
    by (simp add: storable_nested default_max_depths_def)
  from reads_backD [OF all_read_back this blank_simps(1), of "[]" "new_input (serialize L False (nested_objects n))"]
  show ?thesis
    by (fastforce simp: parse_text_def enough_fuel_def serialize_def ends_number_def simp del: parse_value.simps)
qed

section \<open>Parsed values are well formed\<close>

text \<open>The invariant of the class \<^verbatim>\<open>value\<close>, with the nesting that a parser started at depth \<open>d\<close> allows:
  integers have 64 bits, numbers are finite, and the keys of an object are in order and distinct.\<close>

fun json_ok :: "nat \<Rightarrow> json \<Rightarrow> bool" where
  "json_ok d (JInt i) \<longleftrightarrow> int64_min \<le> i \<and> i \<le> int64_max"
| "json_ok d (JNumber f) \<longleftrightarrow> \<not> nan_or_inf f"
| "json_ok d (JArray vs) \<longleftrightarrow> 0 < d \<and> list_all (json_ok (d - 1)) vs"
| "json_ok d (JObject kvs) \<longleftrightarrow> 0 < d \<and> map_sorted kvs \<and> list_all (\<lambda>kv. json_ok d (snd kv)) kvs"
| "json_ok d v \<longleftrightarrow> True"

definition yields :: "('a \<Rightarrow> bool) \<Rightarrow> 'a presult \<Rightarrow> bool" where
  "yields P r = (case r of Parsed v _ \<Rightarrow> P v | _ \<Rightarrow> True)"

lemma yields_simps [simp]:
  "yields P (Parsed v inp) \<longleftrightarrow> P v" "yields P (Failed inp)" "yields P (Thrown e)" "yields P Out_of_fuel"
  by (simp_all add: yields_def)

lemma yields_after: "yields P r \<Longrightarrow> (\<And>v i. P v \<Longrightarrow> yields Q (k v i)) \<Longrightarrow> yields Q (after r k)"
  by (cases r) simp_all

lemma yields_if: "(b \<Longrightarrow> yields P x) \<Longrightarrow> (\<not> b \<Longrightarrow> yields P y) \<Longrightarrow> yields P (if b then x else y)"
  by simp

lemma yields_prod: "(\<And>a b. yields P (f a b)) \<Longrightarrow> yields P (case p of (a, b) \<Rightarrow> f a b)"
  by (cases p) simp

lemma yields_option: "yields P x \<Longrightarrow> (\<And>c. yields P (f c)) \<Longrightarrow> yields P (case m of None \<Rightarrow> x | Some c \<Rightarrow> f c)"
  by (cases m) simp_all

lemma yields_expecting: "P v \<Longrightarrow> yields P (expecting c v inp)"
  by (simp add: expecting_def split: prod.splits)

lemma yields_literal: "P v \<Longrightarrow> yields P (literal w v inp)"
  by (simp add: literal_def split: prod.splits)

lemma strtoimax_range: "strtoimax_all s = Some i \<Longrightarrow> int64_min \<le> i \<and> i \<le> int64_max"
  by (auto simp: strtoimax_all_def Let_def split: prod.splits if_splits)

lemma yields_number: "yields (json_ok d) (number L inp)"
  by (auto simp: number_def split: prod.splits option.splits dest: strtoimax_range)

lemma map_assign_values: "kv \<in> set (map_assign k v m) \<Longrightarrow> kv \<in> set m \<or> snd kv = v"
  by (induction k v m rule: map_assign.induct) (auto split: if_splits)

lemma json_ok_assign:
  assumes "map_sorted kvs" and "list_all (\<lambda>kv. json_ok d (snd kv)) kvs" and "json_ok d v"
  shows "map_sorted (map_assign k v kvs) \<and> list_all (\<lambda>kv. json_ok d (snd kv)) (map_assign k v kvs)"
  using assms map_assign_values [of _ k v kvs] by (fastforce simp: map_sorted_assign list_all_iff)

lemmas yields_intros = yields_if yields_prod yields_option yields_expecting yields_literal yields_number

lemma parse_ok:
  "yields (json_ok d) (parse_value L f d inp)"
  "list_all (json_ok d) vs \<Longrightarrow> yields (list_all (json_ok d)) (parse_items L f d vs inp)"
  "map_sorted kvs \<Longrightarrow> list_all (\<lambda>kv. json_ok d (snd kv)) kvs \<Longrightarrow>
     yields (\<lambda>kvs. map_sorted kvs \<and> list_all (\<lambda>kv. json_ok d (snd kv)) kvs) (parse_members L f d kvs inp)"
proof (induction f arbitrary: inp d vs kvs)
  case (Suc f)
  {
    case 1
    have a: "yields (list_all (json_ok (d - 1))) (parse_items L f (d - 1) [] i)" for i
      by (rule Suc.IH(2)) simp
    have m: "yields (\<lambda>kvs. map_sorted kvs \<and> list_all (\<lambda>kv. json_ok d (snd kv)) kvs) (parse_members L f d [] i)" for i
      by (rule Suc.IH(3)) simp_all
    have s: "yields (\<lambda>_. True) (string_token i)" for i
      by (cases "string_token i") simp_all
    show ?case
      unfolding parse_value.simps
      by (intro yields_intros yields_after [OF a] yields_after [OF m] yields_after [OF s]) auto
  next
    case 2
    then show ?case
      unfolding parse_items.simps
      by (intro yields_after [OF Suc.IH(1)] yields_prod yields_if Suc.IH(2)) auto
  next
    case 3
    have k: "yields (\<lambda>_. True) (member_key i)" for i
      by (cases "member_key i") simp_all
    show ?case
      unfolding parse_members.simps
      by (intro yields_after [OF k] yields_after [OF Suc.IH(1)] yields_prod yields_if Suc.IH(3))
        (use 3 json_ok_assign in auto)
  }
qed simp_all

text \<open>C26: whatever the text, a value that the parser returns is well formed: every integer in it has 64 bits, every
  number is finite, every object has its keys in order and once each, and arrays are nested no deeper than
  a hundred.\<close>

theorem json_parse_well_formed:
  assumes "parse_text L s = Inr (Inr v)"
  shows "json_ok default_max_depths v"
proof -
  obtain inp where "parse_value L (enough_fuel s) default_max_depths (new_input s) = Parsed v inp"
    using assms by (auto simp: parse_text_def split: presult.splits)
  with parse_ok(1) [of default_max_depths L "enough_fuel s" "new_input s"] show ?thesis by simp
qed

theorem json_parse_well_formed_witness:
  "json_ok default_max_depths (JArray [JInt 1, JBool True])"
  by (rule json_parse_well_formed [of sample_c_double "serialize sample_c_double False (JArray [JInt 1, JBool True]) @ []"],
      rule parse_serialized)
    (simp_all add: default_max_depths_def int64_min_def int64_max_def ends_number_def)

end
