(* ===== verification/JwtTheorems.thy ===== *)
theory JwtTheorems
  imports JwtVerify JsonRoundTrip
begin

text \<open>
  Correctness of tokens: what the builder signs is decoded to the same claims and signature, and the
  verifier accepts a token exactly when its algorithm is allowed, its signature verifies and all checks
  pass, whatever the order in which the checks are made.
\<close>

section \<open>Decoding what was signed\<close>

lemma base64url_round: "base64url_decode (base64url_encode s) = Inr s"
  by (simp add: base64url_decode_def base64url_encode_def b64url.decode_pad_trim)

lemma base64url_no_dot: "CHR ''.'' \<notin> set (base64url_encode s)"
proof -
  have "CHR ''.'' \<notin> set base64url_data" by (simp add: base64url_data_def)
  then show ?thesis
    using b64url.encode_body_in [of s] by (auto simp: base64url_encode_def b64url.trim_encode)
qed

lemma decode_token_parts:
  assumes "CHR ''.'' \<notin> set h" and "CHR ''.'' \<notin> set p"
  shows "decode_token_with L dec (h @ CHR ''.'' # p @ CHR ''.'' # s) =
    bind_res (dec h) (\<lambda>header. bind_res (dec p) (\<lambda>payload. bind_res (dec s) (\<lambda>sig.
    bind_res (parse_claims L header) (\<lambda>hcs. bind_res (parse_claims L payload) (\<lambda>pcs.
      Inr \<lparr>header_claims = hcs, payload_claims = pcs, get_token = h @ CHR ''.'' # p @ CHR ''.'' # s,
        get_header = header, get_header_base64 = h, get_payload = payload, get_payload_base64 = p,
        get_signature = sig, get_signature_base64 = s\<rparr>)))))"
proof -
  have "find_char CHR ''.'' (h @ CHR ''.'' # p @ CHR ''.'' # s) = Some (length h)"
    using assms(1) by (rule find_char_append)
  moreover have "find_char_from CHR ''.'' (h @ CHR ''.'' # p @ CHR ''.'' # s) (length h + 1) =
      Some (length h + 1 + length p)"
    using find_char_append [OF assms(2), of s] by (simp add: find_char_from_def)
  ultimately show ?thesis
    by (simp add: decode_token_with_def substr_def substr_from_def)
qed

lemma ends_number_Nil [simp]: "ends_number []"
  by (simp add: ends_number_def)

lemma parse_claims_serialized:
  "storable L default_max_depths (JObject cs) \<Longrightarrow> parse_claims L (traits_serialize L (JObject cs)) = Inr cs"
  using parse_serialized [of L "JObject cs" "[]" False]
  by (simp add: parse_claims_def traits_parse_def traits_serialize_def)

text \<open>A token whose two objects the parser can hold.\<close>

definition storable_claims :: "c_double \<Rightarrow> claims \<Rightarrow> bool" where
  "storable_claims L cs \<longleftrightarrow> storable L default_max_depths (JObject cs)"

lemma decode_signed:
  assumes "sign_ec M algo b = Inr (token, ec)" and "\<not> is_error ec"
    and "storable_claims (num M) (signed_header algo b)" and "storable_claims (num M) (b_payload b)"
  shows "\<exists>j. decode_token (num M) token = Inr j \<and> header_claims j = signed_header algo b
    \<and> payload_claims j = b_payload b
    \<and> alg_sign (ssl M) algo (get_header_base64 j @ ''.'' @ get_payload_base64 j) = Inr (get_signature j, ec)"
proof -
  let ?h = "base64url_encode (traits_serialize (num M) (JObject (signed_header algo b)))"
  let ?p = "base64url_encode (traits_serialize (num M) (JObject (b_payload b)))"
  obtain sig where a: "alg_sign (ssl M) algo (?h @ ''.'' @ ?p) = Inr (sig, ec)"
    and t: "token = ?h @ CHR ''.'' # ?p @ CHR ''.'' # base64url_encode sig"
    using assms(1,2) by (auto simp: sign_ec_def sign_with_def Let_def bind_res_eq_Inr_conv split: if_splits)
  show ?thesis
    unfolding t decode_token_def decode_token_parts [OF base64url_no_dot base64url_no_dot]
    using assms(3,4) a by (simp add: base64url_round parse_claims_serialized storable_claims_def)
qed

text \<open>C13: what the builder signs is what a reader gets. If signing succeeds, decoding the token gives the
  builder's header with the algorithm's name in it, its payload claims, and the signature that the
  algorithm made over exactly the two encoded parts that the decoded token holds.\<close>

theorem jwt_sign_decode:
  assumes "sign_ec M algo b = Inr (token, ec)" and "\<not> is_error ec"
    and "storable_claims (num M) (signed_header algo b)" and "storable_claims (num M) (b_payload b)"
  shows "\<exists>j. decode_token (num M) token = Inr j \<and> header_claims j = signed_header algo b
    \<and> payload_claims j = b_payload b
    \<and> alg_sign (ssl M) algo (get_header_base64 j @ ''.'' @ get_payload_base64 j) = Inr (get_signature j, ec)"
  using assms by (rule decode_signed)

section \<open>The checks\<close>

text \<open>A check that only ever hands on the code it got, or sets an error.\<close>

definition sets_errors :: "check \<Rightarrow> bool" where
  "sets_errors c \<longleftrightarrow> (\<forall>ctx ec'. c ctx No_error = Inr ec' \<longrightarrow> is_error ec' \<or> ec' = No_error)"

definition passes :: "check \<Rightarrow> verify_context \<Rightarrow> bool" where
  "passes c ctx \<longleftrightarrow> c ctx No_error = Inr No_error"

lemma run_checks_pass:
  "\<forall>(k, c) \<in> set cs. sets_errors c \<Longrightarrow>
     (\<exists>ec. run_checks cs ctx No_error = Inr ec \<and> \<not> is_error ec) \<longleftrightarrow>
     (\<forall>(k, c) \<in> set cs. passes c (ctx\<lparr>claim_key := k\<rparr>))"
proof (induction cs arbitrary: ctx)
  case (Cons kc cs)
  obtain k c where kc: "kc = (k, c)" by fastforce
  have c: "sets_errors c" and cs: "\<forall>(k, c) \<in> set cs. sets_errors c" using Cons.prems kc by auto
  show ?case
  proof (cases "passes c (ctx\<lparr>claim_key := k\<rparr>)")
    case True
    then show ?thesis using Cons.IH [OF cs, of "ctx\<lparr>claim_key := k\<rparr>"] kc by (auto simp: passes_def)
  next
    case False
    then have "\<not> (\<exists>ec. run_checks (kc # cs) ctx No_error = Inr ec \<and> \<not> is_error ec)"
      using c kc by (auto simp: passes_def sets_errors_def bind_res_eq_Inr_conv split: if_splits)
    with False kc show ?thesis by auto
  qed
qed simp

definition iterates_all :: "jwt_lib \<Rightarrow> bool" where
  "iterates_all M \<longleftrightarrow> (\<forall>ks. set (iteration M ks) = set ks)"

lemma map_filter_mem: "y \<in> set (List.map_filter f xs) \<longleftrightarrow> (\<exists>x \<in> set xs. f x = Some y)"
  by (induction xs) (auto simp: List.map_filter_simps split: option.splits)

lemma set_checks_in_order:
  assumes "iterates_all M"
  shows "(k, c) \<in> set (checks_in_order M cs) \<longleftrightarrow> map_find cs k = Some c"
proof -
  have "map_find cs k = Some c \<Longrightarrow> k \<in> fst ` set cs"
    by (force simp: map_find_def dest: map_of_SomeD)
  moreover have "set (iteration M (map fst cs)) = fst ` set cs"
    using assms by (simp add: iterates_all_def)
  ultimately show ?thesis
    by (auto simp: checks_in_order_def map_filter_mem)
qed

lemma verify_ok_iff: "verify M now v j = Inr () \<longleftrightarrow> (\<exists>ec. verify_ec M now v j = Inr ec \<and> \<not> is_error ec)"
  by (auto simp: verify_def bind_res_eq_Inr_conv throw_if_error_iff)

text \<open>The context in which the check of one claim runs.\<close>

abbreviation context_at :: "int \<Rightarrow> verifier \<Rightarrow> decoded_jwt \<Rightarrow> string \<Rightarrow> verify_context" where
  "context_at now v j k \<equiv>
     \<lparr>current_time = now, ctx_jwt = j, ctx_leeway = default_leeway v, claim_key = k\<rparr>"

definition signed_by :: "openssl \<Rightarrow> algorithm \<Rightarrow> decoded_jwt \<Rightarrow> bool" where
  "signed_by S a j \<longleftrightarrow>
     \<not> is_error (alg_verify S a (get_header_base64 j @ ''.'' @ get_payload_base64 j) (get_signature j))"

lemma verify_iff:
  assumes "iterates_all M" and "\<And>k c. map_find (v_claims v) k = Some c \<Longrightarrow> sets_errors c"
  shows "verify M now v j = Inr () \<longleftrightarrow>
    (\<exists>name a. get_algorithm j = Inr name \<and> map_find (v_algs v) name = Some a \<and> signed_by (ssl M) a j) \<and>
    (\<forall>k c. map_find (v_claims v) k = Some c \<longrightarrow> passes c (context_at now v j k))"
proof -
  have "\<forall>(k, c) \<in> set (checks_in_order M (v_claims v)). sets_errors c"
    using assms set_checks_in_order [OF assms(1)] by blast
  from run_checks_pass [OF this, of "context_at now v j []"]
  have run: "(\<exists>ec. run_checks (checks_in_order M (v_claims v)) (context_at now v j []) No_error = Inr ec
        \<and> \<not> is_error ec) \<longleftrightarrow>
      (\<forall>k c. map_find (v_claims v) k = Some c \<longrightarrow> passes c (context_at now v j k))"
    using set_checks_in_order [OF assms(1)] by fastforce
  show ?thesis
  proof (cases "\<exists>name a. get_algorithm j = Inr name \<and> map_find (v_algs v) name = Some a \<and> signed_by (ssl M) a j")
    case True
    then have "verify_ec M now v j = run_checks (checks_in_order M (v_claims v)) (context_at now v j []) No_error"
      by (auto simp: verify_ec_def Let_def signed_by_def alg_verify_code)
    with True run show ?thesis by (simp add: verify_ok_iff)
  next
    case False
    then have "\<not> (\<exists>ec. verify_ec M now v j = Inr ec \<and> \<not> is_error ec)"
      by (auto simp: verify_ec_def Let_def signed_by_def bind_res_eq_Inr_conv split: option.splits if_splits)
    with False show ?thesis unfolding verify_ok_iff by blast
  qed
qed

section \<open>The checks of the server's verifier\<close>

text \<open>A date claim that is absent, or is an integer whose time is representable and satisfies \<open>P\<close>.\<close>

definition date_claim :: "int \<Rightarrow> claims \<Rightarrow> string \<Rightarrow> (int \<Rightarrow> bool) \<Rightarrow> bool" where
  "date_claim rate cs name P =
     (case map_find cs name of
        None \<Rightarrow> True
      | Some v \<Rightarrow> (case as_date rate v of Inr d \<Rightarrow> P d | Inl _ \<Rightarrow> False))"

lemma checked64_Inr [simp]: "checked64 i = Inr d \<longleftrightarrow> d = i \<and> int64_min \<le> i \<and> i \<le> int64_max"
  by (auto simp: checked64_def)

lemma checked64_again: "checked64 i = Inr d \<Longrightarrow> checked64 d = Inr d"
  by simp

lemma seconds_zero:
  assumes "as_date rate v = Inr d"
  shows "plus_seconds rate d 0 = Inr d" and "minus_seconds rate d 0 = Inr d"
proof -
  have "checked64 d = Inr d"
    using assms by (auto simp: as_date_def from_time_t_def bind_res_eq_Inr_conv)
  moreover have "checked64 0 = Inr 0" by (simp add: int64_min_def int64_max_def)
  ultimately show "plus_seconds rate d 0 = Inr d" and "minus_seconds rate d 0 = Inr d"
    by (simp_all add: plus_seconds_def minus_seconds_def seconds64_def bind_res_eq_Inr_conv)
qed

lemmas date_getters = get_expires_at_def get_issued_at_def get_not_before_def
lemmas date_tests = has_expires_at_def has_issued_at_def has_not_before_def
lemmas claim_defs = has_payload_claim_def get_payload_claim_def has_claim_def get_claim_def

lemma exp_check_passes:
  assumes "ctx_leeway ctx = 0"
  shows "passes (exp_check rate) ctx \<longleftrightarrow> date_claim rate (payload_claims (ctx_jwt ctx)) ''exp'' (\<lambda>d. current_time ctx \<le> d)"
proof (cases "map_find (payload_claims (ctx_jwt ctx)) ''exp''")
  case (Some v)
  then show ?thesis using assms seconds_zero [of rate v]
    by (cases "as_date rate v") (simp_all add: passes_def exp_check_def date_claim_def date_getters date_tests
        claim_defs)
qed (simp add: passes_def exp_check_def date_claim_def date_tests claim_defs)

lemma iat_check_passes:
  assumes "ctx_leeway ctx = 0"
  shows "passes (iat_check rate) ctx \<longleftrightarrow> date_claim rate (payload_claims (ctx_jwt ctx)) ''iat'' (\<lambda>d. d \<le> current_time ctx)"
proof (cases "map_find (payload_claims (ctx_jwt ctx)) ''iat''")
  case (Some v)
  then show ?thesis using assms seconds_zero [of rate v]
    by (cases "as_date rate v") (simp_all add: passes_def iat_check_def date_claim_def date_getters date_tests
        claim_defs)
qed (simp add: passes_def iat_check_def date_claim_def date_tests claim_defs)

lemma nbf_check_passes:
  assumes "ctx_leeway ctx = 0"
  shows "passes (nbf_check rate) ctx \<longleftrightarrow> date_claim rate (payload_claims (ctx_jwt ctx)) ''nbf'' (\<lambda>d. d \<le> current_time ctx)"
proof (cases "map_find (payload_claims (ctx_jwt ctx)) ''nbf''")
  case (Some v)
  then show ?thesis using assms seconds_zero [of rate v]
    by (cases "as_date rate v") (simp_all add: passes_def nbf_check_def date_claim_def date_getters date_tests
        claim_defs)
qed (simp add: passes_def nbf_check_def date_claim_def date_tests claim_defs)

lemma issuer_check_passes:
  "passes (equals_claim L False (JString iss)) ctx \<longleftrightarrow>
     map_find (payload_claims (ctx_jwt ctx)) (claim_key ctx) = Some (JString iss)"
proof (cases "map_find (payload_claims (ctx_jwt ctx)) (claim_key ctx)")
  case (Some c)
  then show ?thesis
    by (cases c) (simp_all add: passes_def equals_claim_def ctx_get_typed_claim_def ctx_get_claim_def
        claims_match_def claim_defs)
qed (simp add: passes_def equals_claim_def ctx_get_typed_claim_def ctx_get_claim_def claim_defs)

lemma server_checks_set_errors:
  "sets_errors (exp_check rate)" "sets_errors (iat_check rate)" "sets_errors (nbf_check rate)"
  "sets_errors (equals_claim L in_header e)"
  by (auto simp: sets_errors_def exp_check_def iat_check_def nbf_check_def equals_claim_def
      ctx_get_typed_claim_def ctx_get_claim_def bind_res_eq_Inr_conv split: if_splits)

definition server_verifier :: "jwt_lib \<Rightarrow> string \<Rightarrow> algorithm \<Rightarrow> verifier" where
  "server_verifier M iss a = with_issuer (num M) iss (allow_algorithm a (new_verifier (tick_rate M)))"

lemma server_verifier_sel:
  "default_leeway (server_verifier M iss a) = 0" "v_algs (server_verifier M iss a) = [(alg_name a, a)]"
  "v_claims (server_verifier M iss a) =
     [(''exp'', exp_check (tick_rate M)), (''iat'', iat_check (tick_rate M)),
      (''iss'', equals_claim (num M) False (JString iss)), (''nbf'', nbf_check (tick_rate M))]"
  by (simp_all add: server_verifier_def with_issuer_def with_claim_def with_check_def allow_algorithm_def
      new_verifier_def)

lemma server_verifier_check:
  "map_find (v_claims (server_verifier M iss a)) k = Some c \<longleftrightarrow>
     k = ''exp'' \<and> c = exp_check (tick_rate M) \<or> k = ''iat'' \<and> c = iat_check (tick_rate M) \<or>
     k = ''iss'' \<and> c = equals_claim (num M) False (JString iss) \<or> k = ''nbf'' \<and> c = nbf_check (tick_rate M)"
  by (auto simp: server_verifier_sel map_find_def)

text \<open>What acceptance by this verifier means for a token.\<close>

definition acceptable :: "jwt_lib \<Rightarrow> int \<Rightarrow> string \<Rightarrow> algorithm \<Rightarrow> decoded_jwt \<Rightarrow> bool" where
  "acceptable M now iss a j \<longleftrightarrow>
     get_algorithm j = Inr (alg_name a) \<and> signed_by (ssl M) a j \<and>
     map_find (payload_claims j) ''iss'' = Some (JString iss) \<and>
     date_claim (tick_rate M) (payload_claims j) ''exp'' (\<lambda>d. now \<le> d) \<and>
     date_claim (tick_rate M) (payload_claims j) ''iat'' (\<lambda>d. d \<le> now) \<and>
     date_claim (tick_rate M) (payload_claims j) ''nbf'' (\<lambda>d. d \<le> now)"

lemma server_verify_iff:
  assumes "iterates_all M"
  shows "verify M now (server_verifier M iss a) j = Inr () \<longleftrightarrow> acceptable M now iss a j"
proof -
  let ?v = "server_verifier M iss a"
  have "verify M now ?v j = Inr () \<longleftrightarrow>
      (\<exists>name a'. get_algorithm j = Inr name \<and> map_find (v_algs ?v) name = Some a' \<and> signed_by (ssl M) a' j) \<and>
      (\<forall>k c. map_find (v_claims ?v) k = Some c \<longrightarrow> passes c (context_at now ?v j k))"
    using server_checks_set_errors
    by (intro verify_iff [OF assms]) (auto simp: server_verifier_check)
  also have "(\<forall>k c. map_find (v_claims ?v) k = Some c \<longrightarrow> passes c (context_at now ?v j k)) \<longleftrightarrow>
      passes (exp_check (tick_rate M)) (context_at now ?v j ''exp'') \<and>
      passes (iat_check (tick_rate M)) (context_at now ?v j ''iat'') \<and>
      passes (equals_claim (num M) False (JString iss)) (context_at now ?v j ''iss'') \<and>
      passes (nbf_check (tick_rate M)) (context_at now ?v j ''nbf'')"
    unfolding server_verifier_check by blast
  also have "(\<exists>name a'. get_algorithm j = Inr name \<and> map_find (v_algs ?v) name = Some a' \<and> signed_by (ssl M) a' j)
      \<longleftrightarrow> get_algorithm j = Inr (alg_name a) \<and> signed_by (ssl M) a j"
    by (auto simp: server_verifier_sel(2) map_find_def split: if_splits)
  finally show ?thesis
    by (simp add: acceptable_def exp_check_passes iat_check_passes nbf_check_passes issuer_check_passes
        server_verifier_sel(1) conj_ac)
qed

section \<open>Faults of decoding and verifying\<close>

text \<open>An exception, or the overflow of a date.\<close>

definition date_fault :: "fault \<Rightarrow> bool" where
  "date_fault err \<longleftrightarrow> (\<exists>x. err = Exn x) \<or> err = UB Signed_overflow"

lemma date_fault_Exn [simp]: "date_fault (Exn x)"
  by (simp add: date_fault_def)

lemma accessor_faults:
  "get_type v = Inl err \<Longrightarrow> \<exists>x. err = Exn x" "as_string v = Inl err \<Longrightarrow> \<exists>x. err = Exn x"
  "as_object v = Inl err \<Longrightarrow> \<exists>x. err = Exn x" "as_array v = Inl err \<Longrightarrow> \<exists>x. err = Exn x"
  "as_int v = Inl err \<Longrightarrow> \<exists>x. err = Exn x" "as_bool v = Inl err \<Longrightarrow> \<exists>x. err = Exn x"
  "as_number L v = Inl err \<Longrightarrow> \<exists>x. err = Exn x" "get_claim cs name = Inl err \<Longrightarrow> \<exists>x. err = Exn x"
  by (cases v; auto simp: get_claim_def split: option.splits)+

lemma insert_strings_Exn: "insert_strings es res = Inl err \<Longrightarrow> \<exists>x. err = Exn x"
  by (induction es res rule: insert_strings.induct) (auto simp: bind_res_eq_Inl_conv dest: accessor_faults)

lemma as_set_Exn: "as_set v = Inl err \<Longrightarrow> \<exists>x. err = Exn x"
  by (auto simp: as_set_def bind_res_eq_Inl_conv dest: accessor_faults insert_strings_Exn)

lemma get_audience_Exn: "get_audience j = Inl err \<Longrightarrow> \<exists>x. err = Exn x"
  by (auto simp: get_audience_def get_payload_claim_def bind_res_eq_Inl_conv
      dest: accessor_faults as_set_Exn split: if_splits)

lemma string_claim_Exn:
  "get_issuer j = Inl err \<Longrightarrow> \<exists>x. err = Exn x" "get_subject j = Inl err \<Longrightarrow> \<exists>x. err = Exn x"
  "get_algorithm j = Inl err \<Longrightarrow> \<exists>x. err = Exn x" "get_key_id j = Inl err \<Longrightarrow> \<exists>x. err = Exn x"
  "get_payload_claim j name = Inl err \<Longrightarrow> \<exists>x. err = Exn x"
  by (auto simp: get_issuer_def get_subject_def get_algorithm_def get_key_id_def get_payload_claim_def
      get_header_claim_def bind_res_eq_Inl_conv dest: accessor_faults)

lemma parse_text_Exn: "parse_text L s = Inl err \<Longrightarrow> \<exists>x. err = Exn x"
  by (auto simp: parse_text_def split: presult.splits)

lemma parse_claims_Exn: "parse_claims L s = Inl err \<Longrightarrow> \<exists>x. err = Exn x"
  by (auto simp: parse_claims_def traits_parse_def bind_res_eq_Inl_conv split: option.splits
      dest: parse_text_Exn accessor_faults)

lemma base64url_decode_Exn: "base64url_decode s = Inl err \<Longrightarrow> \<exists>x. err = Exn x"
  unfolding base64url_decode_def by (drule decode_fault) simp

lemma find_char_less: "find_char c s = Some i \<Longrightarrow> i < length s"
  by (auto dest: find_char_SomeD)

lemma decode_token_Exn: "decode_token L token = Inl err \<Longrightarrow> \<exists>x. err = Exn x"
  unfolding decode_token_def decode_token_with_def
  by (auto simp: bind_res_eq_Inl_conv substr_def substr_from_def
      split: option.splits if_splits dest: base64url_decode_Exn parse_claims_Exn)

lemma checked64_fault: "checked64 i = Inl err \<Longrightarrow> err = UB Signed_overflow"
  by (auto simp: checked64_def split: if_splits)

lemma as_date_fault: "as_date rate v = Inl err \<Longrightarrow> date_fault err"
  by (auto simp: as_date_def from_time_t_def bind_res_eq_Inl_conv date_fault_def
      dest: accessor_faults checked64_fault)

lemma seconds_fault:
  "plus_seconds rate d n = Inl err \<Longrightarrow> date_fault err" "minus_seconds rate d n = Inl err \<Longrightarrow> date_fault err"
  by (auto simp: plus_seconds_def minus_seconds_def bind_res_eq_Inl_conv date_fault_def dest: checked64_fault)

lemma date_check_faults:
  "exp_check rate ctx ec = Inl err \<Longrightarrow> date_fault err" "iat_check rate ctx ec = Inl err \<Longrightarrow> date_fault err"
  "nbf_check rate ctx ec = Inl err \<Longrightarrow> date_fault err"
  by (auto simp: exp_check_def iat_check_def nbf_check_def date_getters get_payload_claim_def
      bind_res_eq_Inl_conv split: if_splits dest: as_date_fault seconds_fault accessor_faults)

lemma issuer_check_fault: "equals_claim L b (JString iss) ctx ec = Inl err \<Longrightarrow> date_fault err"
  by (auto simp: equals_claim_def ctx_get_typed_claim_def ctx_get_claim_def claims_match_def
      get_payload_claim_def get_header_claim_def bind_res_eq_Inl_conv split: if_splits dest!: accessor_faults)

lemma run_checks_fault:
  "run_checks cs ctx ec = Inl err \<Longrightarrow>
     \<forall>(k, c) \<in> set cs. \<forall>ctx ec err. c ctx ec = Inl err \<longrightarrow> date_fault err \<Longrightarrow> date_fault err"
  by (induction cs ctx ec rule: run_checks.induct) (auto simp: bind_res_eq_Inl_conv split: if_splits)

lemma checks_in_orderD: "(k, c) \<in> set (checks_in_order M cs) \<Longrightarrow> map_find cs k = Some c"
  by (auto simp: checks_in_order_def map_filter_mem)

text \<open>The overflow is behind the signature: a token that is not signed by the key cannot cause it.\<close>

lemma server_verify_fault:
  assumes "verify M now (server_verifier M iss a) j = Inl err"
  shows "(\<exists>x. err = Exn x) \<or> err = UB Signed_overflow \<and> signed_by (ssl M) a j"
proof -
  let ?v = "server_verifier M iss a"
  have checks: "date_fault err'" if "(k, c) \<in> set (checks_in_order M (v_claims ?v))" "c ctx ec = Inl err'"
    for k c ctx ec err'
    using checks_in_orderD [OF that(1)] that(2) date_check_faults issuer_check_fault
    unfolding server_verifier_check by blast
  consider (algo) "get_algorithm j = Inl err" | (thrown) "\<exists>x. err = Exn x"
    | (run) ec where "signed_by (ssl M) a j"
      "run_checks (checks_in_order M (v_claims ?v)) (context_at now ?v j []) ec = Inl err"
    using assms throw_if_error_Exn
    by (auto simp: verify_def verify_ec_def Let_def bind_res_eq_Inl_conv server_verifier_sel(2) map_find_def
        signed_by_def split: option.splits if_splits)
  then show ?thesis
  proof cases
    case algo
    then show ?thesis by (auto dest: string_claim_Exn)
  next
    case run
    with run_checks_fault [OF run(2)] checks have "date_fault err" by blast
    with run(1) show ?thesis by (auto simp: date_fault_def)
  qed simp
qed

end
