(* ===== verification/TokenAuthority.thy ===== *)
theory TokenAuthority
  imports SecureApi JwtTheorems
begin

text \<open>
  \<^verbatim>\<open>TokenAuth::get_auth\<close> of \<^verbatim>\<open>src/token_auth.cc\<close> over the JWT library: the key file is read from the
  disk on every call, the token is decoded, the key is chosen by key id, and issuer, audience,
  signature and dates are checked before the level is taken from the domain of the e-mail address.
  Every C++ exception inside ends as \<^const>\<open>NO_AUTH\<close>; an undefined step is not an exception and is kept.
  The clock is the argument \<open>now\<close>.
\<close>

section \<open>The class TokenAuth\<close>

record token_auth =
  client_id :: string
  public_key_path :: path
  required_issuer :: string

text \<open>\<^verbatim>\<open>cert_list[kid]\<close>: a key that is missing is inserted as null.\<close>

definition cert_at :: "claims \<Rightarrow> string \<Rightarrow> json" where
  "cert_at cert_list kid = (case map_find cert_list kid of Some cert \<Rightarrow> cert | None \<Rightarrow> JNull)"

definition signing_key :: "openssl \<Rightarrow> string \<Rightarrow> json \<Rightarrow> string res" where
  "signing_key S issuer cert =
     (if issuer \<noteq> ''https://accounts.google.com'' then as_string cert
      else bind_res (as_string cert) (\<lambda>c. extract_pubkey_from_cert S c []))"

text \<open>Up to and including \<^verbatim>\<open>verifier.verify\<close>: the token, or \<^const>\<open>None\<close> for an early return.\<close>

definition verified_token ::
  "jwt_lib \<Rightarrow> 's boost_fs \<Rightarrow> token_auth \<Rightarrow> int \<Rightarrow> 's \<Rightarrow> string \<Rightarrow> decoded_jwt option res" where
  "verified_token M D A now s id_token =
     (let pem = ifstream_read D (public_key_path A) s
      in bind_res (decode_token (num M) id_token) (\<lambda>decoded.
         bind_res (parse_claims (num M) pem) (\<lambda>cert_list.
         bind_res (get_key_id decoded) (\<lambda>kid.
         bind_res (get_issuer decoded) (\<lambda>issuer.
           if issuer = [] then Inr None
           else
             bind_res (signing_key (ssl M) issuer (cert_at cert_list kid)) (\<lambda>key.
             bind_res (get_audience decoded) (\<lambda>aud.
               if \<not> set_member aud (client_id A) then Inr None
               else
                 bind_res (rs256 (ssl M) key [] [] []) (\<lambda>alg.
                 bind_res (verify M now
                     (with_issuer (num M) (required_issuer A) (allow_algorithm alg (new_verifier (tick_rate M))))
                     decoded) (\<lambda>_. Inr (Some decoded))))))))))"

text \<open>When there is no at-sign, \<^verbatim>\<open>find_last_of\<close> gives \<open>npos\<close>, and \<open>npos + 1\<close> is zero.\<close>

definition email_domain :: "string \<Rightarrow> string res" where
  "email_domain email =
     substr_from email (case find_last_of CHR ''@'' email of Some i \<Rightarrow> i + 1 | None \<Rightarrow> 0)"

definition email_level :: "decoded_jwt \<Rightarrow> auth_level res" where
  "email_level decoded =
     bind_res (get_payload_claim decoded ''email'') (\<lambda>c.
     bind_res (as_string c) (\<lambda>email.
     bind_res (email_domain email) (\<lambda>domain.
       Inr (if domain = ''g.ucla.edu'' then PRIVATE_AUTH else PUBLIC_AUTH))))"

text \<open>\<^verbatim>\<open>catch (std::exception& e)\<close>: the level is \<^const>\<open>NO_AUTH\<close> and the user id what it was by then.\<close>

definition catching :: "string \<Rightarrow> 'a res \<Rightarrow> ('a \<Rightarrow> (auth_level \<times> string) res) \<Rightarrow> (auth_level \<times> string) res" where
  "catching user_id r k =
     (case r of
        Inr x \<Rightarrow> k x
      | Inl err \<Rightarrow> (case err of Exn _ \<Rightarrow> Inr (NO_AUTH, user_id) | UB u \<Rightarrow> Inl (UB u)))"

definition TokenAuth_get_auth ::
  "jwt_lib \<Rightarrow> 's boost_fs \<Rightarrow> token_auth \<Rightarrow> int \<Rightarrow> 's \<Rightarrow> authorizer" where
  "TokenAuth_get_auth M D A now s id_token user_id =
     catching user_id (verified_token M D A now s id_token) (\<lambda>r.
       case r of
         None \<Rightarrow> Inr (NO_AUTH, user_id)
       | Some decoded \<Rightarrow>
           catching user_id (get_subject decoded) (\<lambda>sub.
             catching sub (email_level decoded) (\<lambda>level. Inr (level, sub))))"

section \<open>It is an authority\<close>

lemma email_level_Exn: "email_level j = Inl err \<Longrightarrow> \<exists>x. err = Exn x"
  by (auto simp: email_level_def email_domain_def bind_res_eq_Inl_conv substr_from_def
      dest: string_claim_Exn accessor_faults split: if_splits option.splits)

lemma signing_key_Exn: "signing_key S issuer cert = Inl err \<Longrightarrow> \<exists>x. err = Exn x"
  by (auto simp: signing_key_def bind_res_eq_Inl_conv dest: accessor_faults extract_pubkey_Exn split: if_splits)

lemma rs256_Exn: "rs256 S a b c d = Inl err \<Longrightarrow> \<exists>x. err = Exn x"
  unfolding rs256_def by (rule rsa_Exn)

lemma rs256_name: "rs256 S a b c d = Inr alg \<Longrightarrow> \<exists>k. alg = Alg_rsa k EVP_sha256 ''RS256''"
  by (auto simp: rs256_def rsa_def bind_res_eq_Inr_conv split: option.splits)

lemma verify_server: "verify M now (with_issuer (num M) iss (allow_algorithm alg (new_verifier (tick_rate M)))) j =
    verify M now (server_verifier M iss alg) j"
  by (simp add: server_verifier_def)

lemma verified_token_fault:
  assumes "verified_token M D A now s t = Inl err"
  shows "(\<exists>x. err = Exn x) \<or> err = UB Signed_overflow"
  using assms
  by (auto simp: verified_token_def Let_def bind_res_eq_Inl_conv verify_server split: if_splits
      dest: decode_token_Exn parse_claims_Exn string_claim_Exn signing_key_Exn get_audience_Exn rs256_Exn
        server_verify_fault)

lemma token_auth_fault: "TokenAuth_get_auth M D A now s t u = Inl err \<Longrightarrow> err = UB Signed_overflow"
  by (auto simp: TokenAuth_get_auth_def catching_def split: sum.splits fault.splits option.splits
      dest!: verified_token_fault string_claim_Exn(2) email_level_Exn)

text \<open>The two ways a call can go: the outcome of the checks does not depend on the old user id.\<close>

lemma token_auth_cases:
  obtains (fault) u where "\<And>w. TokenAuth_get_auth M D A now s t w = Inl (UB u)"
    | (keeps) "\<And>w. TokenAuth_get_auth M D A now s t w = Inr (NO_AUTH, w)"
    | (named) l v where "\<And>w. TokenAuth_get_auth M D A now s t w = Inr (l, v)"
proof (cases "verified_token M D A now s t")
  case (Inl err)
  then show ?thesis
    using fault keeps by (cases err) (simp_all add: TokenAuth_get_auth_def catching_def)
next
  case (Inr r)
  show ?thesis
  proof (cases r)
    case None
    with Inr keeps show ?thesis by (simp add: TokenAuth_get_auth_def catching_def)
  next
    case (Some j)
    show ?thesis
    proof (cases "get_subject j")
      case (Inl err)
      with \<open>verified_token M D A now s t = Inr r\<close> Some show ?thesis
        using fault keeps by (cases err) (simp_all add: TokenAuth_get_auth_def catching_def)
    next
      case sub: (Inr sub)
      have "email_level j = Inl err \<Longrightarrow> \<exists>x. err = Exn x" for err by (rule email_level_Exn)
      with sub \<open>verified_token M D A now s t = Inr r\<close> Some show ?thesis
        using named by (cases "email_level j") (fastforce simp: TokenAuth_get_auth_def catching_def)+
    qed
  qed
qed

interpretation tokenauth: authority "TokenAuth_get_auth M D A now s" for M D A now s
proof
  fix t u u' l v err
  show "map_sum id fst (TokenAuth_get_auth M D A now s t u) = map_sum id fst (TokenAuth_get_auth M D A now s t u')"
    by (rule token_auth_cases [of M D A now s t]) simp_all
  show "TokenAuth_get_auth M D A now s t u = Inr (l, v) \<Longrightarrow> l \<noteq> NO_AUTH \<Longrightarrow>
      TokenAuth_get_auth M D A now s t u' = Inr (l, v)"
    by (rule token_auth_cases [of M D A now s t]) simp_all
  show "TokenAuth_get_auth M D A now s t u = Inl err \<Longrightarrow> err = UB Signed_overflow"
    by (rule token_auth_fault)
qed

section \<open>What an accepted token is\<close>

text \<open>The specification: the key file names a key for the token's key id, the token is for this client, and
  it is acceptable to a verifier with that key and the required issuer.\<close>

definition trusted_token :: "jwt_lib \<Rightarrow> 's boost_fs \<Rightarrow> token_auth \<Rightarrow> int \<Rightarrow> 's \<Rightarrow> string \<Rightarrow> decoded_jwt \<Rightarrow> bool" where
  "trusted_token M D A now s t j \<longleftrightarrow>
     decode_token (num M) t = Inr j \<and>
     (\<exists>certs kid key alg aud.
        parse_claims (num M) (ifstream_read D (public_key_path A) s) = Inr certs \<and>
        get_key_id j = Inr kid \<and> signing_key (ssl M) (required_issuer A) (cert_at certs kid) = Inr key \<and>
        rs256 (ssl M) key [] [] [] = Inr alg \<and>
        get_audience j = Inr aud \<and> client_id A \<in> set aud \<and>
        acceptable M now (required_issuer A) alg j)"

lemma acceptable_issuer: "acceptable M now iss a j \<Longrightarrow> get_issuer j = Inr iss"
  by (simp add: acceptable_def get_issuer_def get_payload_claim_def get_claim_def)

lemma verified_token_iff:
  assumes "iterates_all M"
  shows "verified_token M D A now s t = Inr (Some j) \<longleftrightarrow>
    required_issuer A \<noteq> [] \<and> trusted_token M D A now s t j"
proof
  assume "verified_token M D A now s t = Inr (Some j)"
  then obtain certs kid issuer key aud alg where *: "decode_token (num M) t = Inr j"
    "parse_claims (num M) (ifstream_read D (public_key_path A) s) = Inr certs" "get_key_id j = Inr kid"
    "get_issuer j = Inr issuer" "issuer \<noteq> []" "signing_key (ssl M) issuer (cert_at certs kid) = Inr key"
    "get_audience j = Inr aud" "client_id A \<in> set aud" "rs256 (ssl M) key [] [] [] = Inr alg"
    "verify M now (server_verifier M (required_issuer A) alg) j = Inr ()"
    by (auto simp: verified_token_def Let_def bind_res_eq_Inr_conv verify_server set_member_def split: if_splits)
  then have acc: "acceptable M now (required_issuer A) alg j"
    using server_verify_iff [OF assms] by blast
  with * acceptable_issuer [OF this] show "required_issuer A \<noteq> [] \<and> trusted_token M D A now s t j"
    by (auto simp: trusted_token_def)
next
  assume a: "required_issuer A \<noteq> [] \<and> trusted_token M D A now s t j"
  then obtain certs kid key alg aud where *: "decode_token (num M) t = Inr j"
    "parse_claims (num M) (ifstream_read D (public_key_path A) s) = Inr certs" "get_key_id j = Inr kid"
    "signing_key (ssl M) (required_issuer A) (cert_at certs kid) = Inr key"
    "rs256 (ssl M) key [] [] [] = Inr alg" "get_audience j = Inr aud" "client_id A \<in> set aud"
    and acc: "acceptable M now (required_issuer A) alg j"
    unfolding trusted_token_def by blast
  from server_verify_iff [OF assms] acc have "verify M now (server_verifier M (required_issuer A) alg) j = Inr ()"
    by blast
  with a * acceptable_issuer [OF acc] show "verified_token M D A now s t = Inr (Some j)"
    by (simp add: verified_token_def verify_server set_member_def)
qed

text \<open>The part of an e-mail address behind its last at-sign, or all of it.\<close>

definition domain_of :: "string \<Rightarrow> string" where
  "domain_of email = (case find_last_of CHR ''@'' email of Some i \<Rightarrow> drop (Suc i) email | None \<Rightarrow> email)"

lemma email_domain_eq: "email_domain email = Inr (domain_of email)"
proof (cases "find_last_of CHR ''@'' email")
  case (Some i)
  then have "i < length email" by (auto dest: find_last_of_SomeD)
  with Some show ?thesis by (simp add: email_domain_def domain_of_def substr_from_def)
qed (simp add: email_domain_def domain_of_def substr_from_def)

definition level_of :: "string \<Rightarrow> auth_level" where
  "level_of email = (if domain_of email = ''g.ucla.edu'' then PRIVATE_AUTH else PUBLIC_AUTH)"

lemma level_of_granted [simp]: "level_of email \<noteq> NO_AUTH"
  by (simp add: level_of_def)

lemma email_level_Inr:
  "email_level j = Inr l \<longleftrightarrow> (\<exists>email. map_find (payload_claims j) ''email'' = Some (JString email) \<and> l = level_of email)"
proof (cases "map_find (payload_claims j) ''email''")
  case (Some c)
  then show ?thesis
    by (cases c) (auto simp: email_level_def claim_defs email_domain_eq level_of_def)
qed (simp add: email_level_def claim_defs)

lemma get_subject_Inr: "get_subject j = Inr u \<longleftrightarrow> map_find (payload_claims j) ''sub'' = Some (JString u)"
proof (cases "map_find (payload_claims j) ''sub''")
  case (Some c)
  then show ?thesis by (cases c) (auto simp: get_subject_def claim_defs)
qed (simp add: get_subject_def claim_defs)

lemma token_auth_granted:
  "TokenAuth_get_auth M D A now s t w = Inr (l, u) \<and> l \<noteq> NO_AUTH \<longleftrightarrow>
     (\<exists>j. verified_token M D A now s t = Inr (Some j) \<and> get_subject j = Inr u \<and> email_level j = Inr l)"
proof -
  have "email_level j \<noteq> Inr NO_AUTH" for j using email_level_Inr level_of_granted by metis
  then show ?thesis
    by (auto simp: TokenAuth_get_auth_def catching_def split: sum.splits fault.splits option.splits)
qed

text \<open>C7: \<^verbatim>\<open>TokenAuth::get_auth\<close> implements its specification. It grants a level exactly when an issuer is
  required and the token is trusted: its key id names a key in the key file, it is signed with that key by RS256,
  comes from the required issuer, is for this client and within its dates, whatever the order in which
  the verifier makes its checks. The user id is then the subject, and the level is private exactly for
  the e-mail domain of the university.\<close>

theorem token_auth_refines_spec:
  assumes "iterates_all M"
  shows "TokenAuth_get_auth M D A now s t w = Inr (l, u) \<and> l \<noteq> NO_AUTH \<longleftrightarrow>
    required_issuer A \<noteq> [] \<and>
    (\<exists>j email. trusted_token M D A now s t j \<and>
       map_find (payload_claims j) ''sub'' = Some (JString u) \<and>
       map_find (payload_claims j) ''email'' = Some (JString email) \<and> l = level_of email)"
  unfolding token_auth_granted verified_token_iff [OF assms] email_level_Inr get_subject_Inr by blast

end
