(* ===== verification/TokenProperties.thy ===== *)
theory TokenProperties
  imports TokenAuthority PosixDisk
begin

text \<open>
  From signing to access: a token that the issuer signs is accepted by the server, and nothing but a
  correctly signed token can lead to an undefined step. The instance at the end, a concrete OpenSSL with
  a transparent signature scheme, shows that the hypotheses can hold.
\<close>

section \<open>Signed tokens\<close>

abbreviation key_pair :: "openssl \<Rightarrow> evp_pkey \<Rightarrow> evp_pkey \<Rightarrow> bool" where
  "key_pair S priv pub \<equiv> rsa_key_pair S EVP_sha256 priv pub"

lemma signed_header_find:
  assumes "map_sorted (b_header b)" and "map_find (b_header b) ''alg'' = None"
  shows "map_find (signed_header algo b) k =
    (if k = ''alg'' then Some (JString (alg_name algo)) else map_find (b_header b) k)"
  using assms by (simp add: signed_header_def map_facts)

text \<open>A token of the issuer, within the times between which it holds; and one that also names its key and its
  audience.\<close>

definition timely :: "jwt_lib \<Rightarrow> int \<Rightarrow> string \<Rightarrow> builder \<Rightarrow> bool" where
  "timely M now iss b \<longleftrightarrow>
     map_sorted (b_header b) \<and> map_find (b_header b) ''alg'' = None \<and>
     map_find (b_payload b) ''iss'' = Some (JString iss) \<and>
     date_claim (tick_rate M) (b_payload b) ''exp'' (\<lambda>d. now \<le> d) \<and>
     date_claim (tick_rate M) (b_payload b) ''iat'' (\<lambda>d. d \<le> now) \<and>
     date_claim (tick_rate M) (b_payload b) ''nbf'' (\<lambda>d. d \<le> now)"

definition token_for :: "jwt_lib \<Rightarrow> int \<Rightarrow> string \<Rightarrow> string \<Rightarrow> string \<Rightarrow> builder \<Rightarrow> bool" where
  "token_for M now kid iss client b \<longleftrightarrow>
     timely M now iss b \<and> map_find (b_header b) ''kid'' = Some (JString kid) \<and>
     map_find (b_payload b) ''aud'' = Some (JString client)"

abbreviation rs256_with :: "evp_pkey \<Rightarrow> algorithm" where
  "rs256_with k \<equiv> Alg_rsa k EVP_sha256 ''RS256''"

text \<open>The claims that the server reads from a decoded token.\<close>

lemma decoded_claims:
  assumes "header_claims j = signed_header a b" and "payload_claims j = b_payload b"
  shows "timely M now iss b \<Longrightarrow> get_algorithm j = Inr (alg_name a)"
    and "token_for M now kid iss client b \<Longrightarrow> get_key_id j = Inr kid"
    and "token_for M now kid iss client b \<Longrightarrow> get_audience j = Inr [client]"
  using assms
  by (simp_all add: get_algorithm_def get_key_id_def get_audience_def timely_def token_for_def
      get_header_claim_def get_payload_claim_def get_claim_def signed_header_find)

text \<open>What one algorithm signed, a verifier with the matching algorithm accepts.\<close>

lemma signed_acceptable:
  assumes "sign M a b = Inr token"
    and "storable_claims (num M) (signed_header a b)" and "storable_claims (num M) (b_payload b)"
    and "matching (ssl M) a v" and "alg_name a = alg_name v" and "timely M now iss b"
  obtains j where "decode_token (num M) token = Inr j" and "header_claims j = signed_header a b"
    and "payload_claims j = b_payload b" and "acceptable M now iss v j"
proof -
  obtain ec where "sign_ec M a b = Inr (token, ec)" and ec: "\<not> is_error ec"
    using assms(1) by (auto simp: sign_def throwing_Inr)
  from decode_signed [OF this assms(2,3)] obtain j where j: "decode_token (num M) token = Inr j"
    "header_claims j = signed_header a b" "payload_claims j = b_payload b"
    "alg_sign (ssl M) a (get_header_base64 j @ ''.'' @ get_payload_base64 j) = Inr (get_signature j, ec)"
    by blast
  have "signed_by (ssl M) v j"
    using sign_verify [OF assms(4) j(4) ec] by (simp add: signed_by_def)
  with decoded_claims(1) [OF j(2,3) assms(6)] j(3) assms(5,6) have "acceptable M now iss v j"
    by (simp add: acceptable_def timely_def)
  with j(1-3) show ?thesis by (rule that)
qed

lemma signed_trusted:
  assumes "sign M (rs256_with priv) b = Inr token"
    and "storable_claims (num M) (signed_header (rs256_with priv) b)" and "storable_claims (num M) (b_payload b)"
    and "key_pair (ssl M) priv pub" and "token_for M now kid (required_issuer A) (client_id A) b"
    and "parse_claims (num M) (ifstream_read D (public_key_path A) s) = Inr certs"
    and "signing_key (ssl M) (required_issuer A) (cert_at certs kid) = Inr key"
    and "rs256 (ssl M) key [] [] [] = Inr (rs256_with pub)"
  shows "\<exists>j. trusted_token M D A now s token j \<and> payload_claims j = b_payload b"
proof -
  from signed_acceptable [OF assms(1-3), of "rs256_with pub" now "required_issuer A"] assms(4,5)
  obtain j where j: "decode_token (num M) token = Inr j" "header_claims j = signed_header (rs256_with priv) b"
    "payload_claims j = b_payload b" "acceptable M now (required_issuer A) (rs256_with pub) j"
    by (auto simp: token_for_def)
  with decoded_claims(2,3) [OF j(2,3) assms(5)] assms(6-8) have "trusted_token M D A now s token j"
    unfolding trusted_token_def by auto
  with j(3) show ?thesis by blast
qed

text \<open>C15: a token that the issuer makes is accepted. When the builder signs the claims with a private key
  by RS256, the key file names the matching public key under the token's key id, and the token is for this
  client and within its dates, \<^verbatim>\<open>get_auth\<close> returns the token's subject and the level of its e-mail
  address.\<close>

theorem issued_token_accepted:
  assumes "iterates_all M" and "required_issuer A \<noteq> []"
    and "sign M (rs256_with priv) b = Inr token"
    and "storable_claims (num M) (signed_header (rs256_with priv) b)" and "storable_claims (num M) (b_payload b)"
    and "key_pair (ssl M) priv pub" and "token_for M now kid (required_issuer A) (client_id A) b"
    and "parse_claims (num M) (ifstream_read D (public_key_path A) s) = Inr certs"
    and "signing_key (ssl M) (required_issuer A) (cert_at certs kid) = Inr key"
    and "rs256 (ssl M) key [] [] [] = Inr (rs256_with pub)"
    and "map_find (b_payload b) ''sub'' = Some (JString u)"
    and "map_find (b_payload b) ''email'' = Some (JString email)"
  shows "TokenAuth_get_auth M D A now s token w = Inr (level_of email, u)"
proof -
  obtain j where "trusted_token M D A now s token j" "payload_claims j = b_payload b"
    using signed_trusted [OF assms(3-10)] by blast
  with assms(2,11,12) have "verified_token M D A now s token = Inr (Some j)"
    "get_subject j = Inr u" "email_level j = Inr (level_of email)"
    by (auto simp: verified_token_iff [OF assms(1)] get_subject_Inr email_level_Inr)
  with token_auth_granted [of M D A now s token w "level_of email" u] show ?thesis by auto
qed

section \<open>Dates that overflow\<close>

text \<open>A fault of \<^verbatim>\<open>get_auth\<close> comes from \<^verbatim>\<open>verify\<close>.\<close>

lemma token_auth_fault_source:
  assumes "TokenAuth_get_auth M D A now s t w = Inl err"
  obtains j alg key where "decode_token (num M) t = Inr j" and "rs256 (ssl M) key [] [] [] = Inr alg"
    and "verify M now (server_verifier M (required_issuer A) alg) j = Inl err"
proof -
  have u: "\<not> (\<exists>x. err = Exn x)" using token_auth_fault [OF assms] by simp
  have "verified_token M D A now s t = Inl err"
    using assms u by (auto simp: TokenAuth_get_auth_def catching_def split: sum.splits fault.splits option.splits
        dest: string_claim_Exn(2) email_level_Exn)
  then show ?thesis
    using u that by (auto simp: verified_token_def Let_def bind_res_eq_Inl_conv verify_server split: if_splits
        dest: decode_token_Exn parse_claims_Exn string_claim_Exn signing_key_Exn get_audience_Exn rs256_Exn)
qed


lemma exp_overflow:
  assumes "get_algorithm j = Inr (alg_name a)" and "signed_by (ssl M) a j" and "iteration M = id"
    and "map_find (payload_claims j) ''exp'' = Some (JInt e)" and "int64_max < e * tick_rate M"
  shows "verify M now (server_verifier M iss a) j = Inl (UB Signed_overflow)"
proof -
  let ?v = "server_verifier M iss a"
  have "checks_in_order M (v_claims ?v) = v_claims ?v"
    by (simp add: checks_in_order_def assms(3) server_verifier_sel List.map_filter_simps map_find_def)
  moreover have "exp_check (tick_rate M) (context_at now ?v j ''exp'') No_error = Inl (UB Signed_overflow)"
    using assms(4,5)
    by (simp add: exp_check_def has_expires_at_def get_expires_at_def claim_defs as_date_def from_time_t_def checked64_def)
  ultimately have "run_checks (checks_in_order M (v_claims ?v)) (context_at now ?v j []) No_error =
      Inl (UB Signed_overflow)"
    by (simp add: server_verifier_sel(3))
  moreover have "alg_verify (ssl M) a (get_header_base64 j @ ''.'' @ get_payload_base64 j) (get_signature j) = No_error"
    using assms(2) unfolding signed_by_def by (rule alg_verify_code)
  ultimately show ?thesis
    using assms(1) by (simp add: verify_def verify_ec_def Let_def server_verifier_sel(2) map_find_def)
qed

section \<open>An instance\<close>

text \<open>Big-endian numbers.\<close>

definition bytes_nat :: "string \<Rightarrow> nat" where
  "bytes_nat = foldl (\<lambda>n c. n * 256 + of_char c) 0"

fun nat_bytes :: "nat \<Rightarrow> string" where
  "nat_bytes n = (if n = 0 then [] else nat_bytes (n div 256) @ [char_of (n mod 256)])"

declare nat_bytes.simps [simp del]

lemma nat_bytes_0 [simp]: "nat_bytes 0 = []"
  by (simp add: nat_bytes.simps)

lemma bytes_nat_snoc [simp]: "bytes_nat (xs @ [c]) = bytes_nat xs * 256 + of_char c"
  by (simp add: bytes_nat_def)

lemma bytes_nat_zeros [simp]: "bytes_nat (replicate k CHR 0x00 @ xs) = bytes_nat xs"
  by (induction k) (simp_all add: bytes_nat_def)

lemma bytes_nat_bytes [simp]: "bytes_nat (nat_bytes n) = n"
proof (induction n rule: nat_bytes.induct)
  case (1 n)
  then show ?case
    by (cases "n = 0") (simp add: bytes_nat_def, simp add: nat_bytes.simps [of n])
qed

lemma nat_bytes_nat: "nat_bytes (bytes_nat (CHR 0x01 # xs)) = CHR 0x01 # xs"
proof (induction xs rule: rev_induct)
  case Nil
  then show ?case by code_simp
next
  case (snoc c xs)
  have "bytes_nat (CHR 0x01 # xs) \<noteq> 0"
    using snoc by (metis list.distinct(1) nat_bytes.simps)
  moreover have "bytes_nat (CHR 0x01 # xs @ [c]) = bytes_nat (CHR 0x01 # xs) * 256 + of_char c"
    using bytes_nat_snoc [of "CHR 0x01 # xs" c] by simp
  moreover have "(of_char c :: nat) < 256" by simp
  ultimately show ?case
    by (subst nat_bytes.simps) (simp add: snoc)
qed

definition sample_ssl :: openssl where
  "sample_ssl = \<lparr>bio_new = True, bio_write = (\<lambda>t. int (length t)),
     pem_read_x509 = (\<lambda>t pw. Some t), x509_get_pubkey = Some, pem_write_pubkey = Some, pem_write_x509 = Some,
     d2i_x509 = Some, pem_read_pubkey = (\<lambda>t pw. Some t), pem_read_private_key = (\<lambda>t pw. Some t),
     hmac = (\<lambda>md k t. Some (k @ t)), md_ctx_create = True, sign_init = (\<lambda>md. True),
     sign_update = (\<lambda>md t. True), sign_final = (\<lambda>md t k. if k = ''PRIV'' then Some (''sig:'' @ t) else None),
     verify_init = (\<lambda>md. True), verify_update = (\<lambda>md t. True),
     verify_final = (\<lambda>md t sig k. if k = ''PUB'' \<and> sig = ''sig:'' @ t then 1 else 0),
     pkey_bits = (\<lambda>k. 256), pkey_size = (\<lambda>k. 32), pkey_get1_ec_key = Some, ec_key_check_key = (\<lambda>k. 1),
     set_rsa_padding = (\<lambda>k. 1), set_rsa_pss_saltlen = (\<lambda>k n. 1), digest_update = (\<lambda>md t. 1),
     digest_sign_init = (\<lambda>md k. 1), digest_sign_length = (\<lambda>md t k. Some 72),
     digest_sign_final = (\<lambda>ps md t k. case ps of
        Default_params \<Rightarrow> if k = ''PRIV'' then Some (''der:'' @ take 16 t) else None
      | Pss_params n \<Rightarrow> if k = ''PRIV'' then Some (take 32 (t @ replicate 32 CHR 0x00)) else None),
     digest_sign = (\<lambda>t k. if k = ''PRIV'' then Some (''ed:'' @ t) else None),
     digest_verify_init = (\<lambda>md k. 1),
     digest_verify_final = (\<lambda>ps md t sig k. case ps of
        Default_params \<Rightarrow> if k = ''PUB'' \<and> sig = ''der:'' @ take 16 t then 1 else 0
      | Pss_params n \<Rightarrow> if k = ''PUB'' \<and> sig = take 32 (t @ replicate 32 CHR 0x00) then 1 else 0),
     digest_verify = (\<lambda>t sig k. if k = ''PUB'' \<and> sig = ''ed:'' @ t then 1 else 0),
     d2i_ecdsa_sig = (\<lambda>der. Some (int (bytes_nat (CHR 0x01 # drop 4 der)), 1)), ecdsa_sig_new = True,
     i2d_ecdsa_sig = map_option (\<lambda>(r, s). ''der:'' @ tl (nat_bytes (nat r))),
     bn_bn2bin = (\<lambda>n. nat_bytes (nat \<bar>n\<bar>)), bn_bin2bn = (\<lambda>raw. Some (int (bytes_nat raw)))\<rparr>"

definition sample_lib :: jwt_lib where
  "sample_lib = \<lparr>ssl = sample_ssl, num = sample_c_double, tick_rate = 1000000000, iteration = id\<rparr>"

definition sample_token_auth :: token_auth where
  "sample_token_auth = \<lparr>client_id = ''app'', public_key_path = ''/keys'', required_issuer = ''https://idp''\<rparr>"

definition key_disk :: disk where
  "key_disk = [([''keys''], File (traits_serialize sample_c_double (JObject [(''k1'', JString ''PUB'')])))]"

definition sample_token :: "int \<Rightarrow> builder" where
  "sample_token expiry = set_key_id ''k1'' (set_issuer ''https://idp'' (set_subject ''u1'' (set_audience ''app''
     (set_payload_claim ''email'' (JString ''joe@g.ucla.edu'') (set_payload_claim ''exp'' (JInt expiry) new_builder)))))"

lemma iterates_all_sample: "iterates_all sample_lib"
  by (simp add: iterates_all_def sample_lib_def)

lemma sample_token_claims:
  "b_header (sample_token e) = [(''kid'', JString ''k1'')]"
  "b_payload (sample_token e) = [(''aud'', JString ''app''), (''email'', JString ''joe@g.ucla.edu''),
     (''exp'', JInt e), (''iss'', JString ''https://idp''), (''sub'', JString ''u1'')]"
  by (simp_all add: sample_token_def set_key_id_def set_issuer_def set_subject_def set_audience_def
      set_header_claim_def set_payload_claim_def new_builder_def)

lemma sample_token_signed: "\<exists>token. sign sample_lib (rs256_with ''PRIV'') (sample_token e) = Inr token"
  by (simp add: sign_def throwing_def sign_ec_def sign_with_def Let_def rsa_sign_def sample_lib_def sample_ssl_def
      throw_if_error.simps)

lemma sample_token_storable:
  "storable_claims (num sample_lib) (signed_header (rs256_with ''PRIV'') (sample_token e))"
  "int64_min \<le> e \<Longrightarrow> e \<le> int64_max \<Longrightarrow> storable_claims (num sample_lib) (b_payload (sample_token e))"
  by (simp_all add: storable_claims_def signed_header_def sample_token_claims map_find_def default_max_depths_def
      map_sorted_def)

lemma sample_payload_storable: "storable_claims (num sample_lib) (b_payload (sample_token 1000))"
  by (rule sample_token_storable) (simp_all add: int64_min_def int64_max_def)

lemma key_disk_keys:
  "parse_claims (num sample_lib) (ifstream_read posix_fs (public_key_path sample_token_auth) key_disk) =
     Inr [(''k1'', JString ''PUB'')]"
proof -
  have "ifstream_read posix_fs ''/keys'' key_disk = traits_serialize sample_c_double (JObject [(''k1'', JString ''PUB'')])"
    by (simp add: posix_fs_def key_disk_def resolve_def disk_at_def)
  then show ?thesis
    using parse_claims_serialized [of sample_c_double "[(''k1'', JString ''PUB'')]"]
    by (simp add: sample_lib_def sample_token_auth_def default_max_depths_def map_sorted_def)
qed

lemma sample_key:
  "signing_key (ssl sample_lib) (required_issuer sample_token_auth) (cert_at [(''k1'', JString ''PUB'')] ''k1'') = Inr ''PUB''"
  "rs256 (ssl sample_lib) ''PUB'' [] [] [] = Inr (rs256_with ''PUB'')"
  "key_pair (ssl sample_lib) ''PRIV'' ''PUB''"
  by (simp_all add: signing_key_def cert_at_def map_find_def sample_token_auth_def rs256_def rsa_def
      load_public_key_from_string_def load_public_key_from_string_ec_def throwing_def throw_if_error.simps
      sample_lib_def sample_ssl_def rsa_key_pair_def)

lemma sample_token_for:
  "now \<le> 1000000000000 \<Longrightarrow>
     token_for sample_lib now ''k1'' (required_issuer sample_token_auth) (client_id sample_token_auth) (sample_token 1000)"
  by (simp add: token_for_def timely_def sample_token_claims map_find_def map_sorted_def sample_token_auth_def date_claim_def
      as_date_def from_time_t_def checked64_def sample_lib_def int64_min_def int64_max_def)

theorem issued_token_accepted_witness:
  "\<exists>token. sign sample_lib (rs256_with ''PRIV'') (sample_token 1000) = Inr token
     \<and> TokenAuth_get_auth sample_lib posix_fs sample_token_auth 999000000000 key_disk token [] =
       Inr (PRIVATE_AUTH, ''u1'')"
proof -
  obtain token where t: "sign sample_lib (rs256_with ''PRIV'') (sample_token 1000) = Inr token"
    using sample_token_signed by blast
  have "level_of ''joe@g.ucla.edu'' = PRIVATE_AUTH" by code_simp
  with issued_token_accepted [OF iterates_all_sample _ t sample_token_storable(1) sample_payload_storable
      sample_key(3) sample_token_for key_disk_keys sample_key(1,2), where u = "''u1''" and email = "''joe@g.ucla.edu''" and w = "[]"
      and now = 999000000000] t
  show ?thesis
    by (simp add: sample_token_auth_def sample_token_claims map_find_def)
qed

text \<open>The same token with an expiry in the year 2286, in seconds, overflows the clock's nanoseconds.\<close>

lemma sample_overflow:
  assumes "sign sample_lib (rs256_with ''PRIV'') (sample_token 10000000000) = Inr token"
  shows "TokenAuth_get_auth sample_lib posix_fs sample_token_auth now key_disk token w = Inl (UB Signed_overflow)"
proof -
  let ?b = "sample_token 10000000000" and ?k = "''PRIV''"
  obtain ec where "sign_ec sample_lib (rs256_with ?k) ?b = Inr (token, ec)" and ec: "\<not> is_error ec"
    using assms by (auto simp: sign_def throwing_Inr)
  from decode_signed [OF this sample_token_storable(1) sample_token_storable(2)]
  obtain j where j: "decode_token (num sample_lib) token = Inr j"
    "header_claims j = signed_header (rs256_with ?k) ?b" "payload_claims j = b_payload ?b"
    "alg_sign (ssl sample_lib) (rs256_with ?k) (get_header_base64 j @ ''.'' @ get_payload_base64 j) = Inr (get_signature j, ec)"
    by (auto simp: int64_min_def int64_max_def)
  have reads: "get_algorithm j = Inr ''RS256''" "get_key_id j = Inr ''k1''" "get_issuer j = Inr ''https://idp''"
    "get_audience j = Inr [''app'']" "map_find (payload_claims j) ''exp'' = Some (JInt 10000000000)"
    unfolding get_algorithm_def get_key_id_def get_issuer_def get_audience_def get_header_claim_def
      get_payload_claim_def j(2,3)
    by (simp_all add: signed_header_def sample_token_claims map_find_def get_claim_def)
  have overflow: "int64_max < 10000000000 * tick_rate sample_lib"
    by (simp add: int64_max_def sample_lib_def)
  have "signed_by (ssl sample_lib) (rs256_with ''PUB'') j"
    using rsa_sign_verify [OF sample_key(3) _ ec] j(4) by (simp add: signed_by_def)
  with reads have "verify sample_lib now (server_verifier sample_lib ''https://idp'' (rs256_with ''PUB'')) j =
      Inl (UB Signed_overflow)"
    using overflow by (intro exp_overflow [where e = 10000000000]) (simp_all add: sample_lib_def)
  with j(1) reads key_disk_keys sample_key show ?thesis
    by (simp add: TokenAuth_get_auth_def catching_def verified_token_def verify_server set_member_def
        sample_token_auth_def)
qed


theorem token_auth_refines_spec_witness:
  "\<exists>token j. sign sample_lib (rs256_with ''PRIV'') (sample_token 1000) = Inr token
     \<and> trusted_token sample_lib posix_fs sample_token_auth 0 key_disk token j
     \<and> map_find (payload_claims j) ''sub'' = Some (JString ''u1'')"
proof -
  obtain token where t: "sign sample_lib (rs256_with ''PRIV'') (sample_token 1000) = Inr token"
    using sample_token_signed by blast
  obtain j where "trusted_token sample_lib posix_fs sample_token_auth 0 key_disk token j"
    "payload_claims j = b_payload (sample_token 1000)"
    using signed_trusted [OF t sample_token_storable(1) sample_payload_storable sample_key(3) sample_token_for
        key_disk_keys sample_key(1,2), where now = 0] by auto
  moreover from this have "TokenAuth_get_auth sample_lib posix_fs sample_token_auth 0 key_disk token [] =
      Inr (level_of ''joe@g.ucla.edu'', ''u1'') \<and> level_of ''joe@g.ucla.edu'' \<noteq> NO_AUTH"
    by (intro token_auth_refines_spec [OF iterates_all_sample, THEN iffD2])
      (auto simp: sample_token_auth_def sample_token_claims map_find_def)
  ultimately show ?thesis
    using t token_auth_refines_spec [OF iterates_all_sample, of posix_fs sample_token_auth 0 key_disk token "[]"
        "level_of ''joe@g.ucla.edu''" "''u1''"] by (auto simp: sample_token_claims map_find_def)
qed

theorem jwt_sign_decode_witness:
  "\<exists>token j. sign_ec sample_lib (hs256 ''key'') new_builder = Inr (token, No_error)
     \<and> decode_token (num sample_lib) token = Inr j \<and> header_claims j = [(''alg'', JString ''HS256'')]"
proof -
  obtain token where t: "sign_ec sample_lib (hs256 ''key'') new_builder = Inr (token, No_error)"
    by (simp add: sign_ec_def sign_with_def hs256_def hmacsha_sign_def sample_lib_def sample_ssl_def Let_def)
  moreover have "signed_header (hs256 ''key'') new_builder = [(''alg'', JString ''HS256'')]"
    by (simp add: signed_header_def new_builder_def hs256_def map_find_def)
  ultimately show ?thesis
    using jwt_sign_decode [OF t]
    by (auto simp: storable_claims_def default_max_depths_def map_sorted_def new_builder_def)
qed

section \<open>Tokens of every algorithm\<close>

text \<open>C9: whatever the algorithm, HMAC, RSA, RSA-PSS, ECDSA with its change between the DER and the
  fixed-size form of a signature, or EdDSA: a token that is signed with one key is accepted by a
  verifier that allows the same algorithm with the matching key and requires the token's issuer, within the
  token's dates.\<close>

theorem signed_token_verifies:
  assumes "iterates_all M" and "sign M a b = Inr token"
    and "storable_claims (num M) (signed_header a b)" and "storable_claims (num M) (b_payload b)"
    and "matching (ssl M) a v" and "alg_name a = alg_name v" and "timely M now iss b"
  shows "\<exists>j. decode_token (num M) token = Inr j \<and> payload_claims j = b_payload b \<and>
    verify M now (with_issuer (num M) iss (allow_algorithm v (new_verifier (tick_rate M)))) j = Inr ()"
proof -
  obtain j where "decode_token (num M) token = Inr j" "payload_claims j = b_payload b" "acceptable M now iss v j"
    using signed_acceptable [OF assms(2-7)] by blast
  then show ?thesis unfolding verify_server server_verify_iff [OF assms(1)] by blast
qed

abbreviation es256_with :: "evp_pkey \<Rightarrow> algorithm" where
  "es256_with k \<equiv> Alg_ecdsa k EVP_sha256 ''ES256'' 64"

lemma sample_es256:
  "es256 sample_ssl [] ''PRIV'' [] [] = Inr (es256_with ''PRIV'')"
  "es256 sample_ssl ''PUB'' [] [] [] = Inr (es256_with ''PUB'')"
  by (simp_all add: es256_def ecdsa_def sample_ssl_def load_private_ec_key_from_string_def
      load_private_ec_key_from_string_ec_def load_public_ec_key_from_string_def load_public_ec_key_from_string_ec_def
      throwing_def throw_if_error.simps check_private_key_def check_public_key_def)

lemma sample_ec_pair: "matching sample_ssl (es256_with ''PRIV'') (es256_with ''PUB'')"
  by (simp add: ec_key_pair_def bn_codec_def sample_ssl_def nat_bytes_nat)

lemma length_nat_bytes: "n < 256 ^ k \<Longrightarrow> length (nat_bytes n) \<le> k"
proof (induction n arbitrary: k rule: nat_bytes.induct)
  case (1 n)
  then show ?case
    by (cases k) (auto simp: nat_bytes.simps [of n] less_mult_imp_div_less mult.commute)
qed

lemma sample_ec_signed: "\<exists>token. sign sample_lib (es256_with ''PRIV'') (sample_token e) = Inr token"
proof -
  have "length (nat_bytes 1) \<le> 32" by (rule length_nat_bytes) simp
  then have "\<exists>sig. ecdsa_sign sample_ssl ''PRIV'' EVP_sha256 64 t = Inr (sig, No_error)" for t
    by (simp add: ecdsa_sign_def der_to_p1363_signature_def sample_ssl_def bn2raw_def nat_bytes_nat Let_def)
  then obtain f where "ecdsa_sign sample_ssl ''PRIV'' EVP_sha256 64 t = Inr (f t, No_error)" for t by metis
  then show ?thesis
    by (simp add: sign_def throwing_def sign_ec_def sign_with_def Let_def sample_lib_def throw_if_error.simps)
qed

theorem signed_token_verifies_witness:
  "\<exists>token j. sign sample_lib (es256_with ''PRIV'') (sample_token 1000) = Inr token \<and>
     decode_token (num sample_lib) token = Inr j \<and>
     verify sample_lib 0 (with_issuer (num sample_lib) ''https://idp'' (allow_algorithm (es256_with ''PUB'')
       (new_verifier (tick_rate sample_lib)))) j = Inr ()"
proof -
  obtain token where t: "sign sample_lib (es256_with ''PRIV'') (sample_token 1000) = Inr token"
    using sample_ec_signed by blast
  have "storable_claims (num sample_lib) (signed_header (es256_with ''PRIV'') (sample_token 1000))"
    by (simp add: storable_claims_def signed_header_def sample_token_claims map_find_def default_max_depths_def
        map_sorted_def)
  moreover have "timely sample_lib 0 ''https://idp'' (sample_token 1000)"
    using sample_token_for [of 0] by (simp add: token_for_def sample_token_auth_def)
  moreover have "matching (ssl sample_lib) (es256_with ''PRIV'') (es256_with ''PUB'')"
    using sample_ec_pair by (simp add: sample_lib_def)
  ultimately show ?thesis
    using signed_token_verifies [OF iterates_all_sample t _ sample_payload_storable, of "es256_with ''PUB''" 0 "''https://idp''"] t
    by auto
qed

section \<open>The verifier\<close>

text \<open>C8: the verifier that the server builds accepts a token exactly when the token says RS256, or whatever the
  allowed algorithm is called, its signature verifies, the issuer claim is the required string, and each of
  the three dates is absent or an integer in range on the right side of the clock.\<close>

theorem verifier_accepts_iff:
  assumes "iterates_all M"
  shows "verify M now (with_issuer (num M) iss (allow_algorithm a (new_verifier (tick_rate M)))) j = Inr () \<longleftrightarrow>
    get_algorithm j = Inr (alg_name a) \<and>
    \<not> is_error (alg_verify (ssl M) a (get_header_base64 j @ ''.'' @ get_payload_base64 j) (get_signature j)) \<and>
    map_find (payload_claims j) ''iss'' = Some (JString iss) \<and>
    date_claim (tick_rate M) (payload_claims j) ''exp'' (\<lambda>d. now \<le> d) \<and>
    date_claim (tick_rate M) (payload_claims j) ''iat'' (\<lambda>d. d \<le> now) \<and>
    date_claim (tick_rate M) (payload_claims j) ''nbf'' (\<lambda>d. d \<le> now)"
  unfolding verify_server server_verify_iff [OF assms] acceptable_def signed_by_def ..

theorem verifier_accepts_iff_witness:
  "verify sample_lib 5 (with_issuer (num sample_lib) ''me'' (allow_algorithm (hs256 ''key'') (new_verifier (tick_rate sample_lib))))
     \<lparr>header_claims = [(''alg'', JString ''HS256'')], payload_claims = [(''iss'', JString ''me'')], get_token = [],
      get_header = [], get_header_base64 = ''h'', get_payload = [], get_payload_base64 = ''p'',
      get_signature = ''keyh.p'', get_signature_base64 = []\<rparr> = Inr ()"
  unfolding verifier_accepts_iff [OF iterates_all_sample]
  by (simp add: get_algorithm_def get_header_claim_def get_claim_def map_find_def hs256_def hmacsha_verify_iff
      sample_lib_def sample_ssl_def date_claim_def)

text \<open>The byte-by-byte comparison that never stops early decides exactly whether the signature is the HMAC
  of the data, and a failing HMAC is never taken for a match.\<close>

lemma hmac_compare_exact:
  "alg_verify S (Alg_hmacsha secret md name) data sig = No_error \<longleftrightarrow> hmac S md secret data = Some sig"
  using hmacsha_verify_iff [of S secret md data sig] alg_verify_code [of S "Alg_hmacsha secret md name" data sig]
  by auto

end
