(* ===== verification/ApiProperties.thy ===== *)
theory ApiProperties
  imports ApiTheorems
begin

text \<open>
  The properties of the CRUD handler \<^verbatim>\<open>RequestHandlerAPI\<close>, for every \<^verbatim>\<open>FileSystem\<close> that
  keeps the contracts \<open>file_store\<close> or \<open>content_store\<close>, each with an instance on the in-memory disk
  or on \<^verbatim>\<open>FakeFileSsystem\<close>.
\<close>

section \<open>The instance\<close>

definition sample_api :: api_handler where
  "sample_api = \<lparr>base_path = ''/data'', prefix_length = 4\<rparr>"

definition sample_disk :: disk where
  "sample_disk = [([''data''], Dir), ([''data'', ''Shoes''], Dir), ([''data'', ''Shoes'', ''1''], File ''red'')]"

definition sample_state :: "disk api_state" where
  "sample_state = \<lparr>entity_id_map = [(''Shoes'', [1])], store = sample_disk\<rparr>"

abbreviation real_fs :: "disk filesystem" where
  "real_fs \<equiv> RealFileSystem posix_fs"

lemma sample_inv: "index_inv (entity_id_map sample_state)" "disk_ok (store sample_state)"
  by (auto simp: sample_state_def sample_disk_def index_inv_def map_find_def map_sorted_def
      disk_ok_def disk_at_def split: if_splits)

lemma sample_laws: "path_laws posix_path (base_path sample_api)"
  by (rule path_laws_posix) (simp_all add: sample_api_def)

lemma sample_names: "entity_name ''Shoes''" "entity_name ''Hats''"
  "prefix_length sample_api = length ''/api''"
  by (simp_all add: entity_name_def sample_api_def)

lemma to_string_1: "to_string 1 = ''1''" and to_string_2: "to_string 2 = ''2''"
  and to_string_7: "to_string 7 = ''7''"
  by code_simp+

lemmas sample_paths = item_path_def entity_path_def sample_api_def posix_path_def posix_append_def
  to_string_1 to_string_2 to_string_7 resolve_def

lemma sample_hats:
  "\<not> fs_exists real_fs (entity_path posix_path sample_api ''Hats'') (store sample_state)"
  "disk_makeable (entity_path posix_path sample_api ''Hats'') (store sample_state)"
  "directly_inside (entity_path posix_path sample_api ''Hats'') (item_path posix_path sample_api ''Hats'' 1)"
  "directly_inside (entity_path posix_path sample_api ''Hats'') (item_path posix_path sample_api ''Hats'' 7)"
  by (simp_all add: real_defs sample_state_def sample_disk_def sample_paths disk_makeable_def
      directly_inside_def disk_at_def)

lemma sample_shoes:
  "fs_exists real_fs (item_path posix_path sample_api ''Shoes'' 1) (store sample_state)"
  "fs_is_regular_file real_fs (item_path posix_path sample_api ''Shoes'' 1) (store sample_state)"
  by (simp_all add: real_defs sample_state_def sample_disk_def sample_paths disk_at_def is_file_def)

lemma sample_ids: "next_free (ids_of (entity_id_map sample_state) ''Hats'') 1 = 1"
  by (simp add: sample_state_def ids_of_def map_find_def next_free.simps set_member_def)

lemma int_range: "int_min \<le> 1" "1 \<le> int_max" "int_min \<le> 7" "7 \<le> int_max"
  by (simp_all add: int_min_def int_max_def)

section \<open>What a client observes over several requests\<close>

text \<open>C4: after a successful POST the response announces the new identifier, and a GET of that item
  returns the posted body. The entity's directory must be indexed if it exists, and creatable
  otherwise.\<close>

theorem post_then_get:
  assumes "content_store FS invar writable makeable inside indep"
    and "payload_ok B" and "path_laws P (base_path h)" and "entity_name e"
    and "prefix_length h = length loc"
    and "invar (store st)" and "index_inv (entity_id_map st)"
    and "i = next_free (ids_of (entity_id_map st) e) 1" and "i \<le> int_max"
    and "fs_exists FS (entity_path P h e) (store st) \<Longrightarrow>
      map_find (entity_id_map st) e \<noteq> None \<and> writable (item_path P h e i) (store st)"
    and "\<not> fs_exists FS (entity_path P h e) (store st) \<Longrightarrow>
      makeable (entity_path P h e) (store st) \<and> inside (entity_path P h e) (item_path P h e i)"
  shows "\<exists>res1 st1 res2 st2.
      API_get_response B P FS h (entity_request ''POST'' loc e text) res st = Inr (True, res1, st1)
    \<and> result res1 = created \<and> body res1 = created_body i
    \<and> API_get_response B P FS h (item_request ''GET'' loc e i t2) res1 st1 = Inr (True, res2, st2)
    \<and> result res2 = ok \<and> body res2 = text"
  using content_store.API_post_then_get [OF assms(1-9)] assms(10,11) by blast

theorem post_then_get_witness:
  "\<exists>res1 st1 res2 st2.
      API_get_response doc_beast posix_path real_fs sample_api
        (entity_request ''POST'' ''/api'' ''Hats'' ''felt'') fresh_response sample_state =
        Inr (True, res1, st1)
    \<and> result res1 = created \<and> body res1 = created_body 1
    \<and> API_get_response doc_beast posix_path real_fs sample_api
        (item_request ''GET'' ''/api'' ''Hats'' 1 '''') res1 st1 = Inr (True, res2, st2)
    \<and> result res2 = ok \<and> body res2 = ''felt''"
  by (rule post_then_get [OF real.content_store_axioms payload_ok_doc_beast sample_laws
        sample_names(2,3) sample_inv(2,1) sample_ids [symmetric] int_range(2)])
    (use sample_hats in simp_all)

text \<open>C16: a PUT with a non-zero identifier stores the body: the next GET of the item returns it.\<close>

theorem put_then_get:
  assumes "content_store FS invar writable makeable inside indep"
    and "payload_ok B" and "path_laws P (base_path h)" and "entity_name e"
    and "prefix_length h = length loc" and "int_min \<le> i" and "i \<le> int_max" and "i \<noteq> 0"
    and "invar (store st)" and "index_inv (entity_id_map st)"
    and "fs_exists FS (entity_path P h e) (store st) \<Longrightarrow> writable (item_path P h e i) (store st)"
    and "\<not> fs_exists FS (entity_path P h e) (store st) \<Longrightarrow>
      makeable (entity_path P h e) (store st) \<and> inside (entity_path P h e) (item_path P h e i)"
  shows "\<exists>res1 st1 res2 st2.
      API_get_response B P FS h (item_request ''PUT'' loc e i text) res st = Inr (True, res1, st1)
    \<and> result res1 = ok
    \<and> API_get_response B P FS h (item_request ''GET'' loc e i t2) res1 st1 = Inr (True, res2, st2)
    \<and> result res2 = ok \<and> body res2 = text"
  using content_store.API_put_then_get [OF assms(1-10)] assms(11,12) by blast

theorem put_then_get_witness:
  "\<exists>res1 st1 res2 st2.
      API_get_response doc_beast posix_path real_fs sample_api
        (item_request ''PUT'' ''/api'' ''Hats'' 7 ''felt'') fresh_response sample_state =
        Inr (True, res1, st1)
    \<and> result res1 = ok
    \<and> API_get_response doc_beast posix_path real_fs sample_api
        (item_request ''GET'' ''/api'' ''Hats'' 7 '''') res1 st1 = Inr (True, res2, st2)
    \<and> result res2 = ok \<and> body res2 = ''felt''"
  by (rule put_then_get [OF real.content_store_axioms payload_ok_doc_beast sample_laws
        sample_names(2,3) int_range(3,4) _ sample_inv(2,1)])
    (use sample_hats in simp_all)



section \<open>Single requests\<close>



text \<open>C19: a request that the handler refuses leaves every file and directory as it was, and the index
  can only lose the identifier of an item that is not there.\<close>

theorem refused_request_harmless:
  assumes "index_inv (entity_id_map st)"
    and "API_get_response B P FS h req res st = Inr (False, res', st')"
  shows "store st' = store st \<and> index_rel (entity_id_map st') \<subseteq> index_rel (entity_id_map st)"
  using API_refused_store [OF assms(2)] API_refused_index [OF assms] by blast

lemma sample_refused:
  "\<exists>res' st'. API_get_response doc_beast posix_path real_fs sample_api
     (item_request ''GET'' ''/api'' ''Shoes'' 7 []) fresh_response sample_state = Inr (False, res', st')"
  by (simp add: API_retrieve [OF payload_ok_doc_beast sample_names(1,3) int_range(3,4)])
    (simp add: real_defs sample_state_def sample_disk_def sample_paths disk_at_def)

theorem refused_request_harmless_witness:
  "\<exists>res' st'. API_get_response doc_beast posix_path real_fs sample_api
     (item_request ''GET'' ''/api'' ''Shoes'' 7 []) fresh_response sample_state = Inr (False, res', st')
   \<and> store st' = sample_disk \<and> index_rel (entity_id_map st') \<subseteq> {(''Shoes'', 1)}"
proof -
  obtain res' st' where g: "API_get_response doc_beast posix_path real_fs sample_api
     (item_request ''GET'' ''/api'' ''Shoes'' 7 []) fresh_response sample_state = Inr (False, res', st')"
    using sample_refused by blast
  have "index_rel (entity_id_map sample_state) = {(''Shoes'', 1)}"
    by (auto simp: index_rel_def sample_state_def map_find_def set_member_def split: if_splits)
  with g refused_request_harmless [OF sample_inv(1) g] show ?thesis
    by (simp add: sample_state_def)
qed


text \<open>The third case happens: \<^verbatim>\<open>Shoes\<close> was on disk before the index was built.\<close>

lemma unindexed_post_fault:
  "API_get_response doc_beast posix_path real_fs sample_api (entity_request ''POST'' ''/api'' ''Shoes'' t)
     res (sample_state\<lparr>entity_id_map := []\<rparr>) = Inl (UB End_iterator_deref)"
  using item_path_alt(3) [OF sample_laws sample_names(1)]
  by (simp add: API_get_response_def parse_entity_target [OF sample_names(1,3)] API_post_def
      get_next_id_def map_find_def)
    (simp add: real_defs sample_state_def sample_disk_def sample_paths disk_at_def)


text \<open>The listing of an entity whose items are indexed is the ascending list of their
  identifiers, whenever its name does not begin with a number.\<close>

lemma get_lists_identifiers:
  assumes "payload_ok B" and "entity_name e" and "prefix_length h = length loc"
    and "stoi e = Inl x" and "fs_exists FS (entity_path P h e) (store st)"
    and "index_inv (entity_id_map st)" and "map_find (entity_id_map st) e = Some ids" and "ids \<noteq> []"
  shows "\<exists>res'. API_get_response B P FS h (entity_request ''GET'' loc e text) res st = Inr (True, res', st)
    \<and> result res' = ok \<and> body res' = ''['' @ join_commas ids @ '']'' \<and> ascending ids"
  using assms
  by (simp add: API_get_response_def parse_entity_target API_get_def payload_okD listing_nonempty
      index_inv_def)

text \<open>An entity whose last item was deleted is listed as a lone bracket.\<close>

lemma get_lists_empty_entity:
  assumes "payload_ok B" and "entity_name e" and "prefix_length h = length loc"
    and "stoi e = Inl x" and "fs_exists FS (entity_path P h e) (store st)"
    and "map_find (entity_id_map st) e = Some []"
  shows "\<exists>res'. API_get_response B P FS h (entity_request ''GET'' loc e text) res st = Inr (True, res', st)
    \<and> body res' = '']''"
  using assms
  by (simp add: API_get_response_def parse_entity_target API_get_def payload_okD listing_empty)

end
