(* ===== verification/Factories.thy ===== *)
theory Factories
  imports TokenProperties ApiProperties
begin

text \<open>
  \<^verbatim>\<open>src/request_handler_factory.cc\<close> and the dispatch over \<^verbatim>\<open>RequestHandler\<close>. A factory is
  the data its C++ object holds; the two API factories own the entity index, which their handlers
  update through a pointer, so handling a request returns the new index. \<open>env\<close> collects the
  parameters that stand for libraries, the \<^verbatim>\<open>FileSystem\<close> object the server was given, and the
  system clock, which is read from the same outside state as the disk.
\<close>

section \<open>Objects\<close>

datatype auth_object = TokenAuth string string string | FakeAuth

record 's env =
  env_beast :: beast
  env_path :: path_lib
  env_disk :: "'s boost_fs"
  env_fs :: "'s filesystem"
  env_jwt :: jwt_lib
  env_now :: "'s \<Rightarrow> int"

datatype factory =
    StaticHandlerFactory path
  | EchoHandlerFactory
  | NotFoundHandlerFactory
  | APIHandlerFactory path entity_index
  | SecureAPIHandlerFactory path entity_index auth_object
  | SleepHandlerFactory
  | HealthHandlerFactory
  | LoginHandlerFactory path

datatype handler =
    RequestHandlerStatic static_handler
  | RequestHandlerEcho
  | RequestHandlerNotFound
  | RequestHandlerAPI api_handler
  | SecureHandlerAPI secure_handler auth_object
  | RequestHandlerSleep
  | RequestHandlerHealth
  | RequestHandlerLogin path

fun get_name :: "handler \<Rightarrow> string" where
  "get_name RequestHandlerEcho = ''Echo''"
| "get_name RequestHandlerHealth = ''Health''"
| "get_name (RequestHandlerStatic _) = ''Static''"
| "get_name RequestHandlerNotFound = ''NotFound''"
| "get_name (RequestHandlerAPI _) = ''API''"
| "get_name (SecureHandlerAPI _ _) = ''SecureAPI''"
| "get_name RequestHandlerSleep = ''Sleep''"
| "get_name (RequestHandlerLogin _) = ''Login''"

section \<open>Building the index from the disk\<close>

fun scan_ids :: "'s env \<Rightarrow> path list \<Rightarrow> 's \<Rightarrow> int std_set \<Rightarrow> int std_set" where
  "scan_ids E [] s currIDs = currIDs"
| "scan_ids E (subentry # subentries) s currIDs =
     scan_ids E subentries s
       (if bfs_is_regular_file (env_disk E) subentry s
        then (case stoi (path_filename (env_path E) subentry) of
                Inr eid \<Rightarrow> set_insert eid currIDs
              | Inl _ \<Rightarrow> currIDs)
        else currIDs)"

definition Insert_ID :: "'s env \<Rightarrow> path \<Rightarrow> 's \<Rightarrow> entity_index \<Rightarrow> entity_index" where
  "Insert_ID E entry s m =
     map_insert (path_filename (env_path E) entry)
       (scan_ids E (bfs_directory_iterator (env_disk E) entry s) s []) m"

fun scan_entries :: "'s env \<Rightarrow> path list \<Rightarrow> 's \<Rightarrow> entity_index \<Rightarrow> entity_index" where
  "scan_entries E [] s m = m"
| "scan_entries E (entry # entries) s m =
     scan_entries E entries s
       (if bfs_is_directory (env_disk E) entry s then Insert_ID E entry s m else m)"

text \<open>\<^verbatim>\<open>scanFS\<close>, called from the constructor with an empty index.\<close>

definition scanFS :: "'s env \<Rightarrow> path \<Rightarrow> 's \<Rightarrow> (bool \<times> entity_index \<times> 's) res" where
  "scanFS E root s =
     (if \<not> bfs_exists (env_disk E) root s
      then bind_res (bfs_create_directory (env_disk E) root s) (\<lambda>(_, s'). Inr (False, [], s'))
      else Inr (True, scan_entries E (bfs_directory_iterator (env_disk E) root s) s [], s))"

section \<open>create\<close>

fun create :: "'s env \<Rightarrow> factory \<Rightarrow> string \<Rightarrow> 's \<Rightarrow> (handler \<times> 's) res" where
  "create E (StaticHandlerFactory root) location s =
     Inr (RequestHandlerStatic
       \<lparr>static_base_path = root, static_prefix_length = length location\<rparr>, s)"
| "create E EchoHandlerFactory location s = Inr (RequestHandlerEcho, s)"
| "create E NotFoundHandlerFactory location s = Inr (RequestHandlerNotFound, s)"
| "create E HealthHandlerFactory location s = Inr (RequestHandlerHealth, s)"
| "create E (APIHandlerFactory root m) location s =
     Inr (RequestHandlerAPI \<lparr>base_path = root, prefix_length = length location\<rparr>, s)"
| "create E (SecureAPIHandlerFactory root m a) location s =
     bind_res (SecureRequestHandlerAPI (env_fs E) root (length location) s) (\<lambda>(h, s').
       Inr (SecureHandlerAPI h a, s'))"
| "create E SleepHandlerFactory location s = Inr (RequestHandlerSleep, s)"
| "create E (LoginHandlerFactory root) location s = Inr (RequestHandlerLogin root, s)"

section \<open>get_auth of an authorizer\<close>

fun get_auth :: "'s env \<Rightarrow> auth_object \<Rightarrow> 's \<Rightarrow> authorizer" where
  "get_auth E (TokenAuth cid key_path issuer) s =
     TokenAuth_get_auth (env_jwt E) (env_disk E)
       \<lparr>client_id = cid, public_key_path = key_path, required_issuer = issuer\<rparr> (env_now E s) s"
| "get_auth E FakeAuth s = FakeAuth_get_auth"

lemma authority_get_auth: "authority (get_auth E a s)"
  by (cases a) (simp_all add: tokenauth.authority_axioms fakeauth.authority_axioms)

interpretation dispatch: authority "get_auth E a s" for E a s
  by (rule authority_get_auth)

section \<open>get_response of a created handler\<close>

fun factory_index :: "factory \<Rightarrow> entity_index" where
  "factory_index (APIHandlerFactory _ m) = m"
| "factory_index (SecureAPIHandlerFactory _ m _) = m"
| "factory_index _ = []"

fun set_factory_index :: "entity_index \<Rightarrow> factory \<Rightarrow> factory" where
  "set_factory_index m (APIHandlerFactory root _) = APIHandlerFactory root m"
| "set_factory_index m (SecureAPIHandlerFactory root _ a) = SecureAPIHandlerFactory root m a"
| "set_factory_index m f = f"

text \<open>A stateless handler leaves index and disk as they are.\<close>

definition keep_state ::
  "'s api_state \<Rightarrow> bool \<times> http_response \<Rightarrow> bool \<times> http_response \<times> 's api_state" where
  "keep_state st r = (fst r, snd r, st)"

fun get_response ::
  "'s env \<Rightarrow> handler \<Rightarrow> http_request \<Rightarrow> http_response \<Rightarrow> 's api_state \<Rightarrow>
   (bool \<times> http_response \<times> 's api_state) res" where
  "get_response E RequestHandlerEcho req res st =
     Inr (keep_state st (Echo_get_response (env_beast E) req res))"
| "get_response E RequestHandlerHealth req res st =
     Inr (keep_state st (Health_get_response (env_beast E) req res))"
| "get_response E RequestHandlerNotFound req res st =
     Inr (keep_state st (NotFound_get_response (env_beast E) req res))"
| "get_response E RequestHandlerSleep req res st =
     Inr (keep_state st (Sleep_get_response (env_beast E) req res))"
| "get_response E (RequestHandlerStatic h) req res st =
     bind_res (Static_get_response (env_beast E) (env_path E) (env_disk E) h req res (store st))
       (\<lambda>r. Inr (keep_state st r))"
| "get_response E (RequestHandlerLogin base) req res st =
     Inr (keep_state st
       (Login_get_response (env_beast E) (env_path E) (env_disk E) base req res (store st)))"
| "get_response E (RequestHandlerAPI h) req res st =
     API_get_response (env_beast E) (env_path E) (env_fs E) h req res st"
| "get_response E (SecureHandlerAPI h a) req res st =
     SecureAPI_get_response (env_beast E) (env_path E) (env_fs E) (get_auth E a (store st)) h req res st"

section \<open>Properties shared by all handlers\<close>

lemma Login_framed:
  "payload_ok B \<Longrightarrow> well_framed (snd (Login_get_response B P D base req res s))"
  by (simp add: Login_get_response_def serve_file_framed reject_method_framed)

lemma get_response_framed:
  assumes "payload_ok (env_beast E)" and "get_response E h req res st = Inr (b, res', st')"
  shows "well_framed res'"
proof (cases h)
  case (RequestHandlerLogin base)
  with assms Login_framed [OF assms(1)] show ?thesis by (auto simp: keep_state_def)
qed (use assms in \<open>auto simp: keep_state_def bind_res_eq_Inr_conv well_framed_prepare
      Echo_get_response_def Health_get_response_def NotFound_get_response_def
      Sleep_get_response_def dest: Static_framed API_framed secure_framed\<close>)

lemma get_response_index_inv:
  assumes "index_inv (entity_id_map st)" and "get_response E h req res st = Inr (b, res', st')"
  shows "index_inv (entity_id_map st')"
  using assms
  by (cases h) (auto simp: keep_state_def bind_res_eq_Inr_conv dest: API_index_inv secure_index_inv)

lemma ascending_scan_ids: "ascending ids \<Longrightarrow> ascending (scan_ids E ps s ids)"
  by (induction E ps s ids rule: scan_ids.induct)
    (auto simp: ascending_set_insert split: sum.splits)

lemma set_scan_ids:
  "set (scan_ids E ps s ids) = set ids \<union>
     {i. \<exists>p \<in> set ps. bfs_is_regular_file (env_disk E) p s
        \<and> stoi (path_filename (env_path E) p) = Inr i}"
  by (induction E ps s ids rule: scan_ids.induct) (auto split: sum.splits if_splits)

lemma index_inv_scan_entries: "index_inv m \<Longrightarrow> index_inv (scan_entries E ps s m)"
  by (induction E ps s m rule: scan_entries.induct)
    (auto simp: Insert_ID_def index_inv_insert ascending_scan_ids)

lemma index_inv_Nil [simp]: "index_inv []"
  by (simp add: index_inv_def map_find_def)

lemma scanFS_index_inv: "scanFS E root s = Inr (b, m, s') \<Longrightarrow> index_inv m"
  by (auto simp: scanFS_def bind_res_eq_Inr_conv index_inv_scan_entries split: if_splits)

text \<open>The index of a scan, entity by entity.\<close>

lemma scan_entries_find:
  assumes "map_sorted m"
  shows "map_find (scan_entries E ps s m) e =
    (case map_find m e of Some v \<Rightarrow> Some v
     | None \<Rightarrow> map_option (\<lambda>p. scan_ids E (bfs_directory_iterator (env_disk E) p s) s [])
         (find (\<lambda>p. bfs_is_directory (env_disk E) p s \<and> path_filename (env_path E) p = e) ps))"
  using assms
proof (induction E ps s m rule: scan_entries.induct)
  case (1 E s m)
  then show ?case by (simp split: option.splits)
next
  case (2 E entry entries s m)
  then show ?case
    by (auto simp: Insert_ID_def map_facts split: option.splits)
qed

section \<open>Properties\<close>

definition sample_env :: "disk env" where
  "sample_env = \<lparr>env_beast = doc_beast, env_path = posix_path, env_disk = posix_fs,
     env_fs = RealFileSystem posix_fs, env_jwt = sample_lib, env_now = (\<lambda>_. 0)\<rparr>"

lemma find_distinct_key:
  assumes "distinct (map g ps)"
  shows "find (\<lambda>p. Q p \<and> g p = e) ps = Some p \<longleftrightarrow> p \<in> set ps \<and> Q p \<and> g p = e"
  using assms by (induction ps) (auto simp: image_iff)



end
