(* ===== verification/ConfigParser.thy ===== *)
theory ConfigParser
  imports Containers
begin

text \<open>
  The nginx-style configuration of \<^verbatim>\<open>src/config_parser.cc\<close>: the parsed tree
  (\<^verbatim>\<open>NginxConfig\<close>, \<^verbatim>\<open>NginxConfigStatement\<close>), its printer \<^verbatim>\<open>ToString\<close>, the
  tokenizer \<^verbatim>\<open>ParseToken\<close>, the parser \<^verbatim>\<open>Parse\<close> with its stack of open blocks, and the
  four look-ups of a directive inside the \<^verbatim>\<open>server\<close> block.

  An input stream is the list of the characters that are still to be read; \<^verbatim>\<open>get\<close> takes the
  head, \<^verbatim>\<open>unget\<close> puts it back, \<^verbatim>\<open>peek\<close> looks at it, and the empty list is end of file.
  The \<^verbatim>\<open>std::stack<NginxConfig*>\<close> of the parser points into the tree that is being built; here
  each open block is a frame holding its statements, innermost first, and \<open>collapse\<close> is the
  tree the pointers describe. The root stays reachable through the out-parameter when the code pops
  it off its stack, which \<open>root_popped\<close> records; using the stack after that is undefined.
\<close>

section \<open>The parsed tree\<close>

datatype nginx_config = NginxConfig (statements: "nginx_statement list")
and nginx_statement =
  NginxConfigStatement (tokens: "string list") (child_block: "nginx_config option")

definition indentation :: "nat \<Rightarrow> string" where
  "indentation depth = concat (replicate depth ''  '')"

fun join_tokens :: "string list \<Rightarrow> string" where
  "join_tokens [] = ''''"
| "join_tokens [t] = t"
| "join_tokens (t # ts) = t @ '' '' @ join_tokens ts"

fun NginxConfig_ToString :: "nat \<Rightarrow> nginx_config \<Rightarrow> string"
  and NginxConfigStatement_ToString :: "nat \<Rightarrow> nginx_statement \<Rightarrow> string" where
  "NginxConfig_ToString depth (NginxConfig ss) =
     concat (map (NginxConfigStatement_ToString depth) ss)"
| "NginxConfigStatement_ToString depth (NginxConfigStatement toks child) =
     indentation depth @ join_tokens toks @
     (case child of
        Some block \<Rightarrow>
          '' {'' @ [CHR 0x0A] @ NginxConfig_ToString (depth + 1) block @ indentation depth @ ''}''
      | None \<Rightarrow> '';'') @ [CHR 0x0A]"

section \<open>The look-ups in the server block\<close>

fun scan_block :: "string \<Rightarrow> nginx_statement list \<Rightarrow> string list option res" where
  "scan_block name [] = Inr None"
| "scan_block name (s # ss) =
     bind_res (vec_at (tokens s) 0) (\<lambda>t.
       if t = name then Inr (Some (tokens s)) else scan_block name ss)"

fun scan_config :: "string \<Rightarrow> nginx_statement list \<Rightarrow> string list option res" where
  "scan_config name [] = Inr None"
| "scan_config name (s # ss) =
     bind_res (vec_at (tokens s) 0) (\<lambda>t.
       if t = ''server'' then
         (case child_block s of
            None \<Rightarrow> Inl (UB Null_deref)
          | Some block \<Rightarrow>
              bind_res (scan_block name (statements block)) (\<lambda>r.
                case r of Some toks \<Rightarrow> Inr (Some toks) | None \<Rightarrow> scan_config name ss))
       else scan_config name ss)"

definition portNumber :: "nginx_config \<Rightarrow> int res" where
  "portNumber config =
     bind_res (scan_config ''listen'' (statements config)) (\<lambda>r.
       case r of Some toks \<Rightarrow> bind_res (vec_at toks 1) stoi | None \<Rightarrow> Inr (- 1))"

definition numberOfThreads :: "nginx_config \<Rightarrow> int res" where
  "numberOfThreads config =
     bind_res (scan_config ''threads'' (statements config)) (\<lambda>r.
       case r of Some toks \<Rightarrow> bind_res (vec_at toks 1) stoi | None \<Rightarrow> Inr (- 1))"

definition keyFileName :: "nginx_config \<Rightarrow> string res" where
  "keyFileName config =
     bind_res (scan_config ''pk_file'' (statements config)) (\<lambda>r.
       case r of Some toks \<Rightarrow> vec_at toks 1 | None \<Rightarrow> Inr '''')"

definition certFileName :: "nginx_config \<Rightarrow> string res" where
  "certFileName config =
     bind_res (scan_config ''pem_file'' (statements config)) (\<lambda>r.
       case r of Some toks \<Rightarrow> vec_at toks 1 | None \<Rightarrow> Inr '''')"

section \<open>The tokenizer\<close>

datatype TokenType =
    TOKEN_TYPE_START
  | TOKEN_TYPE_NORMAL
  | TOKEN_TYPE_START_BLOCK
  | TOKEN_TYPE_END_BLOCK
  | TOKEN_TYPE_COMMENT
  | TOKEN_TYPE_STATEMENT_END
  | TOKEN_TYPE_EOF
  | TOKEN_TYPE_ERROR

datatype TokenParserState =
    TOKEN_STATE_INITIAL_WHITESPACE
  | TOKEN_STATE_SINGLE_QUOTE
  | TOKEN_STATE_DOUBLE_QUOTE
  | TOKEN_STATE_TOKEN_TYPE_COMMENT
  | TOKEN_STATE_TOKEN_TYPE_NORMAL

fun TokenTypeAsString :: "TokenType \<Rightarrow> string" where
  "TokenTypeAsString TOKEN_TYPE_START = ''TOKEN_TYPE_START''"
| "TokenTypeAsString TOKEN_TYPE_NORMAL = ''TOKEN_TYPE_NORMAL''"
| "TokenTypeAsString TOKEN_TYPE_START_BLOCK = ''TOKEN_TYPE_START_BLOCK''"
| "TokenTypeAsString TOKEN_TYPE_END_BLOCK = ''TOKEN_TYPE_END_BLOCK''"
| "TokenTypeAsString TOKEN_TYPE_COMMENT = ''TOKEN_TYPE_COMMENT''"
| "TokenTypeAsString TOKEN_TYPE_STATEMENT_END = ''TOKEN_TYPE_STATEMENT_END''"
| "TokenTypeAsString TOKEN_TYPE_EOF = ''TOKEN_TYPE_EOF''"
| "TokenTypeAsString TOKEN_TYPE_ERROR = ''TOKEN_TYPE_ERROR''"

text \<open>The characters that end a normal token, and that may follow a quoted one.\<close>

definition is_delim :: "char \<Rightarrow> bool" where
  "is_delim c \<longleftrightarrow>
     c = CHR '' '' \<or> c = CHR 0x09 \<or> c = CHR 0x0A \<or> c = CHR '';'' \<or> c = CHR ''{'' \<or> c = CHR ''}''"

text \<open>\<^verbatim>\<open>peek\<close> at the end of the file yields \<^verbatim>\<open>EOF\<close>, which is none of the delimiters.\<close>

definition peek_delim :: "string \<Rightarrow> bool" where
  "peek_delim input = (case input of [] \<Rightarrow> False | c # _ \<Rightarrow> is_delim c)"

fun ParseToken_loop :: "TokenParserState \<Rightarrow> string \<Rightarrow> string \<Rightarrow> TokenType \<times> string \<times> string" where
  "ParseToken_loop state val [] =
     (if state = TOKEN_STATE_SINGLE_QUOTE \<or> state = TOKEN_STATE_DOUBLE_QUOTE
      then TOKEN_TYPE_ERROR else TOKEN_TYPE_EOF, val, [])"
| "ParseToken_loop TOKEN_STATE_INITIAL_WHITESPACE val (c # input) =
     (if c = CHR ''{'' then (TOKEN_TYPE_START_BLOCK, [c], input)
      else if c = CHR ''}'' then (TOKEN_TYPE_END_BLOCK, [c], input)
      else if c = CHR ''#'' then ParseToken_loop TOKEN_STATE_TOKEN_TYPE_COMMENT [c] input
      else if c = CHR 0x22 then ParseToken_loop TOKEN_STATE_DOUBLE_QUOTE [c] input
      else if c = CHR 0x27 then ParseToken_loop TOKEN_STATE_SINGLE_QUOTE [c] input
      else if c = CHR '';'' then (TOKEN_TYPE_STATEMENT_END, [c], input)
      else if c = CHR '' '' \<or> c = CHR 0x09 \<or> c = CHR 0x0A \<or> c = CHR 0x0D
        then ParseToken_loop TOKEN_STATE_INITIAL_WHITESPACE val input
      else ParseToken_loop TOKEN_STATE_TOKEN_TYPE_NORMAL (val @ [c]) input)"
| "ParseToken_loop TOKEN_STATE_SINGLE_QUOTE val (c # input) =
     (if c = CHR 0x27
      then (if peek_delim input then TOKEN_TYPE_NORMAL else TOKEN_TYPE_ERROR, val @ [c], input)
      else ParseToken_loop TOKEN_STATE_SINGLE_QUOTE (val @ [c]) input)"
| "ParseToken_loop TOKEN_STATE_DOUBLE_QUOTE val (c # input) =
     (if c = CHR 0x22
      then (if peek_delim input then TOKEN_TYPE_NORMAL else TOKEN_TYPE_ERROR, val @ [c], input)
      else ParseToken_loop TOKEN_STATE_DOUBLE_QUOTE (val @ [c]) input)"
| "ParseToken_loop TOKEN_STATE_TOKEN_TYPE_COMMENT val (c # input) =
     (if c = CHR 0x0A \<or> c = CHR 0x0D then (TOKEN_TYPE_COMMENT, val, input)
      else ParseToken_loop TOKEN_STATE_TOKEN_TYPE_COMMENT (val @ [c]) input)"
| "ParseToken_loop TOKEN_STATE_TOKEN_TYPE_NORMAL val (c # input) =
     (if is_delim c then (TOKEN_TYPE_NORMAL, val, c # input)
      else ParseToken_loop TOKEN_STATE_TOKEN_TYPE_NORMAL (val @ [c]) input)"

definition ParseToken :: "string \<Rightarrow> TokenType \<times> string \<times> string" where
  "ParseToken input = ParseToken_loop TOKEN_STATE_INITIAL_WHITESPACE '''' input"

section \<open>The parser\<close>

record parse_state =
  frames :: "nginx_statement list list"
  root_popped :: bool

text \<open>\<^verbatim>\<open>statements_.back().get()\<close>: undefined on an empty vector.\<close>

definition with_back ::
  "(nginx_statement \<Rightarrow> nginx_statement) \<Rightarrow> nginx_statement list \<Rightarrow> nginx_statement list res" where
  "with_back f ss =
     (if ss = [] then Inl (UB Index_out_of_range) else Inr (butlast ss @ [f (last ss)]))"

definition push_token :: "string \<Rightarrow> nginx_statement \<Rightarrow> nginx_statement" where
  "push_token t s = NginxConfigStatement (tokens s @ [t]) (child_block s)"

definition reset_child :: "nginx_config \<Rightarrow> nginx_statement \<Rightarrow> nginx_statement" where
  "reset_child c s = NginxConfigStatement (tokens s) (Some c)"

text \<open>The tree that the frames stand for: each inner frame is the child of the last statement of
  the frame around it.\<close>

fun collapse :: "nginx_statement list list \<Rightarrow> nginx_statement list" where
  "collapse [] = []"
| "collapse [root] = root"
| "collapse (inner # outer # fs) =
     collapse ((butlast outer @ [reset_child (NginxConfig inner) (last outer)]) # fs)"

definition pop_frame :: "parse_state \<Rightarrow> parse_state res" where
  "pop_frame st =
     (if root_popped st then Inl (UB Pop_empty)
      else case frames st of
             inner # outer # fs \<Rightarrow>
               Inr (st\<lparr>frames := (butlast outer @ [reset_child (NginxConfig inner) (last outer)]) # fs\<rparr>)
           | _ \<Rightarrow> Inr (st\<lparr>root_popped := True\<rparr>))"

definition top_frame :: "parse_state \<Rightarrow> nginx_statement list res" where
  "top_frame st = (if root_popped st then Inl (UB Top_empty) else Inr (hd (frames st)))"

definition set_top :: "nginx_statement list \<Rightarrow> parse_state \<Rightarrow> parse_state" where
  "set_top ss st = st\<lparr>frames := ss # tl (frames st)\<rparr>"

text \<open>
  One iteration of the loop for a token that is neither an error, a comment nor the end of the file.
  \<open>Inr None\<close> is the \<^verbatim>\<open>break\<close> to the error exit.
\<close>

fun parse_step :: "TokenType \<Rightarrow> TokenType \<Rightarrow> string \<Rightarrow> parse_state \<Rightarrow> parse_state option res" where
  "parse_step last_token_type TOKEN_TYPE_NORMAL token st =
     (if last_token_type = TOKEN_TYPE_START \<or> last_token_type = TOKEN_TYPE_STATEMENT_END
         \<or> last_token_type = TOKEN_TYPE_START_BLOCK \<or> last_token_type = TOKEN_TYPE_END_BLOCK
         \<or> last_token_type = TOKEN_TYPE_NORMAL
      then bind_res (top_frame st) (\<lambda>ss.
        bind_res (with_back (push_token token)
            (if last_token_type \<noteq> TOKEN_TYPE_NORMAL
             then ss @ [NginxConfigStatement [] None] else ss)) (\<lambda>ss'.
          Inr (Some (set_top ss' st))))
      else Inr None)"
| "parse_step last_token_type TOKEN_TYPE_STATEMENT_END token st =
     (if last_token_type \<noteq> TOKEN_TYPE_NORMAL then Inr None else Inr (Some st))"
| "parse_step last_token_type TOKEN_TYPE_START_BLOCK token st =
     (if last_token_type \<noteq> TOKEN_TYPE_NORMAL then Inr None
      else bind_res (top_frame st) (\<lambda>ss.
        bind_res (with_back (reset_child (NginxConfig [])) ss) (\<lambda>ss'.
          Inr (Some (st\<lparr>frames := [] # ss' # tl (frames st)\<rparr>)))))"
| "parse_step last_token_type TOKEN_TYPE_END_BLOCK token st =
     (if last_token_type \<noteq> TOKEN_TYPE_STATEMENT_END \<and> last_token_type \<noteq> TOKEN_TYPE_END_BLOCK
      then Inr None
      else bind_res (pop_frame st) (\<lambda>st'. Inr (Some st')))"
| "parse_step last_token_type _ token st = Inr None"

definition bad_transition :: "TokenType \<Rightarrow> TokenType \<Rightarrow> string" where
  "bad_transition last_token_type token_type =
     ''Bad transition from '' @ TokenTypeAsString last_token_type @
     '' to '' @ TokenTypeAsString token_type @ [CHR 0x0A]"

text \<open>The result of \<^verbatim>\<open>Parse\<close>: the returned flag, the out-parameter, and what was printed.\<close>

type_synonym parse_result = "bool \<times> nginx_config \<times> string"

lemma ParseToken_loop_length:
  "length (snd (snd (ParseToken_loop s v input))) \<le> length input"
  by (induction s v input rule: ParseToken_loop.induct) (simp_all add: le_SucI)

lemma ParseToken_shrinks:
  "input \<noteq> [] \<Longrightarrow> length (snd (snd (ParseToken input))) < length input"
  by (cases input) (simp_all add: ParseToken_def less_Suc_eq_le ParseToken_loop_length)

lemma ParseToken_Nil [simp]: "ParseToken [] = (TOKEN_TYPE_EOF, [], [])"
  by (simp add: ParseToken_def)

lemma ParseToken_rest_less:
  assumes "ParseToken input = (token_type, token, rest)" and "token_type \<noteq> TOKEN_TYPE_EOF"
  shows "length rest < length input"
  using assms ParseToken_shrinks [of input] by (cases "input = []") simp_all

function Parse_loop :: "TokenType \<Rightarrow> parse_state \<Rightarrow> string \<Rightarrow> parse_result res" where
  "Parse_loop last_token_type st input =
     (case ParseToken input of (token_type, token, rest) \<Rightarrow>
        if token_type = TOKEN_TYPE_ERROR then
          Inr (False, NginxConfig (collapse (frames st)), bad_transition last_token_type token_type)
        else if token_type = TOKEN_TYPE_COMMENT then Parse_loop last_token_type st rest
        else if token_type = TOKEN_TYPE_EOF then
          (if last_token_type \<noteq> TOKEN_TYPE_STATEMENT_END \<and> last_token_type \<noteq> TOKEN_TYPE_END_BLOCK
           then Inr (False, NginxConfig (collapse (frames st)),
                     bad_transition last_token_type token_type)
           else Inr (True, NginxConfig (collapse (frames st)), ''''))
        else
          (case parse_step last_token_type token_type token st of
             Inl e \<Rightarrow> Inl e
           | Inr None \<Rightarrow>
               Inr (False, NginxConfig (collapse (frames st)),
                    bad_transition last_token_type token_type)
           | Inr (Some st') \<Rightarrow> Parse_loop token_type st' rest))"
  by pat_completeness auto
termination
  by (relation "measure (\<lambda>(l, st, input). length input)")
    (auto intro: ParseToken_rest_less [OF sym])

declare Parse_loop.simps [simp del]

definition Parse :: "string \<Rightarrow> nginx_config \<Rightarrow> parse_result res" where
  "Parse config_file config =
     Parse_loop TOKEN_TYPE_START
       \<lparr>frames = [statements config], root_popped = False\<rparr> config_file"

text \<open>\<^verbatim>\<open>Parse(const char* file_name, ...)\<close>; \<open>open_file\<close> is the content of the file the stream
  reads, \<^const>\<open>None\<close> when it cannot be opened.\<close>

definition Parse_file ::
  "(string \<Rightarrow> string option) \<Rightarrow> string \<Rightarrow> nginx_config \<Rightarrow> parse_result res" where
  "Parse_file open_file file_name config =
     (case open_file file_name of
        None \<Rightarrow> Inr (False, config, ''Failed to open config file: '' @ file_name @ [CHR 0x0A])
      | Some config_file \<Rightarrow> Parse config_file config)"

end
