(* ===== verification/ConfigTheorems.thy ===== *)
theory ConfigTheorems
  imports ConfigParser
begin

text \<open>
  What is proved of the configuration parser: printing and parsing again gives the same tree; every
  tree that \<^verbatim>\<open>Parse\<close> builds has a first token in each statement, so the look-ups never index
  \<^verbatim>\<open>tokens_[0]\<close> out of range; which token sequences are accepted; and the only undefined step
  \<^verbatim>\<open>Parse\<close> can take, using its stack after more blocks were closed than opened.
\<close>

section \<open>Specifications\<close>

text \<open>Tokens that survive printing: a plain word, or a word in matching quotes.\<close>

definition plain_token :: "string \<Rightarrow> bool" where
  "plain_token t =
     (case t of
        [] \<Rightarrow> False
      | c # cs \<Rightarrow>
          \<not> is_delim c \<and> c \<noteq> CHR 0x0D \<and> c \<noteq> CHR ''#'' \<and> c \<noteq> CHR 0x22 \<and> c \<noteq> CHR 0x27
          \<and> list_all (\<lambda>x. \<not> is_delim x) cs)"

definition quoted_token :: "string \<Rightarrow> bool" where
  "quoted_token t =
     (case t of
        [] \<Rightarrow> False
      | q # r \<Rightarrow>
          (q = CHR 0x22 \<or> q = CHR 0x27) \<and> r \<noteq> [] \<and> last r = q \<and> q \<notin> set (butlast r))"

definition wf_token :: "string \<Rightarrow> bool" where
  "wf_token t \<longleftrightarrow> plain_token t \<or> quoted_token t"

fun wf_config :: "nginx_config \<Rightarrow> bool" and wf_statement :: "nginx_statement \<Rightarrow> bool" where
  "wf_config (NginxConfig ss) \<longleftrightarrow> ss \<noteq> [] \<and> (\<forall>s \<in> set ss. wf_statement s)"
| "wf_statement (NginxConfigStatement toks child) \<longleftrightarrow>
     toks \<noteq> [] \<and> list_all wf_token toks \<and>
     (case child of None \<Rightarrow> True | Some block \<Rightarrow> wf_config block)"

text \<open>Every statement, at any depth, has at least one token.\<close>

fun named_config :: "nginx_config \<Rightarrow> bool" and named_statement :: "nginx_statement \<Rightarrow> bool" where
  "named_config (NginxConfig ss) \<longleftrightarrow> (\<forall>s \<in> set ss. named_statement s)"
| "named_statement (NginxConfigStatement toks child) \<longleftrightarrow>
     toks \<noteq> [] \<and> (case child of None \<Rightarrow> True | Some block \<Rightarrow> named_config block)"

text \<open>The token types after which a statement may begin.\<close>

definition starter :: "TokenType \<Rightarrow> bool" where
  "starter l \<longleftrightarrow>
     l = TOKEN_TYPE_START \<or> l = TOKEN_TYPE_STATEMENT_END \<or> l = TOKEN_TYPE_START_BLOCK
     \<or> l = TOKEN_TYPE_END_BLOCK"

definition end_type :: "nginx_statement \<Rightarrow> TokenType" where
  "end_type s = (if child_block s = None then TOKEN_TYPE_STATEMENT_END else TOKEN_TYPE_END_BLOCK)"

abbreviation open_state :: "nginx_statement list \<Rightarrow> nginx_statement list list \<Rightarrow> parse_state" where
  "open_state ss fs \<equiv> \<lparr>frames = ss # fs, root_popped = False\<rparr>"

text \<open>
  The token types of an input, as successive calls of \<^verbatim>\<open>ParseToken\<close> return them, up to the end of
  the file or the first error; the transitions the parser lets pass; and acceptance as a property of
  neighbouring tokens only.
\<close>

function lex :: "string \<Rightarrow> TokenType list" where
  "lex input =
     (case ParseToken input of (tt, token, rest) \<Rightarrow>
        if tt = TOKEN_TYPE_EOF \<or> tt = TOKEN_TYPE_ERROR then [tt] else tt # lex rest)"
  by pat_completeness auto
termination
  by (relation "measure length") (auto intro: ParseToken_rest_less [OF sym])

declare lex.simps [simp del]

definition ok_next :: "TokenType \<Rightarrow> TokenType \<Rightarrow> bool" where
  "ok_next l tt =
     (case tt of
        TOKEN_TYPE_NORMAL \<Rightarrow> starter l \<or> l = TOKEN_TYPE_NORMAL
      | TOKEN_TYPE_STATEMENT_END \<Rightarrow> l = TOKEN_TYPE_NORMAL
      | TOKEN_TYPE_START_BLOCK \<Rightarrow> l = TOKEN_TYPE_NORMAL
      | TOKEN_TYPE_END_BLOCK \<Rightarrow> l = TOKEN_TYPE_STATEMENT_END \<or> l = TOKEN_TYPE_END_BLOCK
      | TOKEN_TYPE_EOF \<Rightarrow> l = TOKEN_TYPE_STATEMENT_END \<or> l = TOKEN_TYPE_END_BLOCK
      | _ \<Rightarrow> False)"

fun accepts :: "TokenType \<Rightarrow> TokenType list \<Rightarrow> bool" where
  "accepts l [] = False"
| "accepts l (tt # tts) =
     (if tt = TOKEN_TYPE_COMMENT then accepts l tts
      else ok_next l tt \<and> (tt = TOKEN_TYPE_EOF \<or> accepts tt tts))"

text \<open>At no point have more blocks been closed than opened.\<close>

fun within_depth :: "nat \<Rightarrow> TokenType list \<Rightarrow> bool" where
  "within_depth n [] = True"
| "within_depth n (tt # tts) =
     (if tt = TOKEN_TYPE_START_BLOCK then within_depth (Suc n) tts
      else if tt = TOKEN_TYPE_END_BLOCK then 0 < n \<and> within_depth (n - 1) tts
      else within_depth n tts)"

text \<open>What the parser keeps true of its frames.\<close>

definition parse_inv :: "TokenType \<Rightarrow> parse_state \<Rightarrow> bool" where
  "parse_inv l st \<longleftrightarrow>
     frames st \<noteq> [] \<and> (\<forall>f \<in> set (frames st). \<forall>s \<in> set f. named_statement s)
     \<and> (\<forall>f \<in> set (tl (frames st)). f \<noteq> [])
     \<and> (l = TOKEN_TYPE_NORMAL \<longrightarrow> hd (frames st) \<noteq> [] \<and> \<not> root_popped st)"

text \<open>The first statement with a given name inside the \<^verbatim>\<open>server\<close> blocks, in file order.\<close>

definition is_server :: "nginx_statement \<Rightarrow> bool" where
  "is_server s \<longleftrightarrow> hd (tokens s) = ''server''"

definition block_of :: "nginx_statement \<Rightarrow> nginx_statement list" where
  "block_of s = (case child_block s of None \<Rightarrow> [] | Some c \<Rightarrow> statements c)"

definition first_directive :: "string \<Rightarrow> nginx_config \<Rightarrow> nginx_statement option" where
  "first_directive name c =
     find (\<lambda>s. hd (tokens s) = name) (concat (map block_of (filter is_server (statements c))))"

section \<open>Tokens of printed text\<close>

lemma is_delim_simps [simp]:
  "is_delim CHR '' ''" "is_delim CHR '';''" "is_delim CHR ''{''" "is_delim CHR ''}''"
  "is_delim CHR 0x0A" "is_delim CHR 0x09"
  by (simp_all add: is_delim_def)

lemma ParseToken_space [simp]: "ParseToken (CHR '' '' # r) = ParseToken r"
  and ParseToken_newline [simp]: "ParseToken (CHR 0x0A # r) = ParseToken r"
  by (simp_all add: ParseToken_def)

lemma ParseToken_braces [simp]:
  "ParseToken (CHR ''{'' # r) = (TOKEN_TYPE_START_BLOCK, ''{'', r)"
  "ParseToken (CHR ''}'' # r) = (TOKEN_TYPE_END_BLOCK, ''}'', r)"
  "ParseToken (CHR '';'' # r) = (TOKEN_TYPE_STATEMENT_END, '';'', r)"
  by (simp_all add: ParseToken_def)

lemma ParseToken_indentation [simp]: "ParseToken (indentation d @ r) = ParseToken r"
  by (induction d) (simp_all add: indentation_def)

lemma ParseToken_loop_normal:
  "list_all (\<lambda>x. \<not> is_delim x) cs \<Longrightarrow> is_delim d \<Longrightarrow>
   ParseToken_loop TOKEN_STATE_TOKEN_TYPE_NORMAL v (cs @ d # r) = (TOKEN_TYPE_NORMAL, v @ cs, d # r)"
  by (induction cs arbitrary: v) auto

lemma ParseToken_loop_quote:
  assumes "is_delim d"
  shows "CHR 0x22 \<notin> set b \<Longrightarrow> ParseToken_loop TOKEN_STATE_DOUBLE_QUOTE v (b @ CHR 0x22 # d # r) =
      (TOKEN_TYPE_NORMAL, v @ b @ [CHR 0x22], d # r)"
    and "CHR 0x27 \<notin> set b \<Longrightarrow> ParseToken_loop TOKEN_STATE_SINGLE_QUOTE v (b @ CHR 0x27 # d # r) =
      (TOKEN_TYPE_NORMAL, v @ b @ [CHR 0x27], d # r)"
  using assms by (induction b arbitrary: v) (auto simp: peek_delim_def)

lemma ParseToken_plain:
  assumes "plain_token t" and "is_delim d"
  shows "ParseToken (t @ d # r) = (TOKEN_TYPE_NORMAL, t, d # r)"
proof (cases t)
  case Nil
  with assms show ?thesis by (simp add: plain_token_def)
next
  case (Cons c cs)
  with assms(1) have c: "\<not> is_delim c" "c \<noteq> CHR 0x0D" "c \<noteq> CHR ''#''" "c \<noteq> CHR 0x22" "c \<noteq> CHR 0x27"
    and cs: "list_all (\<lambda>x. \<not> is_delim x) cs" by (simp_all add: plain_token_def)
  from c have "ParseToken (t @ d # r) =
      ParseToken_loop TOKEN_STATE_TOKEN_TYPE_NORMAL [c] (cs @ d # r)"
    by (simp add: ParseToken_def Cons is_delim_def)
  with cs assms(2) show ?thesis by (simp add: ParseToken_loop_normal Cons)
qed

lemma ParseToken_quoted:
  assumes "quoted_token t" and "is_delim d"
  shows "ParseToken (t @ d # r) = (TOKEN_TYPE_NORMAL, t, d # r)"
proof -
  from assms(1) obtain q b where t: "t = q # b @ [q]" and q: "q = CHR 0x22 \<or> q = CHR 0x27"
    and b: "q \<notin> set b"
    unfolding quoted_token_def by (cases t) (auto, (metis append_butlast_last_id)+)
  from q show ?thesis
  proof
    assume "q = CHR 0x22"
    with t b assms(2) ParseToken_loop_quote(1) [of d b] show ?thesis by (simp add: ParseToken_def)
  next
    assume "q = CHR 0x27"
    with t b assms(2) ParseToken_loop_quote(2) [of d b] show ?thesis by (simp add: ParseToken_def)
  qed
qed

lemma ParseToken_wf_token:
  "wf_token t \<Longrightarrow> is_delim d \<Longrightarrow> ParseToken (t @ d # r) = (TOKEN_TYPE_NORMAL, t, d # r)"
  unfolding wf_token_def using ParseToken_plain ParseToken_quoted by blast

section \<open>Parsing printed text\<close>

lemma Parse_loop_cong_input:
  "ParseToken input = ParseToken input' \<Longrightarrow> Parse_loop l st input = Parse_loop l st input'"
  by (subst (1 2) Parse_loop.simps) simp

lemma Parse_loop_blank [simp]:
  "Parse_loop l st (CHR '' '' # r) = Parse_loop l st r"
  "Parse_loop l st (CHR 0x0A # r) = Parse_loop l st r"
  "Parse_loop l st (indentation d @ r) = Parse_loop l st r"
  by (rule Parse_loop_cong_input, simp)+

lemma Parse_loop_step:
  assumes "ParseToken input = (tt, token, rest)"
    and "tt = TOKEN_TYPE_NORMAL \<or> tt = TOKEN_TYPE_START_BLOCK \<or> tt = TOKEN_TYPE_END_BLOCK
         \<or> tt = TOKEN_TYPE_STATEMENT_END"
    and "parse_step l tt token st = Inr (Some st')"
  shows "Parse_loop l st input = Parse_loop tt st' rest"
  using assms by (subst Parse_loop.simps) auto

lemma join_tokens_Cons: "ts \<noteq> [] \<Longrightarrow> join_tokens (t # ts) = t @ CHR '' '' # join_tokens ts"
  by (cases ts) simp_all

lemma Parse_loop_more_tokens:
  assumes "list_all wf_token ts" and "ts \<noteq> []" and "is_delim d"
  shows "Parse_loop TOKEN_TYPE_NORMAL (open_state (ss @ [NginxConfigStatement ts0 c]) fs)
           (join_tokens ts @ d # r) =
         Parse_loop TOKEN_TYPE_NORMAL (open_state (ss @ [NginxConfigStatement (ts0 @ ts) c]) fs)
           (d # r)"
  using assms
proof (induction ts arbitrary: ts0)
  case Nil
  then show ?case by simp
next
  case (Cons t ts)
  have step: "Parse_loop TOKEN_TYPE_NORMAL (open_state (ss @ [NginxConfigStatement ts0 c]) fs)
      (t @ d' # r') = Parse_loop TOKEN_TYPE_NORMAL
      (open_state (ss @ [NginxConfigStatement (ts0 @ [t]) c]) fs) (d' # r')"
    if "is_delim d'" for d' r'
    by (rule Parse_loop_step [where token = t])
      (use Cons.prems that in \<open>simp_all add: ParseToken_wf_token top_frame_def with_back_def
        push_token_def set_top_def\<close>)
  show ?case
  proof (cases "ts = []")
    case True
    with step [OF Cons.prems(3)] show ?thesis by simp
  next
    case False
    with step [of "CHR '' ''"] Cons show ?thesis by (simp add: join_tokens_Cons)
  qed
qed

lemma Parse_loop_tokens:
  assumes "list_all wf_token ts" and "ts \<noteq> []" and "is_delim d" and "starter l"
  shows "Parse_loop l (open_state ss fs) (join_tokens ts @ d # r) =
         Parse_loop TOKEN_TYPE_NORMAL (open_state (ss @ [NginxConfigStatement ts None]) fs) (d # r)"
proof -
  from assms(2) obtain t ts' where ts: "ts = t # ts'" by (cases ts) auto
  have step: "Parse_loop l (open_state ss fs) (t @ d' # r') =
      Parse_loop TOKEN_TYPE_NORMAL (open_state (ss @ [NginxConfigStatement [t] None]) fs) (d' # r')"
    if "is_delim d'" for d' r'
    by (rule Parse_loop_step [where token = t])
      (use assms that in \<open>auto simp: ts ParseToken_wf_token top_frame_def with_back_def
        push_token_def set_top_def starter_def\<close>)
  show ?thesis
  proof (cases "ts' = []")
    case True
    with step [OF assms(3)] show ?thesis by (simp add: ts)
  next
    case False
    with step [of "CHR '' ''"] assms show ?thesis
      by (simp add: ts join_tokens_Cons Parse_loop_more_tokens)
  qed
qed

lemma Parse_loop_semicolon:
  "Parse_loop TOKEN_TYPE_NORMAL st (CHR '';'' # r) = Parse_loop TOKEN_TYPE_STATEMENT_END st r"
  by (rule Parse_loop_step [where token = "'';''"]) simp_all

lemma Parse_loop_lbrace:
  "Parse_loop TOKEN_TYPE_NORMAL (open_state (ss @ [NginxConfigStatement ts c]) fs) (CHR ''{'' # r) =
   Parse_loop TOKEN_TYPE_START_BLOCK
     (open_state [] ((ss @ [NginxConfigStatement ts (Some (NginxConfig []))]) # fs)) r"
  by (rule Parse_loop_step [where token = "''{''"])
    (simp_all add: top_frame_def with_back_def reset_child_def)

lemma Parse_loop_rbrace:
  assumes "l = TOKEN_TYPE_STATEMENT_END \<or> l = TOKEN_TYPE_END_BLOCK"
  shows "Parse_loop l (open_state inner ((ss @ [NginxConfigStatement ts c]) # fs)) (CHR ''}'' # r) =
    Parse_loop TOKEN_TYPE_END_BLOCK
      (open_state (ss @ [NginxConfigStatement ts (Some (NginxConfig inner))]) fs) r"
  by (rule Parse_loop_step [where token = "''}''"])
    (use assms in \<open>auto simp: pop_frame_def reset_child_def\<close>)

lemma starter_end_type: "starter (end_type s)"
  by (simp add: starter_def end_type_def)

lemma end_type_cases: "end_type s = TOKEN_TYPE_STATEMENT_END \<or> end_type s = TOKEN_TYPE_END_BLOCK"
  by (simp add: end_type_def)

lemma Parse_loop_statements:
  assumes "\<And>s l ss r. s \<in> set sts \<Longrightarrow> starter l \<Longrightarrow>
      Parse_loop l (open_state ss fs) (NginxConfigStatement_ToString d s @ r) =
      Parse_loop (end_type s) (open_state (ss @ [s]) fs) r"
    and "sts \<noteq> []" and "starter l"
  shows "Parse_loop l (open_state ss fs) (concat (map (NginxConfigStatement_ToString d) sts) @ r) =
    Parse_loop (end_type (last sts)) (open_state (ss @ sts) fs) r"
  using assms
proof (induction sts arbitrary: l ss)
  case Nil
  then show ?case by simp
next
  case (Cons s sts)
  then have "Parse_loop l (open_state ss fs) (NginxConfigStatement_ToString d s @
      concat (map (NginxConfigStatement_ToString d) sts) @ r) =
    Parse_loop (end_type s) (open_state (ss @ [s]) fs)
      (concat (map (NginxConfigStatement_ToString d) sts) @ r)" by simp
  with Cons show ?case by (cases "sts = []") (simp_all add: starter_end_type)
qed

lemma Parse_loop_ToString:
  "wf_config c \<Longrightarrow> starter l \<Longrightarrow>
     Parse_loop l (open_state ss fs) (NginxConfig_ToString d c @ r) =
     Parse_loop (end_type (last (statements c))) (open_state (ss @ statements c) fs) r"
  "wf_statement s \<Longrightarrow> starter l \<Longrightarrow>
     Parse_loop l (open_state ss fs) (NginxConfigStatement_ToString d s @ r) =
     Parse_loop (end_type s) (open_state (ss @ [s]) fs) r"
proof (induction d c and d s arbitrary: l ss fs r and l ss fs r
    rule: NginxConfig_ToString_NginxConfigStatement_ToString.induct)
  case (1 d sts)
  then show ?case by (simp add: Parse_loop_statements)
next
  case (2 d toks child)
  show ?case
  proof (cases child)
    case None
    with 2 show ?thesis by (simp add: Parse_loop_tokens Parse_loop_semicolon end_type_def)
  next
    case (Some block)
    let ?open = "open_state [] ((ss @ [NginxConfigStatement toks (Some (NginxConfig []))]) # fs)"
    have wf: "wf_config block" using "2.prems" Some by simp
    have "Parse_loop l (open_state ss fs)
        (NginxConfigStatement_ToString d (NginxConfigStatement toks child) @ r) =
      Parse_loop TOKEN_TYPE_START_BLOCK ?open
        (NginxConfig_ToString (d + 1) block @ indentation d @ CHR ''}'' # CHR 0x0A # r)"
      using "2.prems" by (simp add: Some Parse_loop_tokens Parse_loop_lbrace)
    also have "\<dots> = Parse_loop (end_type (last (statements block)))
        (open_state (statements block) (tl (frames ?open)))
        (indentation d @ CHR ''}'' # CHR 0x0A # r)"
      using "2.IH" [OF Some wf, of TOKEN_TYPE_START_BLOCK "[]"] by (simp add: starter_def)
    finally show ?thesis
      by (cases block) (simp add: Some Parse_loop_rbrace end_type_cases end_type_def)
  qed
qed

lemma Parse_ToString:
  assumes "wf_config c"
  shows "Parse (NginxConfig_ToString d c) (NginxConfig []) = Inr (True, c, [])"
proof -
  have "Parse (NginxConfig_ToString d c) (NginxConfig []) =
      Parse_loop (end_type (last (statements c))) (open_state (statements c) []) []"
    using Parse_loop_ToString(1) [OF assms, of TOKEN_TYPE_START "[]" "[]" d "[]"]
    by (simp add: Parse_def starter_def)
  also have "\<dots> = Inr (True, c, [])"
    using end_type_cases [of "last (statements c)"]
    by (subst Parse_loop.simps) (cases c, auto)
  finally show ?thesis .
qed

section \<open>What the parser keeps true\<close>

lemma named_reset_child:
  "named_statement s \<Longrightarrow> named_config c \<Longrightarrow> named_statement (reset_child c s)"
  by (cases s) (simp add: reset_child_def)

lemma named_push_token:
  "named_statement s \<or> s = NginxConfigStatement [] None \<Longrightarrow> named_statement (push_token t s)"
  by (cases s) (auto simp: push_token_def)

lemma named_replace_last:
  "ss \<noteq> [] \<Longrightarrow> \<forall>s \<in> set ss. named_statement s \<Longrightarrow> named_statement x \<Longrightarrow>
   \<forall>s \<in> set (butlast ss @ [x]). named_statement s"
  by (auto dest: in_set_butlastD)

lemma parse_step_NORMAL:
  "parse_step l TOKEN_TYPE_NORMAL token st =
     (if ok_next l TOKEN_TYPE_NORMAL
      then bind_res (top_frame st) (\<lambda>ss.
        bind_res (with_back (push_token token)
            (if l = TOKEN_TYPE_NORMAL then ss else ss @ [NginxConfigStatement [] None]))
          (\<lambda>ss'. Inr (Some (set_top ss' st))))
      else Inr None)"
  by (cases l) (simp_all add: ok_next_def starter_def)

lemma parse_step_NORMAL_inv:
  assumes inv: "parse_inv l st" and step: "parse_step l TOKEN_TYPE_NORMAL token st = Inr (Some st')"
  shows "parse_inv TOKEN_TYPE_NORMAL st'"
proof -
  obtain f fs where fr: "frames st = f # fs" using inv by (cases "frames st") (auto simp: parse_inv_def)
  define f' where "f' = (if l = TOKEN_TYPE_NORMAL then f else f @ [NginxConfigStatement [] None])"
  from step fr have st': "st' = st\<lparr>frames := (butlast f' @ [push_token token (last f')]) # fs\<rparr>"
    and np: "\<not> root_popped st" and ne: "f' \<noteq> []"
    unfolding parse_step_NORMAL f'_def
    by (auto simp: top_frame_def with_back_def set_top_def split: if_splits)
  from ne have f': "f' = f \<and> f \<noteq> [] \<or> f' = f @ [NginxConfigStatement [] None]"
    by (simp add: f'_def split: if_splits)
  have "named_statement (last f') \<or> last f' = NginxConfigStatement [] None"
    using f' inv fr by (auto simp: parse_inv_def)
  then have "named_statement (push_token token (last f'))" by (rule named_push_token)
  moreover have "\<forall>s \<in> set (butlast f'). named_statement s"
    using f' inv fr by (auto simp: parse_inv_def butlast_append dest: in_set_butlastD)
  ultimately show ?thesis
    using inv np by (simp add: st' parse_inv_def fr)
qed

lemma parse_step_inv:
  assumes inv: "parse_inv l st" and step: "parse_step l tt token st = Inr (Some st')"
  shows "parse_inv tt st'"
proof -
  obtain f fs where fr: "frames st = f # fs" using inv by (cases "frames st") (auto simp: parse_inv_def)
  show ?thesis
  proof (cases tt)
    case TOKEN_TYPE_NORMAL
    with assms parse_step_NORMAL_inv show ?thesis by blast
  next
    case TOKEN_TYPE_START_BLOCK
    with step fr have f: "f \<noteq> []"
      and st': "st' = st\<lparr>frames := [] # (butlast f @ [reset_child (NginxConfig []) (last f)]) # fs\<rparr>"
      by (auto simp: top_frame_def with_back_def split: if_splits)
    from f have "\<forall>s \<in> set (butlast f @ [reset_child (NginxConfig []) (last f)]). named_statement s"
      by (rule named_replace_last) (use inv fr f in \<open>auto simp: parse_inv_def intro: named_reset_child\<close>)
    then show ?thesis using inv TOKEN_TYPE_START_BLOCK by (simp add: st' parse_inv_def fr)
  next
    case TOKEN_TYPE_END_BLOCK
    show ?thesis
    proof (cases fs)
      case Nil
      with TOKEN_TYPE_END_BLOCK step fr inv show ?thesis
        by (auto simp: pop_frame_def parse_inv_def split: if_splits)
    next
      case (Cons g gs)
      with TOKEN_TYPE_END_BLOCK step fr
      have st': "st' = st\<lparr>frames := (butlast g @ [reset_child (NginxConfig f) (last g)]) # gs\<rparr>"
        by (auto simp: pop_frame_def split: if_splits)
      have g: "g \<noteq> []" using inv fr Cons by (simp add: parse_inv_def)
      from g have "\<forall>s \<in> set (butlast g @ [reset_child (NginxConfig f) (last g)]). named_statement s"
        by (rule named_replace_last)
          (use inv fr Cons g in \<open>auto simp: parse_inv_def intro!: named_reset_child\<close>)
      then show ?thesis using inv TOKEN_TYPE_END_BLOCK fr Cons by (simp add: st' parse_inv_def)
    qed
  qed (use step inv in \<open>auto simp: parse_inv_def split: if_splits\<close>)
qed

lemma parse_step_fault:
  assumes "parse_inv l st" and "parse_step l tt token st = Inl e"
  shows "root_popped st \<and> (e = UB Top_empty \<or> e = UB Pop_empty)"
  using assms
  by (cases tt)
    (auto simp: parse_inv_def top_frame_def with_back_def pop_frame_def bind_res_eq_Inl_conv
      split: if_splits list.splits)

lemma named_collapse:
  "\<forall>f \<in> set fs. \<forall>s \<in> set f. named_statement s \<Longrightarrow> \<forall>f \<in> set (tl fs). f \<noteq> [] \<Longrightarrow>
   \<forall>s \<in> set (collapse fs). named_statement s"
proof (induction fs rule: collapse.induct)
  case (3 inner outer fs)
  have "named_statement (last outer)" using "3.prems" by simp
  then have "named_statement (reset_child (NginxConfig inner) (last outer))"
    by (rule named_reset_child) (use "3.prems" in simp)
  then have "\<forall>s \<in> set (butlast outer @ [reset_child (NginxConfig inner) (last outer)]). named_statement s"
    using "3.prems" by (intro named_replace_last) auto
  with 3 show ?case by simp
qed simp_all

lemma parse_inv_collapse: "parse_inv l st \<Longrightarrow> named_config (NginxConfig (collapse (frames st)))"
  using named_collapse [of "frames st"] by (simp add: parse_inv_def)

lemma Parse_loop_named:
  "parse_inv l st \<Longrightarrow> Parse_loop l st input = Inr (b, c, msg) \<Longrightarrow> named_config c"
proof (induction l st input arbitrary: b c msg rule: Parse_loop.induct)
  case (1 l st input)
  obtain tt token rest where pt: "ParseToken input = (tt, token, rest)" by (metis prod_cases3)
  from "1.prems"(2) show ?case
    using "1.IH" [OF pt [symmetric] refl] "1.prems"(1) parse_inv_collapse [OF "1.prems"(1)]
    by (subst (asm) Parse_loop.simps)
      (auto simp: pt split: if_splits sum.splits option.splits dest: parse_step_inv)
qed

lemma Parse_loop_fault:
  "parse_inv l st \<Longrightarrow> Parse_loop l st input = Inl e \<Longrightarrow> e = UB Top_empty \<or> e = UB Pop_empty"
proof (induction l st input rule: Parse_loop.induct)
  case (1 l st input)
  obtain tt token rest where pt: "ParseToken input = (tt, token, rest)" by (metis prod_cases3)
  from "1.prems"(2) show ?case
    using "1.IH" [OF pt [symmetric] refl] "1.prems"(1)
    by (subst (asm) Parse_loop.simps)
      (auto simp: pt split: if_splits sum.splits option.splits
        dest: parse_step_inv parse_step_fault)
qed

section \<open>Which inputs are accepted\<close>

lemma parse_step_rejects:
  assumes "parse_inv l st" and "\<not> ok_next l tt" and "tt \<noteq> TOKEN_TYPE_EOF"
  shows "parse_step l tt token st = Inr None"
  using assms by (cases tt) (auto simp: ok_next_def parse_step_NORMAL simp del: parse_step.simps(1))

lemma parse_step_accepts:
  assumes "parse_inv l st" and "ok_next l tt" and "tt \<noteq> TOKEN_TYPE_EOF" and "\<not> root_popped st"
    and "tt = TOKEN_TYPE_END_BLOCK \<Longrightarrow> 1 < length (frames st)"
  shows "\<exists>st'. parse_step l tt token st = Inr (Some st') \<and> \<not> root_popped st' \<and>
    length (frames st') =
      (if tt = TOKEN_TYPE_START_BLOCK then Suc (length (frames st))
       else if tt = TOKEN_TYPE_END_BLOCK then length (frames st) - 1 else length (frames st))"
proof -
  obtain f fs where fr: "frames st = f # fs"
    using assms(1) by (cases "frames st") (auto simp: parse_inv_def)
  show ?thesis
  proof (cases tt)
    case TOKEN_TYPE_NORMAL
    with assms fr show ?thesis
      by (simp add: parse_step_NORMAL top_frame_def with_back_def set_top_def parse_inv_def
          del: parse_step.simps(1))
  next
    case TOKEN_TYPE_END_BLOCK
    with assms fr obtain g gs where "fs = g # gs" by (cases fs) auto
    with assms fr TOKEN_TYPE_END_BLOCK show ?thesis by (auto simp: pop_frame_def ok_next_def)
  qed (use assms fr in \<open>auto simp: ok_next_def top_frame_def with_back_def parse_inv_def\<close>)
qed

lemma Parse_loop_accepts:
  assumes "parse_inv l st" and "\<not> root_popped st"
    and "within_depth (length (frames st) - 1) (lex input)"
  shows "\<exists>c msg. Parse_loop l st input = Inr (accepts l (lex input), c, msg)"
  using assms
proof (induction l st input rule: Parse_loop.induct)
  case (1 l st input)
  obtain tt token rest where pt: "ParseToken input = (tt, token, rest)" by (metis prod_cases3)
  note IH = "1.IH" [OF pt [symmetric] refl]
  have lx: "lex input = (if tt = TOKEN_TYPE_EOF \<or> tt = TOKEN_TYPE_ERROR then [tt] else tt # lex rest)"
    by (subst lex.simps) (simp add: pt)
  consider "tt = TOKEN_TYPE_ERROR" | "tt = TOKEN_TYPE_EOF" | "tt = TOKEN_TYPE_COMMENT"
    | (bad) "tt \<noteq> TOKEN_TYPE_ERROR" "tt \<noteq> TOKEN_TYPE_EOF" "tt \<noteq> TOKEN_TYPE_COMMENT" "\<not> ok_next l tt"
    | (good) "tt \<noteq> TOKEN_TYPE_ERROR" "tt \<noteq> TOKEN_TYPE_EOF" "tt \<noteq> TOKEN_TYPE_COMMENT" "ok_next l tt"
    by blast
  then show ?case
  proof cases
    case 3
    with IH(1) "1.prems" lx show ?thesis by (subst Parse_loop.simps) (simp add: pt)
  next
    case bad
    with parse_step_rejects [OF "1.prems"(1)] lx show ?thesis
      by (subst Parse_loop.simps) (simp add: pt)
  next
    case good
    with "1.prems"(3) lx have "tt = TOKEN_TYPE_END_BLOCK \<Longrightarrow> 1 < length (frames st)" by simp
    with parse_step_accepts [OF "1.prems"(1) good(4,2) "1.prems"(2)]
    obtain st' where st': "parse_step l tt token st = Inr (Some st')" "\<not> root_popped st'"
      and len: "length (frames st') =
        (if tt = TOKEN_TYPE_START_BLOCK then Suc (length (frames st))
         else if tt = TOKEN_TYPE_END_BLOCK then length (frames st) - 1 else length (frames st))"
      by blast
    have "frames st \<noteq> []" using "1.prems"(1) by (simp add: parse_inv_def)
    then have "within_depth (length (frames st') - 1) (lex rest)"
      using "1.prems"(3) lx good len by (auto split: if_splits)
    with IH(2) [OF good(1,3,2) st'(1) refl] st' parse_step_inv [OF "1.prems"(1) st'(1)]
    show ?thesis using good lx by (subst Parse_loop.simps) (simp add: pt)
  qed (use lx in \<open>subst Parse_loop.simps, simp add: pt ok_next_def\<close>)+
qed

lemma parse_inv_start: "named_config c \<Longrightarrow> parse_inv TOKEN_TYPE_START (open_state (statements c) [])"
  by (cases c) (simp add: parse_inv_def)

section \<open>The look-ups\<close>

lemma named_statement_tokens: "named_statement s \<Longrightarrow> tokens s \<noteq> []"
  by (cases s) simp

lemma named_block: "named_statement s \<Longrightarrow> \<forall>x \<in> set (block_of s). named_statement x"
proof (cases s)
  case (NginxConfigStatement toks child)
  assume "named_statement s"
  with NginxConfigStatement show ?thesis
    by (cases child) (auto simp: block_of_def elim: named_config.elims)
qed

lemma vec_at_0: "xs \<noteq> [] \<Longrightarrow> vec_at xs 0 = Inr (hd xs)"
  by (cases xs) simp_all

lemma scan_block_find:
  "\<forall>s \<in> set ss. named_statement s \<Longrightarrow>
   scan_block name ss = Inr (map_option tokens (find (\<lambda>s. hd (tokens s) = name) ss))"
  by (induction ss) (auto simp: vec_at_0 named_statement_tokens simp del: vec_at_less)

lemma find_append:
  "find P (xs @ ys) = (case find P xs of None \<Rightarrow> find P ys | Some x \<Rightarrow> Some x)"
  by (induction xs) auto

lemma scan_config_find:
  assumes "\<forall>s \<in> set ss. named_statement s"
    and "\<forall>s \<in> set ss. is_server s \<longrightarrow> child_block s \<noteq> None"
  shows "scan_config name ss = Inr (map_option tokens
    (find (\<lambda>s. hd (tokens s) = name) (concat (map block_of (filter is_server ss)))))"
  using assms
proof (induction ss)
  case Nil
  then show ?case by simp
next
  case (Cons s ss)
  have hd: "vec_at (tokens s) 0 = Inr (hd (tokens s))"
    by (rule vec_at_0) (use Cons.prems(1) in \<open>simp add: named_statement_tokens\<close>)
  show ?case
  proof (cases "is_server s")
    case False
    with Cons hd show ?thesis by (simp add: is_server_def)
  next
    case True
    with Cons.prems(2) obtain b where b: "child_block s = Some b" by auto
    have "scan_block name (statements b) =
        Inr (map_option tokens (find (\<lambda>s. hd (tokens s) = name) (block_of s)))"
      using named_block [of s] Cons.prems(1) by (simp add: scan_block_find block_of_def b)
    with Cons hd True b show ?thesis
      by (simp add: is_server_def find_append split: option.splits)
  qed
qed

lemma scan_block_total:
  "\<forall>s \<in> set ss. named_statement s \<Longrightarrow> \<exists>r. scan_block name ss = Inr r"
  by (simp add: scan_block_find)

lemma scan_config_safe:
  "\<forall>s \<in> set ss. named_statement s \<Longrightarrow> scan_config name ss \<noteq> Inl (UB Index_out_of_range)"
proof (induction ss)
  case (Cons s ss)
  have hd: "vec_at (tokens s) 0 = Inr (hd (tokens s))"
    by (rule vec_at_0) (use Cons.prems in \<open>simp add: named_statement_tokens\<close>)
  have "\<exists>r. scan_block name (statements b) = Inr r" if "child_block s = Some b" for b
    by (rule scan_block_total) (use that named_block [of s] Cons.prems in \<open>simp add: block_of_def\<close>)
  with Cons hd show ?case
    by (cases "child_block s") (auto simp: bind_res_eq_Inl_conv split: option.splits)
qed simp

section \<open>Properties of the parser\<close>

text \<open>A configuration used to instantiate the properties: one server with a port and three routes.\<close>

definition sample_config :: nginx_config where
  "sample_config =
     NginxConfig [NginxConfigStatement [''server''] (Some (NginxConfig [
       NginxConfigStatement [''listen'', ''8080''] None,
       NginxConfigStatement [''pk_file'', ''key''] None,
       NginxConfigStatement [''pem_file'', ''pem''] None,
       NginxConfigStatement [''location'', ''/echo'', ''EchoHandler''] None,
       NginxConfigStatement [''location'', ''/'', ''NotFoundHandler''] None,
       NginxConfigStatement [''location'', ''/st'', ''StaticHandler''] (Some (NginxConfig [
         NginxConfigStatement [''root'', ''d''] None]))]))]"

lemma wf_sample: "wf_config sample_config" and named_sample: "named_config sample_config"
  by (simp_all add: sample_config_def wf_token_def plain_token_def is_delim_def)

text \<open>C3: reading a file that holds the printed form of a well-formed configuration (at any indentation)
  succeeds, prints no error, and yields the same tree.\<close>

theorem config_round_trip:
  assumes "wf_config c" and "open_file f = Some (NginxConfig_ToString d c)"
  shows "Parse_file open_file f (NginxConfig []) = Inr (True, c, [])"
  using assms by (simp add: Parse_file_def Parse_ToString)

theorem config_round_trip_witness:
  "Parse_file (\<lambda>f. Some (NginxConfig_ToString 1 sample_config)) ''cfg'' (NginxConfig []) =
     Inr (True, sample_config, [])"
  by (rule config_round_trip [OF wf_sample]) simp



text \<open>C25: whatever the input, the tree that the parser leaves behind has a first token in every
  statement, so none of the look-ups reads \<^verbatim>\<open>tokens_[0]\<close> of an empty vector, and the only
  undefined step of the parser itself is the use of its emptied stack.\<close>

theorem parse_result_safe:
  "case Parse input (NginxConfig []) of
     Inr (b, c, msg) \<Rightarrow> named_config c \<and> scan_config name (statements c) \<noteq> Inl (UB Index_out_of_range)
   | Inl e \<Rightarrow> e = UB Top_empty \<or> e = UB Pop_empty"
proof (cases "Parse input (NginxConfig [])")
  case (Inl e)
  then show ?thesis
    using Parse_loop_fault parse_inv_start [of "NginxConfig []"] by (auto simp: Parse_def)
next
  case (Inr r)
  obtain b c msg where r: "r = (b, c, msg)" by (metis prod_cases3)
  have "named_config c"
    using Inr r Parse_loop_named parse_inv_start [of "NginxConfig []"] by (auto simp: Parse_def)
  moreover from this have "scan_config name (statements c) \<noteq> Inl (UB Index_out_of_range)"
    by (intro scan_config_safe) (cases c, simp)
  ultimately show ?thesis by (simp add: Inr r)
qed

text \<open>In a configuration whose server statements have blocks, \<^verbatim>\<open>portNumber\<close> is the number in
  the first \<^verbatim>\<open>listen\<close> directive, and \<open>-1\<close> when there is none.\<close>

lemma port_number_first_listen:
  assumes "named_config c" and "\<forall>s \<in> set (statements c). is_server s \<longrightarrow> child_block s \<noteq> None"
  shows "portNumber c =
    (case first_directive ''listen'' c of
       None \<Rightarrow> Inr (- 1)
     | Some s \<Rightarrow> if 1 < length (tokens s) then stoi (tokens s ! 1) else Inl (UB Index_out_of_range))"
proof -
  have "\<forall>s \<in> set (statements c). named_statement s" using assms(1) by (cases c) simp
  from scan_config_find [OF this assms(2), of "''listen''"] show ?thesis
    by (simp add: portNumber_def first_directive_def vec_at_def split: option.splits)
qed

section \<open>Inputs the parser should refuse\<close>

text \<open>A block that is never closed and a brace that closes nothing are accepted, the use of the stack
  after such a brace is undefined, a name without its semicolon at the end of the file is dropped, and a
  carriage return is part of the token before it.\<close>

lemma unclosed_block_accepted:
  "Parse ''server { listen 80;'' (NginxConfig []) = Inr (True, NginxConfig [NginxConfigStatement [''server'']
     (Some (NginxConfig [NginxConfigStatement [''listen'', ''80''] None]))], [])"
  by code_simp

lemma surplus_brace_accepted: "Parse ''a; }'' (NginxConfig []) = Inr (True, NginxConfig [NginxConfigStatement [''a''] None], [])"
  by code_simp

lemma surplus_brace_undefined: "Parse ''a; } b;'' (NginxConfig []) = Inl (UB Top_empty)"
  by code_simp

lemma last_token_dropped:
  "Parse ''listen 80; threads'' (NginxConfig []) = Inr (True, NginxConfig [NginxConfigStatement [''listen'', ''80''] None], [])"
  by code_simp

lemma carriage_return_in_token:
  "Parse (''root d'' @ [CHR 0x0D, CHR 0x0A] @ '';'') (NginxConfig []) =
     Inr (True, NginxConfig [NginxConfigStatement [''root'', CHR ''d'' # [CHR 0x0D]] None], [])"
  by code_simp

lemma server_without_block: "portNumber (NginxConfig [NginxConfigStatement [''server''] None]) = Inl (UB Null_deref)"
  by code_simp

lemma listen_without_operand:
  "portNumber (NginxConfig [NginxConfigStatement [''server''] (Some (NginxConfig [NginxConfigStatement [''listen''] None]))]) =
     Inl (UB Index_out_of_range)"
  by code_simp

end
