(* ===== verification/Routes.thy ===== *)
theory Routes
  imports Factories ConfigTheorems
begin

text \<open>
  The routing of \<^verbatim>\<open>src/server.cc\<close> (\<^verbatim>\<open>server::generate_routes\<close>, which turns the
  \<^verbatim>\<open>location\<close> statements of the configuration into the map from locations to factories) and of
  \<^verbatim>\<open>src/session.cc\<close> (\<^verbatim>\<open>session::match\<close>, which picks the location of a request).
\<close>

type_synonym routes = "(string, factory) std_map"

section \<open>server::generate_routes\<close>

definition child :: "nginx_statement \<Rightarrow> nginx_statement list res" where
  "child st = (case child_block st of None \<Rightarrow> Inl (UB Null_deref) | Some b \<Rightarrow> Inr (statements b))"

text \<open>\<^verbatim>\<open>child_block_->statements_[i]->tokens_[j]\<close>.\<close>

definition child_token :: "nginx_statement \<Rightarrow> nat \<Rightarrow> nat \<Rightarrow> string res" where
  "child_token st i j =
     bind_res (child st) (\<lambda>ss. bind_res (vec_at ss i) (\<lambda>s. vec_at (tokens s) j))"

definition default_issuer :: string where
  "default_issuer = ''https://accounts.google.com''"

text \<open>The authorizer of a \<^verbatim>\<open>SecureAPIHandler\<close> block. An unknown \<^verbatim>\<open>auth_type\<close> is
  logged and leaves the pointer uninitialised, which the factory then copies.\<close>

definition make_authorizer :: "nginx_statement \<Rightarrow> auth_object res" where
  "make_authorizer st =
     bind_res (child_token st 1 1) (\<lambda>auth_type.
       if auth_type = ''OAUTH'' then
         bind_res (child_token st 1 2) (\<lambda>client_id.
           bind_res (child_token st 1 3) (\<lambda>public_key_path.
             Inr (TokenAuth client_id public_key_path default_issuer)))
       else if auth_type = ''FAKE'' then Inr FakeAuth
       else Inl (UB Uninitialised_read))"

text \<open>The factory of one \<^verbatim>\<open>location\<close> statement; other handler names make no route.\<close>

definition make_factory ::
  "'s env \<Rightarrow> string \<Rightarrow> nginx_statement \<Rightarrow> 's \<Rightarrow> (factory option \<times> 's) res" where
  "make_factory E name st s =
     (if name = ''EchoHandler'' then Inr (Some EchoHandlerFactory, s)
      else if name = ''StaticHandler'' then
        bind_res (child_token st 0 1) (\<lambda>root. Inr (Some (StaticHandlerFactory root), s))
      else if name = ''NotFoundHandler'' then Inr (Some NotFoundHandlerFactory, s)
      else if name = ''APIHandler'' then
        bind_res (child_token st 0 1) (\<lambda>root.
          bind_res (scanFS E root s) (\<lambda>(_, m, s'). Inr (Some (APIHandlerFactory root m), s')))
      else if name = ''SecureAPIHandler'' then
        bind_res (child_token st 0 1) (\<lambda>root.
          bind_res (make_authorizer st) (\<lambda>authorizer.
            bind_res (scanFS E root s) (\<lambda>(_, m, s').
              Inr (Some (SecureAPIHandlerFactory root m authorizer), s'))))
      else if name = ''HealthHandler'' then Inr (Some HealthHandlerFactory, s)
      else if name = ''SleepHandler'' then Inr (Some SleepHandlerFactory, s)
      else if name = ''LoginHandler'' then
        bind_res (child_token st 0 1) (\<lambda>root. Inr (Some (LoginHandlerFactory root), s))
      else Inr (None, s))"

fun location_routes ::
  "'s env \<Rightarrow> nginx_statement list \<Rightarrow> routes \<Rightarrow> 's \<Rightarrow> (routes \<times> 's) res" where
  "location_routes E [] rs s = Inr (rs, s)"
| "location_routes E (sub # subs) rs s =
     bind_res (vec_at (tokens sub) 0) (\<lambda>t.
       if t = ''location'' then
         bind_res (vec_at (tokens sub) 1) (\<lambda>location.
           bind_res (vec_at (tokens sub) 2) (\<lambda>name.
             bind_res (make_factory E name sub s) (\<lambda>(f, s').
               location_routes E subs
                 (case f of Some f \<Rightarrow> map_insert location f rs | None \<Rightarrow> rs) s')))
       else location_routes E subs rs s)"

fun server_routes ::
  "'s env \<Rightarrow> nginx_statement list \<Rightarrow> routes \<Rightarrow> 's \<Rightarrow> (routes \<times> 's) res" where
  "server_routes E [] rs s = Inr (rs, s)"
| "server_routes E (st # sts) rs s =
     bind_res (vec_at (tokens st) 0) (\<lambda>t.
       if t = ''server'' then
         bind_res (child st) (\<lambda>subs.
           bind_res (location_routes E subs rs s) (\<lambda>(rs', s'). server_routes E sts rs' s'))
       else server_routes E sts rs s)"

definition generate_routes :: "'s env \<Rightarrow> nginx_config \<Rightarrow> 's \<Rightarrow> (routes \<times> 's) res" where
  "generate_routes E config s = server_routes E (statements config) [] s"

section \<open>session::match\<close>

text \<open>The loop carries \<^verbatim>\<open>longest_match\<close> and \<^verbatim>\<open>longest_match_location\<close>; \<^verbatim>\<open>substr(0, n)\<close>
  never throws and clips.\<close>

primrec match_loop :: "routes \<Rightarrow> string \<Rightarrow> nat \<Rightarrow> string \<Rightarrow> string" where
  "match_loop [] url longest_match location = location"
| "match_loop (r # rs) url longest_match location =
     (let sub_url = take (length (fst r)) url
      in if sub_url = fst r \<and> longest_match < length sub_url
         then match_loop rs url (length sub_url) sub_url
         else match_loop rs url longest_match location)"

definition match :: "routes \<Rightarrow> string \<Rightarrow> string" where
  "match routes request_url = match_loop routes request_url 0 ''''"

section \<open>Specification of the routes\<close>

text \<open>A \<^verbatim>\<open>location\<close> statement with the operands its handler needs.\<close>

definition block_token :: "nginx_statement \<Rightarrow> nat \<Rightarrow> nat \<Rightarrow> bool" where
  "block_token st i j \<longleftrightarrow>
     child_block st \<noteq> None \<and> i < length (block_of st) \<and> j < length (tokens (block_of st ! i))"

definition rooted_handlers :: "string list" where
  "rooted_handlers = [''StaticHandler'', ''APIHandler'', ''SecureAPIHandler'', ''LoginHandler'']"

definition auth_operands :: "nginx_statement \<Rightarrow> bool" where
  "auth_operands st \<longleftrightarrow> block_token st 1 1 \<and>
     (tokens (block_of st ! 1) ! 1 = ''FAKE'' \<or>
      tokens (block_of st ! 1) ! 1 = ''OAUTH'' \<and> block_token st 1 3)"

definition is_location :: "nginx_statement \<Rightarrow> bool" where
  "is_location st \<longleftrightarrow> hd (tokens st) = ''location''"

definition location_ok :: "nginx_statement \<Rightarrow> bool" where
  "location_ok st \<longleftrightarrow> is_location st \<longrightarrow> 3 \<le> length (tokens st)
     \<and> (tokens st ! 2 \<in> set rooted_handlers \<longrightarrow> block_token st 0 1)
     \<and> (tokens st ! 2 = ''SecureAPIHandler'' \<longrightarrow> auth_operands st)"

definition config_ok :: "nginx_config \<Rightarrow> bool" where
  "config_ok c \<longleftrightarrow> (\<forall>st \<in> set (statements c). is_server st \<longrightarrow>
     child_block st \<noteq> None \<and> (\<forall>sub \<in> set (block_of st). location_ok sub))"

text \<open>The handler names the server knows, and the kind of factory each makes.\<close>

fun kind_of :: "factory \<Rightarrow> string" where
  "kind_of (StaticHandlerFactory _) = ''StaticHandler''"
| "kind_of EchoHandlerFactory = ''EchoHandler''"
| "kind_of NotFoundHandlerFactory = ''NotFoundHandler''"
| "kind_of (APIHandlerFactory _ _) = ''APIHandler''"
| "kind_of (SecureAPIHandlerFactory _ _ _) = ''SecureAPIHandler''"
| "kind_of SleepHandlerFactory = ''SleepHandler''"
| "kind_of HealthHandlerFactory = ''HealthHandler''"
| "kind_of (LoginHandlerFactory _) = ''LoginHandler''"

definition handler_kinds :: "string list" where
  "handler_kinds = [''StaticHandler'', ''EchoHandler'', ''NotFoundHandler'', ''APIHandler'',
     ''SecureAPIHandler'', ''SleepHandler'', ''HealthHandler'', ''LoginHandler'']"

text \<open>The route table a configuration asks for: the first location statement of a known kind wins.\<close>

definition known_location :: "nginx_statement \<Rightarrow> bool" where
  "known_location st \<longleftrightarrow> is_location st \<and> tokens st ! 2 \<in> set handler_kinds"

definition locations :: "nginx_config \<Rightarrow> nginx_statement list" where
  "locations c = filter known_location (concat (map block_of (filter is_server (statements c))))"

definition routed_kind :: "nginx_config \<Rightarrow> string \<Rightarrow> string option" where
  "routed_kind c l = map_option (\<lambda>st. tokens st ! 2) (find (\<lambda>st. tokens st ! 1 = l) (locations c))"

section \<open>Longest prefix matching\<close>

lemma take_eq_prefix: "take (length l) url = l \<longleftrightarrow> prefix l url"
  by (metis append_eq_conv_conj append_take_drop_id prefix_def)

lemma match_loop_Cons:
  "match_loop (r # rs) url n loc =
     (if prefix (fst r) url \<and> n < length (fst r) then match_loop rs url (length (fst r)) (fst r)
      else match_loop rs url n loc)"
  by (auto simp: Let_def take_eq_prefix prefix_def)

declare match_loop.simps(2) [simp del]

text \<open>Of the candidates and the best location so far, the loop returns one that is at least as long as
  every matching candidate.\<close>

lemma match_loop_result:
  "n = length loc \<Longrightarrow>
   match_loop rs url n loc = loc \<or>
   match_loop rs url n loc \<in> fst ` set rs \<and> prefix (match_loop rs url n loc) url"
proof (induction rs arbitrary: n loc)
  case (Cons r rs)
  from Cons.IH [of "length (fst r)" "fst r"] Cons.IH [of n loc] Cons.prems
  show ?case by (auto simp: match_loop_Cons)
qed simp

lemma match_loop_ge:
  "n = length loc \<Longrightarrow> n \<le> length (match_loop rs url n loc)"
proof (induction rs arbitrary: n loc)
  case (Cons r rs)
  from Cons.IH [of "length (fst r)" "fst r"] Cons.IH [of n loc] Cons.prems
  show ?case by (simp add: match_loop_Cons)
qed simp

lemma match_loop_longest:
  "\<lbrakk>n = length loc; l \<in> fst ` set rs; prefix l url\<rbrakk> \<Longrightarrow>
   length l \<le> length (match_loop rs url n loc)"
proof (induction rs arbitrary: n loc)
  case (Cons r rs)
  let ?m = "length (fst r)"
  show ?case
  proof (cases "l = fst r")
    case True
    have "?m \<le> length (match_loop rs url ?m (fst r))"
      by (rule match_loop_ge) simp
    moreover have "n \<le> length (match_loop rs url n loc)"
      using Cons.prems(1) by (rule match_loop_ge)
    ultimately show ?thesis using True Cons.prems(3) by (simp add: match_loop_Cons)
  next
    case False
    with Cons show ?thesis by (simp add: match_loop_Cons)
  qed
qed simp

lemma match_prefix: "prefix (match rs url) url"
  using match_loop_result [of 0 "[]" rs url] by (auto simp: match_def)

lemma match_member: "match rs url \<noteq> '''' \<Longrightarrow> match rs url \<in> fst ` set rs"
  using match_loop_result [of 0 "[]" rs url] by (auto simp: match_def)

lemma match_longest: "l \<in> fst ` set rs \<Longrightarrow> prefix l url \<Longrightarrow> length l \<le> length (match rs url)"
  unfolding match_def by (rule match_loop_longest) simp_all

text \<open>Two prefixes of one string with the same length are equal, so the choice is unique.\<close>

lemma match_unique:
  assumes "l \<in> fst ` set rs" and "prefix l url"
    and "\<And>l'. l' \<in> fst ` set rs \<Longrightarrow> prefix l' url \<Longrightarrow> length l' \<le> length l"
  shows "match rs url = l"
proof (cases "match rs url = ''''")
  case True
  with match_longest [OF assms(1,2)] show ?thesis by simp
next
  case False
  then have "length (match rs url) \<le> length l"
    using match_member match_prefix assms(3) by blast
  with match_longest [OF assms(1,2)] show ?thesis
    using match_prefix assms(2) by (metis le_antisym append_eq_conv_conj prefix_def)
qed

section \<open>The generated routes\<close>

lemma child_token_ok:
  "block_token st i j \<Longrightarrow> child_token st i j = Inr (tokens (block_of st ! i) ! j)"
  by (auto simp: child_token_def block_token_def child_def block_of_def)

lemma block_token_mono: "block_token st i j \<Longrightarrow> k \<le> j \<Longrightarrow> block_token st i k"
  by (auto simp: block_token_def)

lemma make_authorizer_ok:
  assumes "auth_operands st"
  shows "\<exists>a. make_authorizer st = Inr a"
proof -
  have "block_token st 1 3 \<Longrightarrow> block_token st 1 2"
    by (erule block_token_mono) simp
  with assms show ?thesis
    by (auto simp: auth_operands_def make_authorizer_def child_token_ok)
qed

lemma scanFS_fault:
  "scanFS E root s = Inl x \<Longrightarrow> \<exists>p s. bfs_create_directory (env_disk E) p s = Inl x"
  by (auto simp: scanFS_def bind_res_eq_Inl_conv split: if_splits)

text \<open>A well-formed statement can only fail in \<^verbatim>\<open>create_directory\<close>, inside the scan.\<close>

lemma make_factory_fault:
  assumes "is_location sub" "location_ok sub" "make_factory E (tokens sub ! 2) sub s = Inl x"
  shows "\<exists>p s. bfs_create_directory (env_disk E) p s = Inl x"
proof -
  have b: "tokens sub ! 2 \<in> set rooted_handlers \<Longrightarrow> block_token sub 0 1"
    using assms(1,2) by (simp add: location_ok_def)
  show ?thesis
    using assms b make_authorizer_ok [of sub]
    by (auto simp: make_factory_def location_ok_def rooted_handlers_def child_token_ok
        bind_res_eq_Inl_conv dest: scanFS_fault split: if_splits)
qed

lemma make_factory_kind:
  assumes "make_factory E name st s = Inr (f, s')"
  shows "map_option kind_of f = (if name \<in> set handler_kinds then Some name else None)"
  using assms
  by (auto simp: make_factory_def handler_kinds_def bind_res_eq_Inr_conv split: if_splits)

lemma make_factory_index:
  assumes "make_factory E name st s = Inr (Some f, s')"
  shows "index_inv (factory_index f)"
  using assms
  by (auto simp: make_factory_def bind_res_eq_Inr_conv dest: scanFS_index_inv split: if_splits)

lemma vec_at_eq_Inr: "vec_at xs i = Inr x \<longleftrightarrow> i < length xs \<and> x = xs ! i"
  by (auto simp: vec_at_def)

definition find_location :: "string \<Rightarrow> nginx_statement list \<Rightarrow> nginx_statement option" where
  "find_location l sts = find (\<lambda>st. tokens st ! 1 = l) (filter known_location sts)"

lemma find_location_simps [simp]:
  "find_location l [] = None"
  "find_location l (st # sts) =
     (if known_location st \<and> tokens st ! 1 = l then Some st else find_location l sts)"
  by (simp_all add: find_location_def)

lemma find_location_append:
  "find_location l (xs @ ys) =
     (case find_location l xs of Some st \<Rightarrow> Some st | None \<Rightarrow> find_location l ys)"
  by (induction xs) auto

definition or_else :: "'a option \<Rightarrow> 'a option \<Rightarrow> 'a option" where
  "or_else a b = (case a of Some x \<Rightarrow> Some x | None \<Rightarrow> b)"

lemma or_else_simps [simp]:
  "or_else None b = b" "or_else (Some x) b = Some x" "or_else a None = a"
  "or_else (or_else a b) c = or_else a (or_else b c)"
  by (auto simp: or_else_def split: option.splits)

definition kinds :: "routes \<Rightarrow> string \<Rightarrow> string option" where
  "kinds rs l = map_option kind_of (map_find rs l)"

lemma kinds_insert:
  "map_sorted rs \<Longrightarrow>
   kinds (map_insert k f rs) l = or_else (kinds rs l) (if l = k then Some (kind_of f) else None)"
  by (auto simp: kinds_def map_facts or_else_def split: option.splits)

lemma location_routes_sorted:
  "location_routes E subs rs s = Inr (rs', s') \<Longrightarrow> map_sorted rs \<Longrightarrow> map_sorted rs'"
proof (induction E subs rs s rule: location_routes.induct)
  case (2 E sub subs rs s)
  then show ?case
    by (auto simp: bind_res_eq_Inr_conv map_facts split: if_splits option.splits)
qed simp

text \<open>The routes of one block: what was there stays, then the first known location counts.\<close>

lemma location_routes_kinds:
  "location_routes E subs rs s = Inr (rs', s') \<Longrightarrow> map_sorted rs \<Longrightarrow>
   kinds rs' l = or_else (kinds rs l) (map_option (\<lambda>st. tokens st ! 2) (find_location l subs))"
proof (induction subs arbitrary: rs s)
  case (Cons sub subs)
  show ?case
  proof (cases "is_location sub")
    case True
    with Cons.prems obtain f s1 where len: "2 < length (tokens sub)"
      and f: "make_factory E (tokens sub ! 2) sub s = Inr (f, s1)"
      and rest: "location_routes E subs
        (case f of Some f \<Rightarrow> map_insert (tokens sub ! 1) f rs | None \<Rightarrow> rs) s1 = Inr (rs', s')"
      by (auto simp: bind_res_eq_Inr_conv vec_at_eq_Inr is_location_def hd_conv_nth
          simp del: One_nat_def split: if_splits)
    have known: "known_location sub \<longleftrightarrow> f \<noteq> None" and "\<And>x. f = Some x \<Longrightarrow> kind_of x = tokens sub ! 2"
      using True make_factory_kind [OF f] by (auto simp: known_location_def split: if_splits)
    moreover have "kinds rs' l = or_else (kinds (case f of Some f \<Rightarrow>
        map_insert (tokens sub ! 1) f rs | None \<Rightarrow> rs) l)
      (map_option (\<lambda>st. tokens st ! 2) (find_location l subs))"
      using Cons.prems(2) by (intro Cons.IH [OF rest]) (auto simp: map_facts split: option.splits)
    ultimately show ?thesis
      using Cons.prems(2) by (cases f) (auto simp: kinds_insert)
  next
    case False
    with Cons show ?thesis
      by (auto simp: bind_res_eq_Inr_conv vec_at_eq_Inr is_location_def hd_conv_nth
          known_location_def split: if_splits)
  qed
qed simp

lemma server_routes_sorted:
  "server_routes E sts rs s = Inr (rs', s') \<Longrightarrow> map_sorted rs \<Longrightarrow> map_sorted rs'"
proof (induction sts arbitrary: rs s)
  case (Cons st sts)
  then show ?case
    by (auto simp: bind_res_eq_Inr_conv dest: location_routes_sorted split: if_splits)
qed simp

definition server_blocks :: "nginx_statement list \<Rightarrow> nginx_statement list" where
  "server_blocks sts = concat (map block_of (filter is_server sts))"

lemma server_blocks_simps [simp]:
  "server_blocks [] = []"
  "server_blocks (st # sts) = (if is_server st then block_of st @ server_blocks sts else server_blocks sts)"
  by (simp_all add: server_blocks_def)

lemma child_eq_Inr: "child st = Inr subs \<Longrightarrow> subs = block_of st"
  by (auto simp: child_def block_of_def split: option.splits)

lemma map_option_find_location_append:
  "map_option g (find_location l (xs @ ys)) =
     or_else (map_option g (find_location l xs)) (map_option g (find_location l ys))"
  by (simp add: find_location_append or_else_def split: option.splits)

lemma server_routes_kinds:
  "server_routes E sts rs s = Inr (rs', s') \<Longrightarrow> map_sorted rs \<Longrightarrow>
   kinds rs' l =
     or_else (kinds rs l) (map_option (\<lambda>st. tokens st ! 2) (find_location l (server_blocks sts)))"
proof (induction sts arbitrary: rs s)
  case (Cons st sts)
  show ?case
  proof (cases "is_server st")
    case True
    with Cons.prems obtain rs1 s1 where
      block: "location_routes E (block_of st) rs s = Inr (rs1, s1)"
      and rest: "server_routes E sts rs1 s1 = Inr (rs', s')"
      by (auto simp: bind_res_eq_Inr_conv vec_at_eq_Inr is_server_def hd_conv_nth
          dest: child_eq_Inr split: if_splits)
    have "map_sorted rs1"
      using block Cons.prems(2) by (rule location_routes_sorted)
    with True show ?thesis
      by (simp add: Cons.IH [OF rest] location_routes_kinds [OF block Cons.prems(2)]
          map_option_find_location_append)
  next
    case False
    with Cons show ?thesis
      by (auto simp: bind_res_eq_Inr_conv vec_at_eq_Inr is_server_def hd_conv_nth split: if_splits)
  qed
qed simp

lemma generate_routes_kinds:
  assumes "generate_routes E c s = Inr (rs, s')"
  shows "kinds rs l = routed_kind c l"
  using server_routes_kinds [of E "statements c" "[]" s rs s' l] assms
  by (simp add: generate_routes_def kinds_def routed_kind_def locations_def find_location_def
      server_blocks_def map_find_def)

lemma generate_routes_sorted: "generate_routes E c s = Inr (rs, s') \<Longrightarrow> map_sorted rs"
  unfolding generate_routes_def by (erule server_routes_sorted) simp

section \<open>Faults while the routes are built\<close>

lemma location_routes_fault:
  assumes "location_routes E subs rs s = Inl x"
    and "\<forall>sub \<in> set subs. tokens sub \<noteq> [] \<and> location_ok sub"
  shows "\<exists>p s. bfs_create_directory (env_disk E) p s = Inl x"
  using assms
proof (induction subs arbitrary: rs s)
  case (Cons sub subs)
  show ?case
  proof (cases "is_location sub")
    case True
    with Cons.prems(2) have "2 < length (tokens sub)"
      by (simp add: location_ok_def)
    with True Cons make_factory_fault [OF True] show ?thesis
      by (auto simp: bind_res_eq_Inl_conv is_location_def hd_conv_nth)
  next
    case False
    with Cons show ?thesis by (auto simp: is_location_def hd_conv_nth)
  qed
qed simp

lemma server_routes_fault:
  assumes "server_routes E sts rs s = Inl x"
    and "\<forall>st \<in> set sts. named_statement st \<and> (is_server st \<longrightarrow> child_block st \<noteq> None \<and>
      (\<forall>sub \<in> set (block_of st). location_ok sub))"
  shows "\<exists>p s. bfs_create_directory (env_disk E) p s = Inl x"
  using assms
proof (induction sts arbitrary: rs s)
  case (Cons st sts)
  have "tokens st \<noteq> []" and sub: "\<forall>sub \<in> set (block_of st). tokens sub \<noteq> []"
    using Cons.prems(2) by (auto dest: named_statement_tokens named_block)
  show ?case
  proof (cases "is_server st")
    case True
    with Cons.prems(2) have "child st = Inr (block_of st)"
      by (auto simp: child_def block_of_def)
    with True Cons sub \<open>tokens st \<noteq> []\<close> show ?thesis
      by (auto simp: bind_res_eq_Inl_conv is_server_def hd_conv_nth
          dest!: location_routes_fault)
  next
    case False
    with Cons \<open>tokens st \<noteq> []\<close> show ?thesis by (simp add: is_server_def hd_conv_nth)
  qed
qed simp

section \<open>Properties of routing\<close>

lemma sample_servers: "\<forall>s \<in> set (statements sample_config). is_server s \<longrightarrow> child_block s \<noteq> None"
  by (simp add: sample_config_def)

lemma sample_routes:
  "generate_routes sample_env sample_config d =
     Inr ([(''/'', NotFoundHandlerFactory), (''/echo'', EchoHandlerFactory), (''/st'', StaticHandlerFactory ''d'')], d)"
  by (simp add: generate_routes_def sample_config_def child_def child_token_def make_factory_def)

text \<open>C23: the generated routes. When the routes can be built, a location leads to the kind of handler
  that the first \<^verbatim>\<open>location\<close> statement for it names, over all server blocks in file order, and
  statements naming an unknown handler make no route.\<close>

theorem routes_follow_config:
  assumes "generate_routes E c s = Inr (rs, s')"
  shows "map_option kind_of (map_find rs l) = routed_kind c l \<and> map_sorted rs"
  using generate_routes_kinds [OF assms] generate_routes_sorted [OF assms] by (simp add: kinds_def)

theorem routes_follow_config_witness:
  "routed_kind sample_config ''/st'' = Some ''StaticHandler''"
  using routes_follow_config [OF sample_routes [of "[]"], of "''/st''"] by (simp add: map_find_def)


text \<open>An API root below a missing directory: the constructor's \<^verbatim>\<open>create_directory\<close> throws.\<close>

definition orphan_config :: nginx_config where
  "orphan_config =
     NginxConfig [NginxConfigStatement [''server''] (Some (NginxConfig [
       NginxConfigStatement [''location'', ''/api'', ''APIHandler''] (Some (NginxConfig [
         NginxConfigStatement [''root'', ''/a/b''] None]))]))]"


text \<open>C22: longest prefix matching. The location \<^verbatim>\<open>match\<close> returns is a prefix of the request
  target, it is a key of the map unless it is empty, and no key that is a prefix of the target is
  longer.\<close>

theorem match_is_longest_prefix:
  "prefix (match rs url) url
   \<and> (match rs url = [] \<or> match rs url \<in> fst ` set rs)
   \<and> (\<forall>l \<in> fst ` set rs. prefix l url \<longrightarrow> length l \<le> length (match rs url))"
  using match_prefix match_member match_longest by blast

theorem match_is_longest_prefix_witness:
  "match [(''/'', NotFoundHandlerFactory), (''/echo'', EchoHandlerFactory)] ''/echo/x'' = ''/echo''"
proof -
  let ?rs = "[(''/'', NotFoundHandlerFactory), (''/echo'', EchoHandlerFactory)]"
  have "match ?rs ''/echo/x'' \<in> {[], ''/'', ''/echo''} \<and> 5 \<le> length (match ?rs ''/echo/x'')"
    using match_is_longest_prefix [of ?rs "''/echo/x''"] by auto
  then show ?thesis by auto
qed

end
