(* ===== verification/Session.thy ===== *)
theory Session
  imports Routes
begin

text \<open>
  \<^verbatim>\<open>src/session.cc\<close>: one TLS connection as a state machine driven by completion handlers. Each
  handler ends by starting the next asynchronous operation, by \<^verbatim>\<open>delete this\<close>, or by doing
  neither; \<open>io_action\<close> is that last step. The request a read delivers and the error code and
  byte count of a completion come from the network, so they are arguments. \<open>remote_ok\<close> says
  whether \<^verbatim>\<open>remote_endpoint()\<close>, called while the response is logged, finds the peer still
  connected; otherwise it throws \<^verbatim>\<open>boost::system::system_error\<close>.

  \<open>handle_read\<close> also works on the routes, since a factory owns the entity index its handlers
  change, and on the disk. Handlers run one at a time here; the data races that several io threads
  can have on one entity index are not part of the model.
\<close>

section \<open>The session object\<close>

datatype io_action = Async_handshake | Async_read | Async_write http_response | Delete_this | No_action

record session =
  request_field :: http_request
  response_field :: http_response

definition fresh_request :: http_request where
  "fresh_request = \<lparr>method_string = '''', target = '''', req_version = 11, req_fields = [],
     req_body = ''''\<rparr>"

definition new_session :: session where
  "new_session = \<lparr>request_field = fresh_request, response_field = fresh_response\<rparr>"

definition start :: "int \<times> io_action" where
  "start = (1, Async_handshake)"

definition handle_handshake :: "bool \<Rightarrow> int \<times> io_action" where
  "handle_handshake error = (if \<not> error then (1, Async_read) else (- 1, Delete_this))"

definition handle_write :: "bool \<Rightarrow> int \<times> io_action" where
  "handle_write error = (if \<not> error then (1, Async_read) else (- 1, Delete_this))"

definition invalid_request_response :: "beast \<Rightarrow> http_response \<Rightarrow> http_response" where
  "invalid_request_response B res =
     prepare_payload B (res\<lparr>res_version := 11, result := bad_request,
       content_type := Some ''text/html'', body := ''<html><h1>400 Bad Request</h1></html>''\<rparr>)"

text \<open>The routes and the disk, which all sessions share.\<close>

record 's shared =
  routes :: routes
  disk :: 's

text \<open>Creating a handler with the factory of a location and running it once; the factory's index is
  written back through the pointer it was given.\<close>

definition run_handler ::
  "'s env \<Rightarrow> string \<Rightarrow> factory \<Rightarrow> http_request \<Rightarrow> http_response \<Rightarrow> 's shared \<Rightarrow>
   (http_response \<times> 's shared) res" where
  "run_handler E location f req res sh =
     bind_res (create E f location (disk sh)) (\<lambda>(h, s1).
       bind_res (get_response E h req res \<lparr>entity_id_map = factory_index f, store = s1\<rparr>)
         (\<lambda>(_, res', st).
           Inr (res', \<lparr>routes = map_assign location (set_factory_index (entity_id_map st) f) (routes sh),
             disk = store st\<rparr>)))"

text \<open>The answer to a request that arrived whole: routed to a handler, or 400.\<close>

definition answer ::
  "'s env \<Rightarrow> http_request \<Rightarrow> http_response \<Rightarrow> 's shared \<Rightarrow> (http_response \<times> 's shared) res" where
  "answer E req res sh =
     (let location = match (routes sh) (target req)
      in case map_find (routes sh) location of
           None \<Rightarrow> Inr (invalid_request_response (env_beast E) res, sh)
         | Some f \<Rightarrow> run_handler E location f req res sh)"

definition handle_read ::
  "'s env \<Rightarrow> bool \<Rightarrow> nat \<Rightarrow> bool \<Rightarrow> session \<Rightarrow> 's shared \<Rightarrow>
   ((int \<times> io_action) \<times> session \<times> 's shared) res" where
  "handle_read E error bytes_transferred remote_ok ses sh =
     (if \<not> error then
        bind_res (answer E (request_field ses) (response_field ses) sh) (\<lambda>(res', sh').
          if \<not> remote_ok then Inl (Exn Runtime_error)
          else Inr ((1, Async_write res'), ses\<lparr>response_field := res'\<rparr>, sh'))
      else if 0 < bytes_transferred then
        (let res' = invalid_request_response (env_beast E) (response_field ses)
         in Inr ((- 1, Async_write res'), ses\<lparr>response_field := res'\<rparr>, sh))
      else Inr ((- 1, No_action), ses, sh))"

section \<open>Connections as a state machine\<close>

text \<open>Where a connection stands: which completion it waits for, or that its object was deleted, or
  that nothing will ever run on it again although it was not deleted.\<close>

datatype phase = Handshaking | Reading | Writing http_response | Deleted | Leaked

fun phase_after :: "io_action \<Rightarrow> phase" where
  "phase_after Async_handshake = Handshaking"
| "phase_after Async_read = Reading"
| "phase_after (Async_write res) = Writing res"
| "phase_after Delete_this = Deleted"
| "phase_after No_action = Leaked"

record conn =
  conn_phase :: phase
  conn_session :: session

datatype completion =
    Handshake_done bool
  | Read_done bool nat bool http_request
  | Write_done bool

fun complete ::
  "'s env \<Rightarrow> completion \<Rightarrow> conn \<Rightarrow> 's shared \<Rightarrow> (conn \<times> 's shared) res" where
  "complete E (Handshake_done error) c sh =
     Inr (c\<lparr>conn_phase := phase_after (snd (handle_handshake error))\<rparr>, sh)"
| "complete E (Read_done error bytes remote_ok req) c sh =
     bind_res (handle_read E error bytes remote_ok ((conn_session c)\<lparr>request_field := req\<rparr>) sh)
       (\<lambda>((_, act), ses, sh'). Inr (\<lparr>conn_phase = phase_after act, conn_session = ses\<rparr>, sh'))"
| "complete E (Write_done error) c sh =
     Inr (c\<lparr>conn_phase := phase_after (snd (handle_write error))\<rparr>, sh)"

text \<open>Which completion a phase waits for.\<close>

fun awaits :: "phase \<Rightarrow> completion \<Rightarrow> bool" where
  "awaits Handshaking (Handshake_done _) = True"
| "awaits Reading (Read_done _ _ _ _) = True"
| "awaits (Writing _) (Write_done _) = True"
| "awaits _ _ = False"

inductive session_step ::
  "'s env \<Rightarrow> conn \<times> 's shared \<Rightarrow> conn \<times> 's shared \<Rightarrow> bool" for E where
  step: "awaits (conn_phase c) ev \<Longrightarrow> complete E ev c sh = Inr (c', sh') \<Longrightarrow>
    session_step E (c, sh) (c', sh')"

inductive_cases session_stepE: "session_step E (c, sh) (c', sh')"

definition accepted :: conn where
  "accepted = \<lparr>conn_phase = phase_after (snd start), conn_session = new_session\<rparr>"

section \<open>The invariant of the shared state\<close>

definition routes_inv :: "routes \<Rightarrow> bool" where
  "routes_inv rs \<longleftrightarrow> map_sorted rs \<and> (\<forall>f \<in> snd ` set rs. index_inv (factory_index f))"

lemma routes_inv_find: "routes_inv rs \<Longrightarrow> map_find rs l = Some f \<Longrightarrow> index_inv (factory_index f)"
  by (force simp: routes_inv_def map_find_def dest: map_of_SomeD)

lemma snd_set_map_insert: "snd ` set (map_insert k v m) \<subseteq> insert v (snd ` set m)"
  by (induction k v m rule: map_insert.induct) auto

lemma snd_set_map_assign: "snd ` set (map_assign k v m) \<subseteq> insert v (snd ` set m)"
  by (induction k v m rule: map_assign.induct) auto

lemma routes_inv_insert:
  "routes_inv rs \<Longrightarrow> index_inv (factory_index f) \<Longrightarrow> routes_inv (map_insert l f rs)"
  using snd_set_map_insert [of l f rs] unfolding routes_inv_def by (blast intro: smap.invar_ins)

lemma routes_inv_assign:
  "routes_inv rs \<Longrightarrow> index_inv (factory_index f) \<Longrightarrow> routes_inv (map_assign l f rs)"
  using snd_set_map_assign [of l f rs] unfolding routes_inv_def by (blast intro: smap.invar_asg)

lemma index_inv_set_factory_index:
  "index_inv m \<Longrightarrow> index_inv (factory_index (set_factory_index m f))"
  by (cases f) simp_all

lemma kind_set_factory_index [simp]: "kind_of (set_factory_index m f) = kind_of f"
  by (cases f) simp_all

lemma location_routes_inv:
  "location_routes E subs rs s = Inr (rs', s') \<Longrightarrow> routes_inv rs \<Longrightarrow> routes_inv rs'"
proof (induction subs arbitrary: rs s)
  case (Cons sub subs)
  have "routes_inv (map_insert l f rs)" if "make_factory E n sub s = Inr (Some f, s1)" for l f n s1
    using Cons.prems(2) make_factory_index [OF that] by (rule routes_inv_insert)
  with Cons show ?case
    by (auto simp: bind_res_eq_Inr_conv split: if_splits option.splits)
qed simp

lemma server_routes_inv:
  "server_routes E sts rs s = Inr (rs', s') \<Longrightarrow> routes_inv rs \<Longrightarrow> routes_inv rs'"
proof (induction sts arbitrary: rs s)
  case (Cons st sts)
  then show ?case by (auto simp: bind_res_eq_Inr_conv dest: location_routes_inv split: if_splits)
qed simp

lemma generate_routes_inv: "generate_routes E c s = Inr (rs, s') \<Longrightarrow> routes_inv rs"
  unfolding generate_routes_def by (erule server_routes_inv) (simp add: routes_inv_def)

section \<open>Answering a request\<close>

lemma run_handler_cases:
  assumes "run_handler E loc f req res sh = Inr (res', sh')"
  obtains h s1 b st where "create E f loc (disk sh) = Inr (h, s1)"
    and "get_response E h req res \<lparr>entity_id_map = factory_index f, store = s1\<rparr> = Inr (b, res', st)"
    and "sh' = \<lparr>routes = map_assign loc (set_factory_index (entity_id_map st) f) (routes sh),
      disk = store st\<rparr>"
  using assms by (auto simp: run_handler_def bind_res_eq_Inr_conv)

lemma run_handler_framed:
  assumes "payload_ok (env_beast E)" and "run_handler E loc f req res sh = Inr (res', sh')"
  shows "well_framed res'"
  using assms(2) by (rule run_handler_cases) (rule get_response_framed [OF assms(1)])

lemma run_handler_inv:
  assumes "routes_inv (routes sh)" and "map_find (routes sh) loc = Some f"
    and "run_handler E loc f req res sh = Inr (res', sh')"
  shows "routes_inv (routes sh') \<and> kinds (routes sh') = kinds (routes sh)"
  using assms(3)
proof (rule run_handler_cases)
  fix h s1 b st
  assume g: "get_response E h req res \<lparr>entity_id_map = factory_index f, store = s1\<rparr> = Inr (b, res', st)"
    and sh': "sh' = \<lparr>routes = map_assign loc (set_factory_index (entity_id_map st) f) (routes sh),
      disk = store st\<rparr>"
  have "index_inv (entity_id_map st)"
    using g routes_inv_find [OF assms(1,2)] by (intro get_response_index_inv [OF _ g]) simp
  then have "index_inv (factory_index (set_factory_index (entity_id_map st) f))"
    by (rule index_inv_set_factory_index)
  moreover have "map_sorted (routes sh)"
    using assms(1) by (simp add: routes_inv_def)
  ultimately show ?thesis
    using assms(1,2) by (auto simp: sh' routes_inv_assign kinds_def map_facts fun_eq_iff)
qed

lemma answer_framed:
  assumes "payload_ok (env_beast E)" and "answer E req res sh = Inr (res', sh')"
  shows "well_framed res'"
  using assms run_handler_framed [OF assms(1)]
  by (auto simp: answer_def Let_def invalid_request_response_def well_framed_prepare
      split: option.splits)

lemma answer_inv:
  assumes "routes_inv (routes sh)" and "answer E req res sh = Inr (res', sh')"
  shows "routes_inv (routes sh') \<and> kinds (routes sh') = kinds (routes sh)"
  using assms run_handler_inv [OF assms(1)]
  by (auto simp: answer_def Let_def split: option.splits)

section \<open>Faults while a request is answered\<close>

definition fs_fault :: "'s filesystem \<Rightarrow> fault \<Rightarrow> bool" where
  "fs_fault FS err \<longleftrightarrow>
     (\<exists>p s. fs_create_directory FS p s = Inl err \<or> fs_remove FS p s = Inl err)"

definition served_fault :: "'s env \<Rightarrow> http_request \<Rightarrow> fault \<Rightarrow> bool" where
  "served_fault E req err \<longleftrightarrow> fs_fault (env_fs E) err
     \<or> err = UB End_iterator_deref \<and> method_string req = ''POST''
     \<or> err = Exn Invalid_argument \<and> \<not> known_verb (env_beast E) (method_string req)
     \<or> err = UB Signed_overflow"

lemma API_served_fault:
  assumes "index_inv (entity_id_map st)" and "prefix_length h \<le> length (target req)"
    and "API_get_response (env_beast E) P (env_fs E) h req res st = Inl err"
  shows "fs_fault (env_fs E) err \<or> err = UB End_iterator_deref \<and> method_string req = ''POST''"
  using API_faults [OF assms(1,3)] assms(2) by (auto simp: fs_fault_def)

lemma secure_served_fault:
  assumes inv: "index_inv (entity_id_map st)" and len: "secure_prefix_length h \<le> length (target req)"
    and fault: "SecureAPI_get_response (env_beast E) P (env_fs E) (get_auth E a s) h req res st = Inl err"
  shows "served_fault E req err"
  using fault
proof (rule dispatch.secure_faults)
  assume "err = UB Signed_overflow"
  then show ?thesis by (simp add: served_fault_def)
next
  assume "API_get_response (env_beast E) P (env_fs E) (pub_handler h) req res st = Inl err"
  from API_served_fault [OF inv _ this] len show ?thesis
    by (auto simp: served_fault_def pub_handler_def)
next
  assume "API_get_response (env_beast E) P (env_fs E) (priv_handler h) req res st = Inl err"
  from API_served_fault [OF inv _ this] len show ?thesis
    by (auto simp: served_fault_def priv_handler_def)
next
  assume "err = Exn Invalid_argument" "\<not> known_verb (env_beast E) (method_string req)"
  then show ?thesis by (simp add: served_fault_def)
next
  fix u req2
  assume u: "private_request (env_beast E) (secure_prefix_length h) u req = Inr req2"
    "API_get_response (env_beast E) P (env_fs E) (priv_handler h) req2 res st = Inl err"
  have "method_string req2 = method_string req" "secure_prefix_length h \<le> length (target req2)"
    using u(1) len by (auto simp: private_request_def split: if_splits)
  with API_served_fault [OF inv _ u(2)] show ?thesis
    by (auto simp: served_fault_def priv_handler_def)
qed

lemma create_fault:
  "create E f loc s = Inl err \<Longrightarrow> fs_fault (env_fs E) err"
  by (cases f) (auto simp: SecureRequestHandlerAPI_def ensure_directory_def bind_res_eq_Inl_conv
      fs_fault_def split: if_splits)

lemma run_handler_fault:
  assumes "index_inv (factory_index f)" and "prefix loc (target req)"
    and "run_handler E loc f req res sh = Inl err"
  shows "served_fault E req err"
proof (cases "create E f loc (disk sh)")
  case (Inl x)
  with assms(3) create_fault [OF Inl] show ?thesis
    by (simp add: run_handler_def served_fault_def)
next
  case (Inr hs)
  obtain h s1 where hs: "hs = (h, s1)" by fastforce
  have len: "length loc \<le> length (target req)" using assms(2) by (rule prefix_length_le)
  have g: "get_response E h req res \<lparr>entity_id_map = factory_index f, store = s1\<rparr> = Inl err"
    using assms(3) Inr hs by (auto simp: run_handler_def bind_res_eq_Inl_conv)
  show ?thesis
  proof (cases f)
    case (APIHandlerFactory root m)
    then show ?thesis using g Inr hs len assms(1)
      by (auto simp: served_fault_def dest!: API_served_fault [rotated 2])
  next
    case (SecureAPIHandlerFactory root m a)
    then show ?thesis using g Inr hs len assms(1)
      by (auto simp: bind_res_eq_Inr_conv SecureRequestHandlerAPI_def dest!: secure_served_fault [rotated 2])
  qed (use g Inr hs len in \<open>auto simp: Static_get_response_def substr_from_def bind_res_eq_Inl_conv
        split: if_splits\<close>)
qed

lemma answer_fault:
  assumes "routes_inv (routes sh)" and "answer E req res sh = Inl err"
  shows "served_fault E req err"
proof -
  let ?loc = "match (routes sh) (target req)"
  obtain f where "map_find (routes sh) ?loc = Some f" "run_handler E ?loc f req res sh = Inl err"
    using assms(2) by (auto simp: answer_def Let_def split: option.splits)
  then show ?thesis
    using run_handler_fault [OF routes_inv_find [OF assms(1)] match_prefix] by blast
qed

section \<open>Invariants of a connection\<close>

definition conn_ok :: "conn \<Rightarrow> bool" where
  "conn_ok c \<longleftrightarrow> (\<forall>res. conn_phase c = Writing res \<longrightarrow>
     well_framed res \<and> response_field (conn_session c) = res)"

lemma conn_ok_accepted: "conn_ok accepted"
  by (simp add: conn_ok_def accepted_def start_def)

lemma handle_read_routes:
  assumes "routes_inv (routes sh)" and "handle_read E e n r ses sh = Inr (x, ses', sh')"
  shows "routes_inv (routes sh') \<and> kinds (routes sh') = kinds (routes sh)"
  using assms answer_inv [OF assms(1)]
  by (auto simp: handle_read_def Let_def bind_res_eq_Inr_conv split: if_splits)

lemma complete_routes:
  assumes "routes_inv (routes sh)" and "complete E ev c sh = Inr (c', sh')"
  shows "routes_inv (routes sh') \<and> kinds (routes sh') = kinds (routes sh)"
  using assms handle_read_routes [OF assms(1)]
  by (cases ev) (auto simp: bind_res_eq_Inr_conv)

lemma complete_conn_ok:
  assumes "payload_ok (env_beast E)" and "complete E ev c sh = Inr (c', sh')"
  shows "conn_ok c'"
  using assms answer_framed [OF assms(1)]
  by (cases ev) (auto simp: conn_ok_def handle_handshake_def handle_write_def handle_read_def Let_def
      invalid_request_response_def well_framed_prepare bind_res_eq_Inr_conv split: if_splits)

text \<open>Which completions end a connection, and how.\<close>

lemma complete_Deleted:
  assumes "complete E ev c sh = Inr (c', sh')"
  shows "conn_phase c' = Deleted \<longleftrightarrow> ev = Handshake_done True \<or> ev = Write_done True"
  using assms
  by (cases ev) (auto simp: handle_handshake_def handle_write_def handle_read_def Let_def
      bind_res_eq_Inr_conv split: if_splits)

lemma complete_Leaked:
  assumes "complete E ev c sh = Inr (c', sh')"
  shows "conn_phase c' = Leaked \<longleftrightarrow> (\<exists>r req. ev = Read_done True 0 r req)"
  using assms
  by (cases ev) (auto simp: handle_handshake_def handle_write_def handle_read_def Let_def
      bind_res_eq_Inr_conv split: if_splits)

lemma awaits_none: "(\<exists>ev. awaits p ev) \<longleftrightarrow> p \<noteq> Deleted \<and> p \<noteq> Leaked"
proof (cases p)
  case Handshaking
  then show ?thesis by (auto intro: exI [of _ "Handshake_done False"])
next
  case Reading
  then show ?thesis by (auto intro: exI [of _ "Read_done False 0 False undefined"])
next
  case (Writing res)
  then show ?thesis by (auto intro: exI [of _ "Write_done False"])
qed simp_all

lemma session_run_inv:
  assumes "(session_step E)\<^sup>*\<^sup>* (accepted, sh) (c, sh')"
    and "payload_ok (env_beast E)" and "routes_inv (routes sh)"
  shows "conn_ok c \<and> routes_inv (routes sh') \<and> kinds (routes sh') = kinds (routes sh)"
  using assms(1)
proof (induction "(c, sh')" arbitrary: c sh' rule: rtranclp_induct)
  case base
  then show ?case using assms(3) by (simp add: conn_ok_accepted)
next
  case (step y)
  obtain c1 sh1 where y: "y = (c1, sh1)" by fastforce
  from step.hyps(2) obtain ev where ev: "complete E ev c1 sh1 = Inr (c, sh')"
    unfolding y by (rule session_stepE)
  from step.hyps(3) [OF y] have "routes_inv (routes sh1)" "kinds (routes sh1) = kinds (routes sh)"
    by simp_all
  with complete_routes [OF _ ev] complete_conn_ok [OF assms(2) ev] show ?case by simp
qed

section \<open>Properties of sessions\<close>

definition api_shared :: "disk shared" where
  "api_shared = \<lparr>routes = [(''/api'', APIHandlerFactory ''/data'' [])], disk = sample_disk\<rparr>"

lemma api_shared_inv: "routes_inv (routes api_shared)"
  by (simp add: api_shared_def routes_inv_def map_sorted_def)

lemma sample_env_payload: "payload_ok (env_beast sample_env)"
  by (simp add: sample_env_def payload_ok_doc_beast)


lemma api_shared_fault:
  "answer sample_env (entity_request ''POST'' ''/api'' ''Shoes'' []) fresh_response api_shared =
     Inl (UB End_iterator_deref)"
  using unindexed_post_fault [of "[]" fresh_response]
  by (simp add: answer_def api_shared_def match_def match_loop_Cons entity_request_def map_find_def
      run_handler_def sample_env_def sample_api_def sample_state_def eval_nat_numeral)


text \<open>A request whose target begins with no configured location is answered 400 and changes
  nothing.\<close>

lemma unrouted_is_bad_request:
  assumes "payload_ok (env_beast E)" and "\<And>l. l \<in> fst ` set (routes sh) \<Longrightarrow> \<not> prefix l (target req)"
  shows "\<exists>res'. answer E req res sh = Inr (res', sh) \<and> result res' = bad_request \<and> well_framed res'"
proof -
  have "match (routes sh) (target req) = []"
    using match_member match_prefix assms(2) by blast
  moreover have "[] \<notin> fst ` set (routes sh)" using assms(2) by force
  ultimately show ?thesis
    using assms(1)
    by (simp add: answer_def map_find_notin invalid_request_response_def well_framed_prepare)
      (simp add: payload_okD)
qed

text \<open>C33: over any sequence of completions of a connection, every response that is being written
  announces the length of its body and is the session's response object, the routes keep their
  locations and kinds, and every entity index stays well formed.\<close>

theorem session_run_keeps_invariants:
  assumes "(session_step E)\<^sup>*\<^sup>* (accepted, sh) (c, sh')"
    and "payload_ok (env_beast E)" and "routes_inv (routes sh)"
  shows "(\<forall>res. conn_phase c = Writing res \<longrightarrow>
      content_length res = Some (length (body res)) \<and> response_field (conn_session c) = res)
    \<and> routes_inv (routes sh')
    \<and> (\<forall>l. map_option kind_of (map_find (routes sh') l) = map_option kind_of (map_find (routes sh) l))"
  using session_run_inv [OF assms] by (simp add: conn_ok_def well_framed_def kinds_def fun_eq_iff)

lemma sample_session_step:
  "session_step sample_env (accepted, api_shared) (accepted\<lparr>conn_phase := Reading\<rparr>, api_shared)"
  by (rule session_step.intros [where ev = "Handshake_done False"])
    (simp_all add: accepted_def start_def handle_handshake_def)

theorem session_run_keeps_invariants_witness:
  "routes_inv (routes api_shared) \<and> conn_phase (accepted\<lparr>conn_phase := Reading\<rparr>) = Reading"
  using session_run_keeps_invariants [OF r_into_rtranclp [of "session_step sample_env", OF sample_session_step]
      sample_env_payload api_shared_inv] by simp



end
