(* ===== verification/Server.thy ===== *)
theory Server
  imports Session "HOL-Library.Word"
begin

text \<open>
  \<^verbatim>\<open>src/server.cc\<close> (the accept loop) and \<^verbatim>\<open>src/server_main.cc\<close> (\<^verbatim>\<open>main\<close>).
  \<^verbatim>\<open>start_accept\<close> starts an asynchronous accept, spawns \<^verbatim>\<open>number_threads\<close> threads that run
  the io service, and joins them; the service always has the next accept outstanding, so the join
  does not return and the calling thread is lost. The state therefore counts the threads that run
  the service and those that are stuck in a join. The constructor of \<^verbatim>\<open>server\<close> (binding the port,
  loading the TLS files) is Boost.Asio and OpenSSL: a parameter that returns or throws.
\<close>

section \<open>The accept loop\<close>

record 's server_state =
  srv_shared :: "'s shared"
  conns :: "conn list"
  pending_accepts :: nat
  workers :: nat
  blocked :: nat

definition start_accept :: "int \<Rightarrow> 's server_state \<Rightarrow> int \<times> 's server_state" where
  "start_accept number_threads srv =
     (1, let srv1 = srv\<lparr>pending_accepts := pending_accepts srv + 1\<rparr>
         in if 0 < number_threads
            then srv1\<lparr>workers := workers srv1 + nat number_threads - 1, blocked := blocked srv1 + 1\<rparr>
            else srv1)"

definition handle_accept :: "int \<Rightarrow> bool \<Rightarrow> 's server_state \<Rightarrow> int \<times> 's server_state" where
  "handle_accept number_threads error srv =
     (let srv1 = (if \<not> error then srv\<lparr>conns := conns srv @ [accepted]\<rparr> else srv);
          ret = (if \<not> error then 1 else - 1)
      in (ret, snd (start_accept number_threads srv1)))"

text \<open>\<^verbatim>\<open>server::run\<close>, called on the main thread.\<close>

definition run :: "int \<Rightarrow> 's shared \<Rightarrow> 's server_state" where
  "run number_threads sh =
     snd (start_accept number_threads
       \<lparr>srv_shared = sh, conns = [], pending_accepts = 0, workers = 1, blocked = 0\<rparr>)"

text \<open>One completion, run by one of the threads inside the service.\<close>

inductive server_step :: "'s env \<Rightarrow> int \<Rightarrow> 's server_state \<Rightarrow> 's server_state \<Rightarrow> bool" for E n where
  accept: "0 < workers srv \<Longrightarrow> 0 < pending_accepts srv \<Longrightarrow>
    srv1 = srv\<lparr>pending_accepts := pending_accepts srv - 1\<rparr> \<Longrightarrow>
    server_step E n srv (snd (handle_accept n error srv1))"
| conn: "0 < workers srv \<Longrightarrow> i < length (conns srv) \<Longrightarrow> awaits (conn_phase (conns srv ! i)) ev \<Longrightarrow>
    complete E ev (conns srv ! i) (srv_shared srv) = Inr (c', sh') \<Longrightarrow>
    server_step E n srv (srv\<lparr>conns := (conns srv)[i := c'], srv_shared := sh'\<rparr>)"

inductive_cases server_stepE: "server_step E n srv srv'"

section \<open>main\<close>

datatype 's outcome = Exit int | Serving int int "'s server_state"

text \<open>\<^verbatim>\<open>tcp::endpoint\<close> takes an \<^verbatim>\<open>unsigned short\<close>.\<close>

definition endpoint_port :: "int \<Rightarrow> 16 word" where
  "endpoint_port port = word_of_int port"

type_synonym server_ctor = "16 word \<Rightarrow> string \<Rightarrow> string \<Rightarrow> unit res"

text \<open>The body of the \<^verbatim>\<open>try\<close> block.\<close>

definition serve ::
  "'s env \<Rightarrow> (string \<Rightarrow> string option) \<Rightarrow> server_ctor \<Rightarrow> string list \<Rightarrow> 's \<Rightarrow> 's outcome res" where
  "serve E open_file ctor argv s =
     (if length argv \<noteq> 2 then Inr (Exit 1)
      else bind_res (Parse_file open_file (argv ! 1) (NginxConfig [])) (\<lambda>(parsed, config, _).
        if \<not> parsed then Inr (Exit 1)
        else bind_res (portNumber config) (\<lambda>port.
          if port = - 1 then Inr (Exit 1)
          else bind_res (numberOfThreads config) (\<lambda>threads0.
            let threads = (if threads0 = - 1 then 1 else threads0)
            in bind_res (keyFileName config) (\<lambda>pkFile.
              if pkFile = '''' then Inr (Exit 1)
              else bind_res (certFileName config) (\<lambda>pemFile.
                if pemFile = '''' then Inr (Exit 1)
                else bind_res (ctor (endpoint_port port) pkFile pemFile) (\<lambda>_.
                  bind_res (generate_routes E config s) (\<lambda>(rs, s').
                    Inr (Serving port threads (run threads \<lparr>routes = rs, disk = s'\<rparr>))))))))))"

text \<open>Exceptions are caught and the program still returns 0.\<close>

definition main :: 
  "'s env \<Rightarrow> (string \<Rightarrow> string option) \<Rightarrow> server_ctor \<Rightarrow> string list \<Rightarrow> 's \<Rightarrow> ub + 's outcome" where
  "main E open_file ctor argv s =
     (case serve E open_file ctor argv s of
        Inl (Exn _) \<Rightarrow> Inr (Exit 0)
      | Inl (UB u) \<Rightarrow> Inl u
      | Inr out \<Rightarrow> Inr out)"

section \<open>Invariants of the running server\<close>

definition srv_inv :: "'s server_state \<Rightarrow> bool" where
  "srv_inv srv \<longleftrightarrow> pending_accepts srv = 1 \<and> 0 < workers srv
     \<and> routes_inv (routes (srv_shared srv)) \<and> (\<forall>c \<in> set (conns srv). conn_ok c)"

lemma srv_inv_run: "routes_inv (routes sh) \<Longrightarrow> srv_inv (run n sh)"
  by (simp add: srv_inv_def run_def start_accept_def Let_def)

lemma server_step_inv:
  assumes "server_step E n srv srv'" and "srv_inv srv" and "payload_ok (env_beast E)"
  shows "srv_inv srv' \<and> kinds (routes (srv_shared srv')) = kinds (routes (srv_shared srv))"
  using assms(1)
proof cases
  case (accept srv1 error)
  with assms(2) show ?thesis
    by (auto simp: srv_inv_def handle_accept_def start_accept_def Let_def conn_ok_accepted)
next
  case (conn i ev c' sh')
  have "conn_ok c'" using conn(5) by (rule complete_conn_ok [OF assms(3)])
  moreover have "routes_inv (routes sh') \<and> kinds (routes sh') = kinds (routes (srv_shared srv))"
    using assms(2) conn(5) by (intro complete_routes) (auto simp: srv_inv_def)
  ultimately show ?thesis
    using assms(2) conn(1) set_update_subset_insert [of "conns srv" i c']
    by (auto simp: srv_inv_def)
qed

lemma server_run_inv:
  assumes "(server_step E n)\<^sup>*\<^sup>* (run n sh) srv"
    and "payload_ok (env_beast E)" and "routes_inv (routes sh)"
  shows "srv_inv srv \<and> kinds (routes (srv_shared srv)) = kinds (routes sh)"
  using assms(1)
proof induction
  case base
  then show ?case
    using srv_inv_run [OF assms(3)] by (simp add: run_def start_accept_def Let_def)
next
  case (step srv srv')
  then show ?case using server_step_inv [OF step.hyps(2) _ assms(2)] by simp
qed

text \<open>Every accept, successful or not, leaves one more thread blocked and adds \<open>n\<close> new ones.\<close>

definition threads_inv :: "int \<Rightarrow> 's server_state \<Rightarrow> bool" where
  "threads_inv n srv \<longleftrightarrow> workers srv = 1 + blocked srv * (nat n - 1) \<and> length (conns srv) < blocked srv"

lemma server_threads:
  assumes "(server_step E n)\<^sup>*\<^sup>* (run n sh) srv" and "0 < n"
  shows "threads_inv n srv"
  using assms(1)
proof induction
  case base
  have "nat n \<ge> 1" using assms(2) by simp
  with assms(2) show ?case by (simp add: threads_inv_def run_def start_accept_def Let_def)
next
  case (step srv srv')
  have n: "nat n \<ge> 1" using assms(2) by simp
  from step.hyps(2) show ?case
    by cases (use step.IH n assms(2) in
      \<open>auto simp: threads_inv_def handle_accept_def start_accept_def Let_def\<close>)
qed

section \<open>Properties of the accept loop and of main\<close>

text \<open>C32: from the start of the server on, whatever completes in whatever order: exactly one accept
  is outstanding, some thread is free to run the next completion, every connection that writes
  writes a response with the right length, and the routes keep their locations and kinds.\<close>

theorem server_run_keeps_invariants:
  assumes "(server_step E n)\<^sup>*\<^sup>* (run n sh) srv"
    and "payload_ok (env_beast E)" and "routes_inv (routes sh)"
  shows "pending_accepts srv = 1 \<and> 0 < workers srv
    \<and> (\<forall>c \<in> set (conns srv). \<forall>res. conn_phase c = Writing res \<longrightarrow> well_framed res)
    \<and> routes_inv (routes (srv_shared srv))
    \<and> (\<forall>l. map_option kind_of (map_find (routes (srv_shared srv)) l) =
         map_option kind_of (map_find (routes sh) l))"
  using server_run_inv [OF assms] by (auto simp: srv_inv_def conn_ok_def kinds_def fun_eq_iff)

theorem server_run_keeps_invariants_witness:
  "pending_accepts (run 2 api_shared) = 1 \<and> 0 < workers (run 2 api_shared)"
  using server_run_keeps_invariants [OF rtranclp.rtrancl_refl [of "server_step sample_env 2"]
      sample_env_payload api_shared_inv] by simp



text \<open>The port of the configuration is the port the acceptor is given exactly when it is a
  16-bit number; other numbers wrap around.\<close>

lemma endpoint_port_exact:
  "uint (endpoint_port p) = p mod 2 ^ 16 \<and> (uint (endpoint_port p) = p \<longleftrightarrow> 0 \<le> p \<and> p < 2 ^ 16)"
proof -
  have u: "uint (endpoint_port p) = p mod 2 ^ 16"
    by (simp add: endpoint_port_def uint_word_of_int)
  moreover have "p mod 2 ^ 16 = p \<longleftrightarrow> 0 \<le> p \<and> p < 2 ^ 16"
    by (metis mod_pos_pos_trivial pos_mod_bound pos_mod_sign zero_less_numeral zero_less_power)
  ultimately show ?thesis by simp
qed

text \<open>How \<^verbatim>\<open>main\<close> comes to serve.\<close>

lemma serve_Serving:
  assumes "main E open_file ctor argv s = Inr (Serving port threads srv)"
  obtains config pkFile pemFile rs s' t0 msg where
    "length argv = 2" "Parse_file open_file (argv ! 1) (NginxConfig []) = Inr (True, config, msg)"
    "portNumber config = Inr port" "port \<noteq> - 1" "numberOfThreads config = Inr t0"
    "threads = (if t0 = - 1 then 1 else t0)"
    "keyFileName config = Inr pkFile" "pkFile \<noteq> ''''" "certFileName config = Inr pemFile" "pemFile \<noteq> ''''"
    "ctor (endpoint_port port) pkFile pemFile = Inr ()"
    "generate_routes E config s = Inr (rs, s')" "srv = run threads \<lparr>routes = rs, disk = s'\<rparr>"
  using assms
  by (auto simp: main_def serve_def Let_def bind_res_eq_Inr_conv
      split: sum.splits fault.splits if_splits)

end
