(* ===== verification/Jwk.thy ===== *)
theory Jwk
  imports JwtTheorems
begin

text \<open>
  The classes \<^verbatim>\<open>jwk\<close> and \<^verbatim>\<open>jwks\<close> of \<^verbatim>\<open>jwt-cpp/include/jwt-cpp/jwt.h\<close>: a JSON Web Key is a map of
  claims, a key set is the list of keys under the claim \<^verbatim>\<open>keys\<close>. Names that the decoded token also has
  carry the prefix \<open>jwk\<close>.
\<close>

section \<open>jwk\<close>

type_synonym jwk = claims

definition parse_jwk :: "c_double \<Rightarrow> string \<Rightarrow> jwk res" where
  "parse_jwk L str = parse_claims L str"

definition jwk_of_value :: "json \<Rightarrow> jwk res" where
  "jwk_of_value v = as_object v"

definition has_jwk_claim :: "jwk \<Rightarrow> string \<Rightarrow> bool" where
  "has_jwk_claim k name = has_claim k name"

definition get_jwk_claim :: "jwk \<Rightarrow> string \<Rightarrow> json res" where
  "get_jwk_claim k name = get_claim k name"

definition jwk_string :: "string \<Rightarrow> jwk \<Rightarrow> string res" where
  "jwk_string name k = bind_res (get_jwk_claim k name) as_string"

definition jwk_get_key_type :: "jwk \<Rightarrow> string res" where "jwk_get_key_type = jwk_string ''kty''"
definition jwk_get_use :: "jwk \<Rightarrow> string res" where "jwk_get_use = jwk_string ''use''"
definition jwk_get_key_operations :: "jwk \<Rightarrow> string std_set res" where
  "jwk_get_key_operations k = bind_res (get_jwk_claim k ''key_ops'') as_set"
definition jwk_get_algorithm :: "jwk \<Rightarrow> string res" where "jwk_get_algorithm = jwk_string ''alg''"
definition jwk_get_key_id :: "jwk \<Rightarrow> string res" where "jwk_get_key_id = jwk_string ''kid''"
definition jwk_get_curve :: "jwk \<Rightarrow> string res" where "jwk_get_curve = jwk_string ''crv''"
definition jwk_get_x5c :: "jwk \<Rightarrow> json list res" where
  "jwk_get_x5c k = bind_res (get_jwk_claim k ''x5c'') as_array"
definition jwk_get_x5u :: "jwk \<Rightarrow> string res" where "jwk_get_x5u = jwk_string ''x5u''"
definition jwk_get_x5t :: "jwk \<Rightarrow> string res" where "jwk_get_x5t = jwk_string ''x5t''"
definition jwk_get_x5t_sha256 :: "jwk \<Rightarrow> string res" where "jwk_get_x5t_sha256 = jwk_string ''x5t#S256''"

definition jwk_get_x5c_key_value :: "jwk \<Rightarrow> string res" where
  "jwk_get_x5c_key_value k =
     bind_res (jwk_get_x5c k) (\<lambda>x5c. case x5c of
        [] \<Rightarrow> Inl (Exn Out_of_range)
      | v # _ \<Rightarrow> as_string v)"

definition jwk_has_key_type :: "jwk \<Rightarrow> bool" where "jwk_has_key_type k = has_jwk_claim k ''kty''"
definition jwk_has_use :: "jwk \<Rightarrow> bool" where "jwk_has_use k = has_jwk_claim k ''use''"
definition jwk_has_key_operations :: "jwk \<Rightarrow> bool" where "jwk_has_key_operations k = has_jwk_claim k ''key_ops''"
definition jwk_has_algorithm :: "jwk \<Rightarrow> bool" where "jwk_has_algorithm k = has_jwk_claim k ''alg''"
definition jwk_has_curve :: "jwk \<Rightarrow> bool" where "jwk_has_curve k = has_jwk_claim k ''crv''"
definition jwk_has_key_id :: "jwk \<Rightarrow> bool" where "jwk_has_key_id k = has_jwk_claim k ''kid''"
definition jwk_has_x5u :: "jwk \<Rightarrow> bool" where "jwk_has_x5u k = has_jwk_claim k ''x5u''"
definition jwk_has_x5c :: "jwk \<Rightarrow> bool" where "jwk_has_x5c k = has_jwk_claim k ''x5c''"
definition jwk_has_x5t :: "jwk \<Rightarrow> bool" where "jwk_has_x5t k = has_jwk_claim k ''x5t''"
definition jwk_has_x5t_sha256 :: "jwk \<Rightarrow> bool" where "jwk_has_x5t_sha256 k = has_jwk_claim k ''x5t#S256''"

section \<open>jwks\<close>

fun jwk_list :: "json list \<Rightarrow> jwk list res" where
  "jwk_list [] = Inr []"
| "jwk_list (v # vs) = bind_res (jwk_of_value v) (\<lambda>k. bind_res (jwk_list vs) (\<lambda>ks. Inr (k # ks)))"

definition parse_jwks :: "c_double \<Rightarrow> string \<Rightarrow> jwk list res" where
  "parse_jwks L str =
     bind_res (traits_parse L str) (\<lambda>parsed. case parsed of
        None \<Rightarrow> Inl (Exn Runtime_error)
      | Some v \<Rightarrow>
          bind_res (as_object v) (\<lambda>jwks_json.
            if \<not> has_claim jwks_json ''keys'' then Inl (Exn Runtime_error)
            else bind_res (get_claim jwks_json ''keys'') (\<lambda>keys. bind_res (as_array keys) jwk_list)))"

text \<open>The search is \<^verbatim>\<open>noexcept\<close>: a key id that is not a string ends the program.\<close>

fun find_by_kid :: "jwk list \<Rightarrow> string \<Rightarrow> jwk option res" where
  "find_by_kid [] key_id = Inr None"
| "find_by_kid (k # ks) key_id =
     (if \<not> jwk_has_key_id k then find_by_kid ks key_id
      else
        (case jwk_get_key_id k of
           Inl _ \<Rightarrow> Inl (UB Terminated)
         | Inr kid \<Rightarrow> if kid = key_id then Inr (Some k) else find_by_kid ks key_id))"

definition has_jwk :: "jwk list \<Rightarrow> string \<Rightarrow> bool res" where
  "has_jwk ks key_id = bind_res (find_by_kid ks key_id) (\<lambda>maybe. Inr (maybe \<noteq> None))"

definition get_jwk :: "jwk list \<Rightarrow> string \<Rightarrow> jwk res" where
  "get_jwk ks key_id =
     bind_res (find_by_kid ks key_id) (\<lambda>maybe. case maybe of
        None \<Rightarrow> Inl (Exn Out_of_range)
      | Some k \<Rightarrow> Inr k)"

section \<open>Properties\<close>

lemma jwk_list_objects: "jwk_list (map JObject ks) = Inr ks"
  by (induction ks) (simp_all add: jwk_of_value_def)

text \<open>Every key id that is present is a string.\<close>

definition string_kids :: "jwk list \<Rightarrow> bool" where
  "string_kids ks \<longleftrightarrow> (\<forall>k \<in> set ks. \<forall>v. map_find k ''kid'' = Some v \<longrightarrow> (\<exists>s. v = JString s))"

lemma find_by_kid_find:
  "string_kids ks \<Longrightarrow> find_by_kid ks kid = Inr (find (\<lambda>k. map_find k ''kid'' = Some (JString kid)) ks)"
proof (induction ks)
  case (Cons k ks)
  then have IH: "find_by_kid ks kid = Inr (find (\<lambda>k. map_find k ''kid'' = Some (JString kid)) ks)"
    by (simp add: string_kids_def)
  show ?case
  proof (cases "map_find k ''kid''")
    case None
    then show ?thesis using IH by (simp add: jwk_has_key_id_def has_jwk_claim_def has_claim_def)
  next
    case (Some v)
    then obtain s where "v = JString s" using Cons.prems by (auto simp: string_kids_def)
    with Some IH show ?thesis
      by (simp add: jwk_has_key_id_def has_jwk_claim_def has_claim_def jwk_get_key_id_def jwk_string_def
          get_jwk_claim_def get_claim_def)
  qed
qed simp



text \<open>A key id that is not a string ends the search, and with it the program, also when a later key has the id
  that is looked for.\<close>

lemma non_string_kid_terminates:
  "has_jwk [[(''kid'', JInt 1)], [(''kid'', JString ''a'')]] ''a'' = Inl (UB Terminated)"
  by code_simp

end
