(* ===== verification/ApiRaces.thy ===== *)
theory ApiRaces
  imports ApiProperties
begin

text \<open>
  Two threads of the service may handle requests at the same time, and they share the entity index without a
  lock. This theory takes the end of a POST (\<^verbatim>\<open>get_next_id\<close> and what follows it in
  \<^verbatim>\<open>RequestHandlerAPI::get_response\<close>) apart into its accesses to the shared index and disk, shows that
  one thread on its own does what \<open>API_post\<close> says, and compares two schedules of two threads.
\<close>

section \<open>The steps of a POST\<close>

text \<open>A thread with the body it posts, the copy \<^verbatim>\<open>existingIDs\<close> it works on, and the identifier it chose.\<close>

datatype post_thread =
    Post_begin string
  | Post_copied string "int std_set"
  | Post_chosen string int "int std_set"
  | Post_indexed string int
  | Post_done int

fun post_step ::
  "path_lib \<Rightarrow> 's filesystem \<Rightarrow> path \<Rightarrow> string \<Rightarrow> post_thread \<Rightarrow> 's api_state \<Rightarrow> (post_thread \<times> 's api_state) res" where
  "post_step P FS full_path entity (Post_begin text) st =
     (case map_find (entity_id_map st) entity of
        None \<Rightarrow> Inl (UB End_iterator_deref)
      | Some existingIDs \<Rightarrow> Inr (Post_copied text existingIDs, st))"
| "post_step P FS full_path entity (Post_copied text existingIDs) st =
     (let eid = next_free existingIDs 1 in Inr (Post_chosen text eid (set_insert eid existingIDs), st))"
| "post_step P FS full_path entity (Post_chosen text eid existingIDs) st =
     Inr (Post_indexed text eid, st\<lparr>entity_id_map := map_assign entity existingIDs (entity_id_map st)\<rparr>)"
| "post_step P FS full_path entity (Post_indexed text eid) st =
     Inr (Post_done eid,
       st\<lparr>store := snd (fs_write_file FS (path_append P full_path (to_string eid)) text (store st))\<rparr>)"
| "post_step P FS full_path entity (Post_done eid) st = Inr (Post_done eid, st)"

text \<open>A schedule says which of two threads, the first or the second, takes the next step.\<close>

fun schedule ::
  "path_lib \<Rightarrow> 's filesystem \<Rightarrow> path \<Rightarrow> string \<Rightarrow> bool list \<Rightarrow> post_thread \<Rightarrow> post_thread \<Rightarrow> 's api_state \<Rightarrow>
   (post_thread \<times> post_thread \<times> 's api_state) res" where
  "schedule P FS full_path entity [] a b st = Inr (a, b, st)"
| "schedule P FS full_path entity (True # ts) a b st =
     bind_res (post_step P FS full_path entity a st) (\<lambda>(a', st'). schedule P FS full_path entity ts a' b st')"
| "schedule P FS full_path entity (False # ts) a b st =
     bind_res (post_step P FS full_path entity b st) (\<lambda>(b', st'). schedule P FS full_path entity ts a b' st')"

section \<open>One thread\<close>

text \<open>Four steps in a row are \<^verbatim>\<open>get_next_id\<close> and the write.\<close>

lemma post_alone:
  "schedule P FS full_path entity (replicate 4 True) (Post_begin text) b st =
     bind_res (get_next_id entity (entity_id_map st)) (\<lambda>(eid, m).
       Inr (Post_done eid, b, st\<lparr>entity_id_map := m,
         store := snd (fs_write_file FS (path_append P full_path (to_string eid)) text (store st))\<rparr>))"
  by (cases "map_find (entity_id_map st) entity")
    (simp_all add: eval_nat_numeral get_next_id_def Let_def)

text \<open>So a POST to an existing entity that nothing interrupts is one run of the thread, answered with the identifier it
  chose.\<close>

lemma API_post_alone:
  assumes "path_eq P (parent_path P full_path) (base_path h)" and "fs_exists FS full_path (store st)"
  shows "API_post B P FS h full_path entity req res st =
    bind_res (schedule P FS full_path entity (replicate 4 True) (Post_begin (req_body req)) b st) (\<lambda>(a, _, st').
      case a of
        Post_done eid \<Rightarrow> Inr (True, prepare_payload B (res\<lparr>result := created, body := created_body eid\<rparr>), st')
      | _ \<Rightarrow> Inl (UB End_iterator_deref))"
  using assms unfolding post_alone
  by (cases "get_next_id entity (entity_id_map st)") (auto simp: API_post_def Let_def)

section \<open>Two threads\<close>

lemma next_free_insert: "next_free (set_insert (next_free ids 1) ids) 1 \<noteq> next_free ids 1"
  using next_free_not_member [of "set_insert (next_free ids 1) ids" 1] by (auto simp: set_member_def)

text \<open>One after the other, two posts get different identifiers.\<close>

lemma posts_in_turn_distinct:
  assumes "map_find (entity_id_map st) entity = Some ids" and "map_sorted (entity_id_map st)"
  shows "\<exists>i j st'. schedule P FS full_path entity (replicate 4 True @ replicate 4 False)
      (Post_begin t1) (Post_begin t2) st = Inr (Post_done i, Post_done j, st') \<and> i \<noteq> j"
  using assms next_free_insert [of ids]
  by (simp add: eval_nat_numeral Let_def map_facts)

text \<open>When the second copies the identifiers before the first has written its own back, both announce the same
  identifier, and the body that was written first is lost.\<close>

lemma racing_posts_collide:
  assumes "content_store FS invar writable makeable inside indep"
    and "map_find (entity_id_map st) entity = Some ids" and "i = next_free ids 1"
    and "p = path_append P full_path (to_string i)" and "invar (store st)" and "writable p (store st)"
    and "writable p (snd (fs_write_file FS p t1 (store st)))"
  shows "\<exists>st'. schedule P FS full_path entity [True, False, True, True, True, False, False, False]
      (Post_begin t1) (Post_begin t2) st = Inr (Post_done i, Post_done i, st') \<and> fs_read_file FS p (store st') = t2"
  using assms(2-4) content_store.last_write_wins [OF assms(1,5,6,7), of t2]
  by (simp add: Let_def)

end
