(* ===== verification/JsonContexts.thy ===== *)
theory JsonContexts
  imports JsonTheorems
begin

text \<open>
  The parser of \<^verbatim>\<open>picojson.h\<close> is a template over a context, an object whose member functions are called
  for what was read: \<^verbatim>\<open>default_parse_context\<close> builds a value, \<^verbatim>\<open>null_parse_context\<close> only checks,
  \<^verbatim>\<open>deny_parse_context\<close> is a base class that refuses. Here the template is a function over a record of member
  functions. A member that parses an item gets the parser as an argument, since it calls \<^verbatim>\<open>_parse\<close> again.
  The interface \<open>parse_context_laws\<close> is what the parser needs of a context to end. With the default context the
  template is the function \<open>parse_value\<close> of theory \<open>Json\<close>.
\<close>

section \<open>Contexts\<close>

record 'c parse_context =
  ctx_set_null :: "'c \<Rightarrow> bool \<times> 'c"
  ctx_set_bool :: "bool \<Rightarrow> 'c \<Rightarrow> bool \<times> 'c"
  ctx_set_int64 :: "int \<Rightarrow> 'c \<Rightarrow> bool \<times> 'c"
  ctx_set_number :: "double \<Rightarrow> 'c \<Rightarrow> cpp_exn + bool \<times> 'c"
  ctx_parse_string :: "'c \<Rightarrow> input \<Rightarrow> 'c presult"
  ctx_array_start :: "'c \<Rightarrow> bool \<times> 'c"
  ctx_array_item :: "('c \<Rightarrow> input \<Rightarrow> 'c presult) \<Rightarrow> nat \<Rightarrow> 'c \<Rightarrow> input \<Rightarrow> 'c presult"
  ctx_array_stop :: "nat \<Rightarrow> 'c \<Rightarrow> bool \<times> 'c"
  ctx_object_start :: "'c \<Rightarrow> bool \<times> 'c"
  ctx_object_item :: "('c \<Rightarrow> input \<Rightarrow> 'c presult) \<Rightarrow> string \<Rightarrow> 'c \<Rightarrow> input \<Rightarrow> 'c presult"
  ctx_object_stop :: "'c \<Rightarrow> bool \<times> 'c"

text \<open>A call whose result decides whether parsing goes on.\<close>

definition told :: "bool \<times> 'c \<Rightarrow> input \<Rightarrow> 'c presult" where
  "told r inp = (if fst r then Parsed (snd r) inp else Failed inp)"

definition literal_with :: "string \<Rightarrow> bool \<times> 'c \<Rightarrow> input \<Rightarrow> 'c presult" where
  "literal_with text r inp = (case match_text text inp of (b, inp') \<Rightarrow> if b then told r inp' else Failed inp')"

text \<open>What \<^verbatim>\<open>set_int64\<close> and \<^verbatim>\<open>set_number\<close> return is ignored.\<close>

definition number_with :: "'c parse_context \<Rightarrow> c_double \<Rightarrow> 'c \<Rightarrow> input \<Rightarrow> 'c presult" where
  "number_with K L c inp =
     (case parse_number [] inp of (num_str, inp') \<Rightarrow>
        if num_str = [] then Failed inp'
        else
          (case strtoimax_all num_str of
             Some i \<Rightarrow> Parsed (snd (ctx_set_int64 K i c)) inp'
           | None \<Rightarrow>
               (case strtod L num_str of (f, endp) \<Rightarrow>
                  if endp = length num_str
                  then (case ctx_set_number K f c of Inl e \<Rightarrow> Thrown e | Inr r \<Rightarrow> Parsed (snd r) inp')
                  else Failed inp')))"

fun parse_with :: "'c parse_context \<Rightarrow> c_double \<Rightarrow> nat \<Rightarrow> 'c \<Rightarrow> input \<Rightarrow> 'c presult"
  and array_items_with :: "'c parse_context \<Rightarrow> c_double \<Rightarrow> nat \<Rightarrow> nat \<Rightarrow> 'c \<Rightarrow> input \<Rightarrow> (nat \<times> 'c) presult"
  and object_items_with :: "'c parse_context \<Rightarrow> c_double \<Rightarrow> nat \<Rightarrow> 'c \<Rightarrow> input \<Rightarrow> 'c presult" where
  "parse_with K L 0 c inp = Out_of_fuel"
| "parse_with K L (Suc fuel) c inp =
     (case getc (skip_ws inp) of (ch, inp1) \<Rightarrow>
        case ch of
          None \<Rightarrow> Failed (ungetc inp1)
        | Some x \<Rightarrow>
            if x = CHR ''n'' then literal_with ''ull'' (ctx_set_null K c) inp1
            else if x = CHR ''f'' then literal_with ''alse'' (ctx_set_bool K False c) inp1
            else if x = CHR ''t'' then literal_with ''rue'' (ctx_set_bool K True c) inp1
            else if x = CHR 0x22 then ctx_parse_string K c inp1
            else if x = CHR ''['' then
              after (told (ctx_array_start K c) inp1) (\<lambda>c1 inp2.
                case expect CHR '']'' inp2 of (b, inp3) \<Rightarrow>
                  if b then told (ctx_array_stop K 0 c1) inp3
                  else
                    after (array_items_with K L fuel 0 c1 inp3) (\<lambda>(idx, c2) inp4.
                      after (expecting CHR '']'' () inp4) (\<lambda>_ inp5. told (ctx_array_stop K idx c2) inp5)))
            else if x = CHR ''{'' then
              after (told (ctx_object_start K c) inp1) (\<lambda>c1 inp2.
                case expect CHR ''}'' inp2 of (b, inp3) \<Rightarrow>
                  if b then told (ctx_object_stop K c1) inp3
                  else
                    after (object_items_with K L fuel c1 inp3) (\<lambda>c2 inp4.
                      after (expecting CHR ''}'' () inp4) (\<lambda>_ inp5. told (ctx_object_stop K c2) inp5)))
            else if is_digit x \<or> x = CHR ''-'' then number_with K L c (ungetc inp1)
            else Failed (ungetc inp1))"
| "array_items_with K L 0 idx c inp = Out_of_fuel"
| "array_items_with K L (Suc fuel) idx c inp =
     after (ctx_array_item K (\<lambda>c' inp'. parse_with K L fuel c' inp') idx c inp) (\<lambda>c1 inp1.
       case expect CHR '','' inp1 of (b, inp2) \<Rightarrow>
         if b then array_items_with K L fuel (idx + 1) c1 inp2 else Parsed (idx + 1, c1) inp2)"
| "object_items_with K L 0 c inp = Out_of_fuel"
| "object_items_with K L (Suc fuel) c inp =
     after (member_key inp) (\<lambda>key inp1.
       after (ctx_object_item K (\<lambda>c' inp'. parse_with K L fuel c' inp') key c inp1) (\<lambda>c1 inp2.
         case expect CHR '','' inp2 of (b, inp3) \<Rightarrow>
           if b then object_items_with K L fuel c1 inp3 else Parsed c1 inp3))"

section \<open>The three contexts\<close>

text \<open>\<^verbatim>\<open>default_parse_context\<close>: the value at \<^verbatim>\<open>*out_\<close> and \<^verbatim>\<open>depths_\<close>. An item is parsed with a new context for
  its own value. The value of a key that is already there is the one the new context starts from.\<close>

definition default_array_item ::
  "(json \<times> nat \<Rightarrow> input \<Rightarrow> (json \<times> nat) presult) \<Rightarrow> nat \<Rightarrow> json \<times> nat \<Rightarrow> input \<Rightarrow> (json \<times> nat) presult" where
  "default_array_item p idx c inp =
     (case fst c of
        JArray a \<Rightarrow> after (p (JNull, snd c) inp) (\<lambda>c' inp'. Parsed (JArray (a @ [fst c']), snd c) inp')
      | _ \<Rightarrow> Thrown Runtime_error)"

definition default_object_item ::
  "(json \<times> nat \<Rightarrow> input \<Rightarrow> (json \<times> nat) presult) \<Rightarrow> string \<Rightarrow> json \<times> nat \<Rightarrow> input \<Rightarrow> (json \<times> nat) presult" where
  "default_object_item p key c inp =
     (case fst c of
        JObject ob \<Rightarrow>
          after (p (case map_find ob key of Some v \<Rightarrow> v | None \<Rightarrow> JNull, snd c) inp) (\<lambda>c' inp'.
            Parsed (JObject (map_assign key (fst c') ob), snd c) inp')
      | _ \<Rightarrow> Thrown Runtime_error)"

definition default_parse_context :: "(json \<times> nat) parse_context" where
  "default_parse_context =
     \<lparr>ctx_set_null = (\<lambda>(v, d). (True, JNull, d)),
      ctx_set_bool = (\<lambda>b (v, d). (True, JBool b, d)),
      ctx_set_int64 = (\<lambda>i (v, d). (True, JInt i, d)),
      ctx_set_number = (\<lambda>f (v, d). if nan_or_inf f then Inl Runtime_error else Inr (True, JNumber f, d)),
      ctx_parse_string = (\<lambda>(v, d) inp. after (string_token inp) (\<lambda>s. Parsed (JString s, d))),
      ctx_array_start = (\<lambda>(v, d). if d = 0 then (False, v, d) else (True, JArray [], d - 1)),
      ctx_array_item = default_array_item,
      ctx_array_stop = (\<lambda>idx (v, d). (True, v, d + 1)),
      ctx_object_start = (\<lambda>(v, d). if d = 0 then (False, v, d) else (True, JObject [], d)),
      ctx_object_item = default_object_item,
      ctx_object_stop = (\<lambda>(v, d). (True, v, d + 1))\<rparr>"

text \<open>\<^verbatim>\<open>null_parse_context\<close>: only \<^verbatim>\<open>depths_\<close>, and one context for all levels. A member of an object raises what the
  object lowered, each of them; an object without members never raises it again.\<close>

definition null_parse_context :: "nat parse_context" where
  "null_parse_context =
     \<lparr>ctx_set_null = Pair True, ctx_set_bool = (\<lambda>b. Pair True), ctx_set_int64 = (\<lambda>i. Pair True),
      ctx_set_number = (\<lambda>f d. Inr (True, d)),
      ctx_parse_string = (\<lambda>d inp. after (string_token inp) (\<lambda>s. Parsed d)),
      ctx_array_start = (\<lambda>d. if d = 0 then (False, d) else (True, d - 1)),
      ctx_array_item = (\<lambda>p idx d inp. p d inp),
      ctx_array_stop = (\<lambda>idx d. (True, d + 1)),
      ctx_object_start = (\<lambda>d. if d = 0 then (False, d) else (True, d - 1)),
      ctx_object_item = (\<lambda>p key d inp. p (d + 1) inp),
      ctx_object_stop = Pair True\<rparr>"

text \<open>\<^verbatim>\<open>deny_parse_context\<close> has no state and no \<^verbatim>\<open>parse_object_stop\<close>; what a derived class adds is an
  argument.\<close>

definition deny_parse_context :: "(unit \<Rightarrow> bool \<times> unit) \<Rightarrow> unit parse_context" where
  "deny_parse_context stop =
     \<lparr>ctx_set_null = Pair False, ctx_set_bool = (\<lambda>b. Pair False), ctx_set_int64 = (\<lambda>i. Pair False),
      ctx_set_number = (\<lambda>f c. Inr (False, c)), ctx_parse_string = (\<lambda>c inp. Failed inp),
      ctx_array_start = Pair False, ctx_array_item = (\<lambda>p idx c inp. Failed inp), ctx_array_stop = (\<lambda>idx. Pair False),
      ctx_object_start = Pair False, ctx_object_item = (\<lambda>p key c inp. Failed inp), ctx_object_stop = stop\<rparr>"

section \<open>What the parser needs of a context\<close>

text \<open>Reading a string uses up the closing quote; parsing an item uses up something when the parser that it is
  given does.\<close>

locale parse_context_laws =
  fixes K :: "'c parse_context"
  assumes string_within: "length (rest inp) \<le> n \<Longrightarrow> within n (ctx_parse_string K c inp)"
    and array_item_within: "(\<And>c'. within n (p c' inp)) \<Longrightarrow> within n (ctx_array_item K p idx c inp)"
    and object_item_within: "(\<And>c'. within n (p c' inp)) \<Longrightarrow> within n (ctx_object_item K p key c inp)"
begin

lemma told_within: "length (rest inp) < n \<Longrightarrow> within n (told r inp)"
  by (simp add: told_def)

lemma literal_with_within: "length (rest inp) < n \<Longrightarrow> within n (literal_with t r inp)"
  using match_text_length [of t inp]
  by (cases "match_text t inp") (auto simp: literal_with_def told_def)

lemma number_with_within:
  assumes "rest inp = x # xs" and "number_char x" and "length (rest inp) \<le> n"
  shows "within n (number_with K L c inp)"
proof -
  obtain i1 where g: "getc inp = (Some x, i1)" "rest i1 = xs"
    using getc_Cons [OF assms(1)] getc_SomeD [of inp x] assms(1) by (metis list.inject)
  then have "parse_number [] inp = parse_number [x] i1"
    using assms(2) by (subst parse_number.simps) simp
  then show ?thesis
    using parse_number_length [of "[x]" i1] g(2) assms(1,3)
    by (auto simp: number_with_def split: prod.splits option.splits sum.splits)
qed

lemma stop_within: "length (rest inp) < n \<Longrightarrow> within n (after (expecting x () inp) (\<lambda>_ inp'. told r inp'))"
  by (rule within_after [where n = n]) (auto intro: within_expecting told_within)

lemma closing_within:
  assumes "length (rest inp) < n" and "\<And>inp'. length (rest inp') < n \<Longrightarrow> within n (p inp')"
    and "\<And>v inp'. length (rest inp') < n \<Longrightarrow> within n (k v inp')"
  shows "within n (case expect x inp of (b, inp') \<Rightarrow> if b then told r inp' else after (p inp') k)"
proof (cases "expect x inp")
  case (Pair b inp')
  then have "length (rest inp') < n" using assms(1) expect_length [OF Pair] by (auto split: if_splits)
  then show ?thesis
    using Pair assms(2,3) by (auto intro!: told_within within_after [where n = n])
qed

lemma value_step_within:
  assumes "\<And>c i. length (rest i) < length (rest inp) \<Longrightarrow> within (length (rest inp)) (array_items_with K L fuel 0 c i)"
    and "\<And>c i. length (rest i) < length (rest inp) \<Longrightarrow> within (length (rest inp)) (object_items_with K L fuel c i)"
  shows "within (length (rest inp)) (parse_with K L (Suc fuel) c inp)"
proof (cases "getc (skip_ws inp)")
  case (Pair ch i1)
  show ?thesis
  proof (cases ch)
    case None
    then show ?thesis using Pair by simp
  next
    case (Some x)
    with Pair have r: "rest (skip_ws inp) = x # rest i1" by (simp add: getc_SomeD)
    then have l: "length (rest i1) < length (rest inp)"
      using length_dropWhile [of is_ws "rest inp"] unfolding rest_skip_ws by simp
    have num: "within (length (rest inp)) (number_with K L c (ungetc i1))" if "number_char x"
    proof (rule number_with_within [OF _ that])
      show "rest (ungetc i1) = x # rest i1" using rest_unget [OF Pair] r by simp
      then show "length (rest (ungetc i1)) \<le> length (rest inp)" using l by simp
    qed
    show ?thesis
      unfolding parse_with.simps Pair Some prod.case option.case
      by (intro within_if literal_with_within string_within within_after [OF told_within [OF l]] closing_within
          assms l num within_simps(2))
        (use l in \<open>auto simp: number_char_def split: prod.splits intro: stop_within\<close>)
  qed
qed

text \<open>Twice the length of the text and one more is enough for every context.\<close>

lemma parse_with_within:
  "2 * length (rest inp) < fuel \<Longrightarrow> within (length (rest inp)) (parse_with K L fuel c inp)"
  "2 * length (rest inp) + 1 < fuel \<Longrightarrow> within (length (rest inp)) (array_items_with K L fuel idx c inp)"
  "2 * length (rest inp) + 1 < fuel \<Longrightarrow> within (length (rest inp)) (object_items_with K L fuel c inp)"
proof (induction fuel arbitrary: inp c idx)
  case (Suc fuel)
  {
    case 1
    then show ?case by (intro value_step_within) (auto intro: within_mono [OF Suc.IH(2)] within_mono [OF Suc.IH(3)])
  next
    case 2
    have "within (length (rest inp)) (ctx_array_item K (\<lambda>c' i. parse_with K L fuel c' i) idx c inp)"
      using 2 by (intro array_item_within Suc.IH(1)) simp
    then show ?case
      unfolding array_items_with.simps
      by (rule within_after) (use 2 in \<open>auto intro!: within_comma intro: within_mono [OF Suc.IH(2)]\<close>)
  next
    case 3
    have item: "within (length (rest i)) (ctx_object_item K (\<lambda>c' i. parse_with K L fuel c' i) key c i)"
      if "length (rest i) < length (rest inp)" for key c i
      using 3 that by (intro object_item_within Suc.IH(1)) simp
    show ?case
      unfolding object_items_with.simps
    proof (rule within_after [OF within_member_key [OF order_refl]])
      fix key i
      assume l: "length (rest i) < length (rest inp) - 2"
      then have l': "length (rest i) < length (rest inp)" by simp
      show "within (length (rest inp)) (after (ctx_object_item K (\<lambda>c' i. parse_with K L fuel c' i) key c i) (\<lambda>c1 i1.
          case expect CHR '','' i1 of (b, i2) \<Rightarrow> if b then object_items_with K L fuel c1 i2 else Parsed c1 i2))"
        by (rule within_after [OF item [OF l']], rule within_comma)
          (use 3 l l' in \<open>auto intro!: within_mono [OF Suc.IH(3)]\<close>)
    qed
  }
qed simp_all

lemma parse_with_returns: "parse_with K L (enough_fuel s) c (new_input s) \<noteq> Out_of_fuel"
  using parse_with_within(1) [of "new_input s" "enough_fuel s" L c] by (auto simp: enough_fuel_def simp del: parse_with.simps)

end

interpretation default_ctx: parse_context_laws default_parse_context
  by unfold_locales
    (auto simp: default_parse_context_def default_array_item_def default_object_item_def
      split: prod.splits json.splits intro!: within_after within_string_token)

interpretation null_ctx: parse_context_laws null_parse_context
  by unfold_locales (auto simp: null_parse_context_def intro!: within_after within_string_token)

interpretation deny_ctx: parse_context_laws "deny_parse_context stop" for stop
  by unfold_locales (simp_all add: deny_parse_context_def)

section \<open>The default context builds what parse\_value returns\<close>

lemma after_assoc: "after (after r k) k' = after r (\<lambda>v inp. after (k v inp) k')"
  by (cases r) simp_all

lemma map_after: "map_presult f (after r k) = after r (\<lambda>v inp. map_presult f (k v inp))"
  by (cases r) simp_all

lemma after_map: "after (map_presult f r) k = after r (\<lambda>v. k (f v))"
  by (cases r) simp_all

lemma after_expecting: "after (expecting x () inp) (\<lambda>_. Parsed v) = expecting x v inp"
  by (simp add: expecting_def split: prod.splits)

lemma default_sel [simp]:
  "ctx_set_null default_parse_context (v, d) = (True, JNull, d)"
  "ctx_set_bool default_parse_context b (v, d) = (True, JBool b, d)"
  "ctx_set_int64 default_parse_context i (v, d) = (True, JInt i, d)"
  "ctx_set_number default_parse_context f (v, d) = (if nan_or_inf f then Inl Runtime_error else Inr (True, JNumber f, d))"
  "ctx_parse_string default_parse_context (v, d) inp = after (string_token inp) (\<lambda>s. Parsed (JString s, d))"
  "ctx_array_start default_parse_context (v, d) = (if d = 0 then (False, v, d) else (True, JArray [], d - 1))"
  "ctx_array_item default_parse_context = default_array_item"
  "ctx_array_stop default_parse_context idx (v, d) = (True, v, d + 1)"
  "ctx_object_start default_parse_context (v, d) = (if d = 0 then (False, v, d) else (True, JObject [], d))"
  "ctx_object_item default_parse_context = default_object_item"
  "ctx_object_stop default_parse_context (v, d) = (True, v, d + 1)"
  by (simp_all add: default_parse_context_def)

lemma default_value_step:
  assumes "\<And>d i. map_presult (\<lambda>r. fst (snd r)) (array_items_with default_parse_context L fuel 0 (JArray [], d) i) =
      map_presult JArray (parse_items L fuel d [] i)"
    and "\<And>d i. map_presult fst (object_items_with default_parse_context L fuel (JObject [], d) i) =
      map_presult JObject (parse_members L fuel d [] i)"
  shows "map_presult fst (parse_with default_parse_context L (Suc fuel) (v, d) inp) = parse_value L (Suc fuel) d inp"
proof -
  have arr: "map_presult fst (after r (\<lambda>(idx, c2) i4. after (expecting CHR '']'' () i4)
      (\<lambda>_ i5. told (ctx_array_stop default_parse_context idx c2) i5))) =
    after (map_presult (\<lambda>r. fst (snd r)) r) (expecting CHR '']'')" for r
    by (cases r) (auto simp: map_after told_def after_expecting split: prod.splits)
  have obj: "map_presult fst (after r (\<lambda>c2 i4. after (expecting CHR ''}'' () i4)
      (\<lambda>_ i5. told (ctx_object_stop default_parse_context c2) i5))) =
    after (map_presult fst r) (expecting CHR ''}'')" for r
    by (cases r) (auto simp: map_after told_def after_expecting split: prod.splits)
  have num: "map_presult fst (number_with default_parse_context L (v, d) i) = number L i" for d i
    by (simp add: number_with_def number_def split: prod.splits option.splits)
  have lit: "map_presult fst (literal_with t (True, x, d) i) = literal t x i" for t x d i
    by (simp add: literal_with_def literal_def told_def split: prod.splits)
  have str: "map_presult fst (after (string_token i) (\<lambda>s. Parsed (JString s, d))) =
      after (string_token i) (\<lambda>s. Parsed (JString s))" for d i
    by (simp add: map_after)
  have told: "told (True, c) i = Parsed c i" "told (False, c) i = Failed i" for c :: "json \<times> nat" and i
    by (simp_all add: told_def)
  show ?thesis
  proof (cases "getc (skip_ws inp)")
    case (Pair ch i1)
    show ?thesis
    proof (cases ch)
      case (Some x)
      show ?thesis
        unfolding parse_with.simps parse_value.simps Pair Some prod.case option.case
        by (simp add: lit num str told arr obj assms after_map if_distrib [of "map_presult _"] split: prod.split)
    qed (simp add: Pair)
  qed
qed

lemma default_parse:
  "map_presult fst (parse_with default_parse_context L fuel (v, d) inp) = parse_value L fuel d inp"
  "map_presult (\<lambda>r. fst (snd r)) (array_items_with default_parse_context L fuel idx (JArray vs, d) inp) =
     map_presult JArray (parse_items L fuel d vs inp)"
  "map_presult fst (object_items_with default_parse_context L fuel (JObject kvs, d) inp) =
     map_presult JObject (parse_members L fuel d kvs inp)"
proof (induction fuel arbitrary: v d inp idx vs kvs)
  case (Suc fuel)
  {
    case 1
    then show ?case by (rule default_value_step [OF Suc.IH(2) Suc.IH(3)])
  next
    case 2
    have "map_presult (\<lambda>r. fst (snd r)) (array_items_with default_parse_context L (Suc fuel) idx (JArray vs, d) inp) =
      after (map_presult fst (parse_with default_parse_context L fuel (JNull, d) inp)) (\<lambda>x i1.
        case expect CHR '','' i1 of (b, i2) \<Rightarrow> if b
          then map_presult JArray (parse_items L fuel d (vs @ [x]) i2) else Parsed (JArray (vs @ [x])) i2)"
      by (simp add: default_array_item_def default_object_item_def after_assoc map_after after_map Suc.IH(2) if_distrib [of "map_presult _"] split_beta cong: if_cong
          del: parse_with.simps)
    then show ?case unfolding Suc.IH(1) by (simp add: map_after if_distrib [of "map_presult _"] split_beta cong: if_cong)
  next
    case 3
    have "map_presult fst (object_items_with default_parse_context L (Suc fuel) (JObject kvs, d) inp) =
      after (member_key inp) (\<lambda>key i. after (map_presult fst (parse_with default_parse_context L fuel
          (case map_find kvs key of Some v \<Rightarrow> v | None \<Rightarrow> JNull, d) i)) (\<lambda>x i1.
        case expect CHR '','' i1 of (b, i2) \<Rightarrow> if b
          then map_presult JObject (parse_members L fuel d (map_assign key x kvs) i2)
          else Parsed (JObject (map_assign key x kvs)) i2))"
      by (simp add: default_array_item_def default_object_item_def after_assoc map_after after_map Suc.IH(3) if_distrib [of "map_presult _"] split_beta cong: if_cong
          del: parse_with.simps)
    then show ?case unfolding Suc.IH(1) by (simp add: map_after if_distrib [of "map_presult _"] split_beta cong: if_cong)
  }
qed simp_all

end
