(* ===== verification/JsonStreams.thy ===== *)
theory JsonStreams
  imports JsonRoundTrip JsonContexts
begin

text \<open>
  The entry points of \<^verbatim>\<open>picojson.h\<close>: \<^verbatim>\<open>_parse\<close> over a range of characters, \<^verbatim>\<open>parse\<close> with its default context, and
  the stream operators with the error string they leave behind. They return where they stopped, so that several
  values can be read from one text. When parsing fails the variable holds what was built so far; that
  content is not modelled.
\<close>

section \<open>Ranges\<close>

text \<open>The result: what the context holds unless parsing failed, the characters behind the returned position, and the
  error message, if a place for it was given.\<close>

definition parse_range ::
  "'c parse_context \<Rightarrow> c_double \<Rightarrow> bool \<Rightarrow> 'c \<Rightarrow> string \<Rightarrow> ('c option \<times> string \<times> string) res" where
  "parse_range K L want_err c s =
     (case parse_with K L (enough_fuel s) c (new_input s) of
        Parsed c' inp \<Rightarrow> Inr (Some c', rest inp, [])
      | Failed inp \<Rightarrow>
          if want_err
          then (case near (''syntax error at line '' @ to_string (int (line inp)) @ '' near: '') inp of
                  (err, inp') \<Rightarrow> Inr (None, rest inp', err))
          else Inr (None, rest inp, [])
      | Thrown e \<Rightarrow> Inl (Exn e)
      | Out_of_fuel \<Rightarrow> Inr (None, s, []))"

definition parse_values :: "c_double \<Rightarrow> string \<Rightarrow> (json option \<times> string \<times> string) res" where
  "parse_values L s =
     bind_res (parse_range default_parse_context L True (JNull, default_max_depths) s) (\<lambda>(c, s', err).
       Inr (map_option fst c, s', err))"

section \<open>Streams\<close>

record istream =
  is_text :: string
  is_failed :: bool

text \<open>\<^verbatim>\<open>operator>>\<close> with the stream, the last error, and the value that was read.\<close>

definition read_value :: "c_double \<Rightarrow> istream \<Rightarrow> string \<Rightarrow> (json option \<times> istream \<times> string) res" where
  "read_value L is last_error =
     (let last_error = []
      in bind_res (parse_values L (is_text is)) (\<lambda>(v, s', err).
           let is = is\<lparr>is_text := s'\<rparr>
           in if err \<noteq> [] then Inr (v, is\<lparr>is_failed := True\<rparr>, err) else Inr (v, is, last_error)))"

definition write_value :: "c_double \<Rightarrow> string \<Rightarrow> json \<Rightarrow> string" where
  "write_value L os v = os @ serialize L False v"

section \<open>The entry points agree\<close>

text \<open>Parsing a string is parsing its range and forgetting the position.\<close>

lemma default_range:
  "parse_value L (enough_fuel s) default_max_depths (new_input s) =
     map_presult fst (parse_with default_parse_context L (enough_fuel s) (JNull, default_max_depths) (new_input s))"
  by (simp add: default_parse(1))

lemma parse_text_values:
  "parse_text L s = bind_res (parse_values L s) (\<lambda>(v, s', err).
     Inr (case v of Some x \<Rightarrow> Inr x | None \<Rightarrow> Inl err))"
  unfolding parse_text_def default_range parse_values_def parse_range_def
  by (cases "parse_with default_parse_context L (enough_fuel s) (JNull, default_max_depths) (new_input s)")
    (auto split: prod.splits)

lemma parse_values_serialized:
  assumes "storable L default_max_depths v" and "blank ws" and "ends_number t"
  shows "parse_values L (ws @ serialize L False v @ t) = Inr (Some v, t, [])"
proof -
  let ?s = "ws @ serialize L False v @ t"
  have "2 * length (rest (new_input ?s)) < enough_fuel ?s" by (simp add: enough_fuel_def)
  then obtain inp where "parse_value L (enough_fuel ?s) default_max_depths (new_input ?s) = Parsed v inp"
    and r: "rest inp = t"
    using reads_backD [OF all_read_back assms, where inp = "new_input ?s" and ind = "- 1"] by (auto simp: serialize_def final_newline_def)
  then obtain c where "parse_with default_parse_context L (enough_fuel ?s) (JNull, default_max_depths) (new_input ?s) =
      Parsed c inp" "fst c = v"
    unfolding default_range
    by (cases "parse_with default_parse_context L (enough_fuel ?s) (JNull, default_max_depths) (new_input ?s)") auto
  with r show ?thesis by (simp add: parse_values_def parse_range_def)
qed

section \<open>Several values in one stream\<close>

primrec write_lines :: "c_double \<Rightarrow> string \<Rightarrow> json list \<Rightarrow> string" where
  "write_lines L os [] = os"
| "write_lines L os (v # vs) = write_lines L (write_value L os v @ [CHR 0x0A]) vs"

primrec read_values :: "c_double \<Rightarrow> nat \<Rightarrow> istream \<Rightarrow> string \<Rightarrow> (json option list \<times> istream \<times> string) res" where
  "read_values L 0 is e = Inr ([], is, e)"
| "read_values L (Suc n) is e =
     bind_res (read_value L is e) (\<lambda>(v, is1, e1).
       bind_res (read_values L n is1 e1) (\<lambda>(vs, is2, e2). Inr (v # vs, is2, e2)))"

lemma write_lines_concat: "write_lines L os vs = os @ concat (map (\<lambda>v. serialize L False v @ [CHR 0x0A]) vs)"
  by (induction vs arbitrary: os) (simp_all add: write_value_def)

lemma newline_not_number [simp]: "\<not> number_char CHR 0x0A"
  by (simp add: number_char_def is_digit_def)

lemma read_values_lines:
  assumes "\<forall>v \<in> set vs. storable L default_max_depths v" and "vs \<noteq> []" and "blank ws" and "\<not> is_failed is"
    and "is_text is = ws @ concat (map (\<lambda>v. serialize L False v @ [CHR 0x0A]) vs)"
  shows "read_values L (length vs) is e = Inr (map Some vs, \<lparr>is_text = [CHR 0x0A], is_failed = False\<rparr>, [])"
  using assms
proof (induction vs arbitrary: ws "is" e)
  case (Cons v vs)
  let ?t = "concat (map (\<lambda>v. serialize L False v @ [CHR 0x0A]) vs)"
  have "read_value L is e = Inr (Some v, is\<lparr>is_text := CHR 0x0A # ?t\<rparr>, [])"
    using parse_values_serialized [of L v ws "CHR 0x0A # ?t"] Cons.prems by (simp add: read_value_def)
  moreover have "read_values L (length vs) (is\<lparr>is_text := CHR 0x0A # ?t\<rparr>) [] =
      Inr (map Some vs, \<lparr>is_text = [CHR 0x0A], is_failed = False\<rparr>, [])"
  proof (cases "vs = []")
    case True
    then show ?thesis using Cons.prems(4) by simp
  next
    case False
    then show ?thesis
      using Cons.prems by (intro Cons.IH [where ws = "[CHR 0x0A]"]) (simp_all add: blank_def is_ws_def)
  qed
  ultimately show ?case by simp
qed simp

section \<open>Properties\<close>

text \<open>C12: the template over contexts. With the context that builds values it returns what the
  specialised parser returns, from every start; and with any of the three contexts it ends within the fuel that
  the entry points give it, on every text, while more fuel leads the specialised parser to the same result.\<close>

theorem parse_template_contexts:
  "map_presult fst (parse_with default_parse_context L fuel (v, d) inp) = parse_value L fuel d inp \<and>
   parse_with default_parse_context L (enough_fuel s) (v, d) (new_input s) \<noteq> Out_of_fuel \<and>
   parse_with null_parse_context L (enough_fuel s) d (new_input s) \<noteq> Out_of_fuel \<and>
   parse_with (deny_parse_context stop) L (enough_fuel s) () (new_input s) \<noteq> Out_of_fuel \<and>
   parse_value L (enough_fuel s + k) d (new_input s) = parse_value L (enough_fuel s) d (new_input s)"
  using default_parse(1) json_parse_returns default_ctx.parse_with_returns null_ctx.parse_with_returns deny_ctx.parse_with_returns
  by blast

text \<open>Values that are written to a stream one after the other, each with a newline behind it, are read back
  one by one, without an error and with nothing but the last newline left.\<close>

lemma stream_round_trip:
  assumes "\<forall>v \<in> set vs. storable L default_max_depths v" and "vs \<noteq> []"
  shows "read_values L (length vs) \<lparr>is_text = write_lines L [] vs, is_failed = False\<rparr> e =
    Inr (map Some vs, \<lparr>is_text = [CHR 0x0A], is_failed = False\<rparr>, [])"
  using assms by (intro read_values_lines [where ws = "[]"]) (simp_all add: write_lines_concat)

section \<open>What the contexts get wrong\<close>

text \<open>The checking context takes an empty object for a lower limit from then on: two of them in an array are too deep at
  a limit of two, which the building context accepts. A member raises the limit, so that a check can go deeper
  than building. And the refusing context accepts numbers.\<close>

lemma null_context_refuses_flat:
  "case parse_range null_parse_context sample_c_double True 2 ''[{},{}]'' of Inr (None, _) \<Rightarrow> True | _ \<Rightarrow> False"
  "parse_range default_parse_context sample_c_double True (JNull, 2) ''[{},{}]'' =
     Inr (Some (JArray [JObject [], JObject []], 2), [], [])"
  by code_simp+

definition two_members :: string where
  "two_members = ''{'' @ [CHR 0x22] @ ''a'' @ [CHR 0x22] @ '':1,'' @ [CHR 0x22] @ ''b'' @ [CHR 0x22] @ '':[[2]]}''"

lemma null_context_accepts_deeper:
  "parse_range null_parse_context sample_c_double True 1 two_members = Inr (Some 2, [], [])"
  "case parse_range default_parse_context sample_c_double True (JNull, 1) two_members of Inr (None, _) \<Rightarrow> True | _ \<Rightarrow> False"
  by code_simp+

lemma deny_context_accepts_numbers:
  "parse_range (deny_parse_context stop) sample_c_double True () ''7'' = Inr (Some (), [], [])"
  by code_simp

end
