(* ===== verification/JsonHeap.thy ===== *)
theory JsonHeap
  imports Json
begin

text \<open>
  The memory of the class \<^verbatim>\<open>value\<close> of \<^verbatim>\<open>picojson.h\<close>. A value is a tag with a union that holds a number or a
  pointer to a string, an array or an object that it owns. Here a \<open>cell\<close> is the tag with the member that it
  selects, and the owned strings, vectors and maps are blocks of an explicit heap; using a block that was deleted is
  \<^const>\<open>Use_after_free\<close>. Allocation does not fail. The other theories use the datatype \<open>json\<close> in
  place of cells: the relation \<open>rep\<close> says that a cell stands for a JSON value and owns a set of blocks, and the
  theorems say that the constructors, the destructor, assignment, move and swap treat what they own as a value.

  Copying and destroying follow pointers, so they take fuel; for every cell that stands for a value some fuel is
  enough, and more leads to the same result.
\<close>

section \<open>Cells and blocks\<close>

type_synonym addr = nat

datatype cell =
    Null_cell
  | Bool_cell bool
  | Number_cell double
  | Int64_cell int
  | String_cell addr
  | Array_cell addr
  | Object_cell addr

datatype block =
    String_block string
  | Array_block "cell list"
  | Object_block "(string \<times> cell) list"

record heap =
  blocks :: "addr \<Rightarrow> block option"
  next_addr :: addr

definition new_block :: "block \<Rightarrow> heap \<Rightarrow> addr \<times> heap" where
  "new_block b h = (next_addr h, h\<lparr>blocks := (blocks h)(next_addr h \<mapsto> b), next_addr := next_addr h + 1\<rparr>)"

definition delete_block :: "addr \<Rightarrow> heap \<Rightarrow> heap res" where
  "delete_block a h =
     (if blocks h a = None then Inl (UB Use_after_free) else Inr (h\<lparr>blocks := (blocks h)(a := None)\<rparr>))"

text \<open>\<^const>\<open>None\<close> is for running out of fuel.\<close>

type_synonym 'a hres = "'a res option"

fun bind_h :: "'a hres \<Rightarrow> ('a \<Rightarrow> 'b hres) \<Rightarrow> 'b hres" where
  "bind_h None f = None"
| "bind_h (Some (Inl e)) f = Some (Inl e)"
| "bind_h (Some (Inr x)) f = f x"

lemma bind_h_cong [fundef_cong]:
  "m = m' \<Longrightarrow> (\<And>x. m' = Some (Inr x) \<Longrightarrow> f x = g x) \<Longrightarrow> bind_h m f = bind_h m' g"
  by (cases "(m', f)" rule: bind_h.cases) auto

definition give :: "'a \<Rightarrow> 'a hres" where
  "give x = Some (Inr x)"

section \<open>Constructors\<close>

definition value_null :: cell where "value_null = Null_cell"
definition value_bool :: "bool \<Rightarrow> cell" where "value_bool b = Bool_cell b"
definition value_int64 :: "int \<Rightarrow> cell" where "value_int64 i = Int64_cell i"

text \<open>\<^verbatim>\<open>std::overflow_error\<close> is a \<^verbatim>\<open>std::runtime_error\<close>.\<close>

definition value_double :: "double \<Rightarrow> cell res" where
  "value_double n = (if nan_or_inf n then Inl (Exn Runtime_error) else Inr (Number_cell n))"

definition value_string :: "string \<Rightarrow> heap \<Rightarrow> cell \<times> heap" where
  "value_string s h = (case new_block (String_block s) h of (a, h') \<Rightarrow> (String_cell a, h'))"

text \<open>The constructors that take an array or an object by \<^verbatim>\<open>std::move\<close>.\<close>

definition value_array_move :: "cell list \<Rightarrow> heap \<Rightarrow> cell \<times> heap" where
  "value_array_move cs h = (case new_block (Array_block cs) h of (a, h') \<Rightarrow> (Array_cell a, h'))"

definition value_object_move :: "(string \<times> cell) list \<Rightarrow> heap \<Rightarrow> cell \<times> heap" where
  "value_object_move kcs h = (case new_block (Object_block kcs) h of (a, h') \<Rightarrow> (Object_cell a, h'))"

text \<open>\<^verbatim>\<open>value(int type, bool)\<close>, for the values of the enumeration.\<close>

datatype type_tag = Null_type | Boolean_type | Number_type | String_type | Array_type | Object_type | Int64_type

fun value_of_type :: "type_tag \<Rightarrow> heap \<Rightarrow> cell \<times> heap" where
  "value_of_type Boolean_type h = (Bool_cell False, h)"
| "value_of_type Number_type h = (Number_cell 0, h)"
| "value_of_type Int64_type h = (Int64_cell 0, h)"
| "value_of_type String_type h = value_string [] h"
| "value_of_type Array_type h = value_array_move [] h"
| "value_of_type Object_type h = value_object_move [] h"
| "value_of_type Null_type h = (Null_cell, h)"

text \<open>The copy constructor. The copy of a vector or a map copies its elements.\<close>

fun copy_cell :: "nat \<Rightarrow> cell \<Rightarrow> heap \<Rightarrow> (cell \<times> heap) hres"
  and copy_cells :: "nat \<Rightarrow> cell list \<Rightarrow> heap \<Rightarrow> (cell list \<times> heap) hres" where
  "copy_cell fuel (String_cell a) h =
     (case blocks h a of
        Some (String_block s) \<Rightarrow> give (value_string s h)
      | _ \<Rightarrow> Some (Inl (UB Use_after_free)))"
| "copy_cell 0 (Array_cell a) h = None"
| "copy_cell (Suc fuel) (Array_cell a) h =
     (case blocks h a of
        Some (Array_block cs) \<Rightarrow> bind_h (copy_cells fuel cs h) (\<lambda>(cs', h'). give (value_array_move cs' h'))
      | _ \<Rightarrow> Some (Inl (UB Use_after_free)))"
| "copy_cell 0 (Object_cell a) h = None"
| "copy_cell (Suc fuel) (Object_cell a) h =
     (case blocks h a of
        Some (Object_block kcs) \<Rightarrow>
          bind_h (copy_cells fuel (map snd kcs) h) (\<lambda>(cs', h'). give (value_object_move (zip (map fst kcs) cs') h'))
      | _ \<Rightarrow> Some (Inl (UB Use_after_free)))"
| "copy_cell fuel c h = give (c, h)"
| "copy_cells fuel [] h = give ([], h)"
| "copy_cells 0 (c # cs) h = None"
| "copy_cells (Suc fuel) (c # cs) h =
     bind_h (copy_cell fuel c h) (\<lambda>(c', h1).
       bind_h (copy_cells fuel cs h1) (\<lambda>(cs', h2). give (c' # cs', h2)))"

text \<open>The constructors that copy an array or an object, and those from characters: up to the first null character, or a given
  number of them.\<close>

definition value_array :: "nat \<Rightarrow> cell list \<Rightarrow> heap \<Rightarrow> (cell \<times> heap) hres" where
  "value_array fuel cs h = bind_h (copy_cells fuel cs h) (\<lambda>(cs', h'). give (value_array_move cs' h'))"

definition value_object :: "nat \<Rightarrow> (string \<times> cell) list \<Rightarrow> heap \<Rightarrow> (cell \<times> heap) hres" where
  "value_object fuel kcs h =
     bind_h (copy_cells fuel (map snd kcs) h) (\<lambda>(cs', h'). give (value_object_move (zip (map fst kcs) cs') h'))"

definition value_cstr :: "string \<Rightarrow> heap \<Rightarrow> cell \<times> heap" where
  "value_cstr s h = value_string (takeWhile (\<lambda>c. c \<noteq> CHR 0x00) s) h"

definition value_chars :: "string \<Rightarrow> nat \<Rightarrow> heap \<Rightarrow> cell \<times> heap" where
  "value_chars s len h = value_string (take len s) h"

section \<open>Destructor\<close>

text \<open>\<^verbatim>\<open>clear\<close>, which is also the destructor: deleting a vector or a map destroys its elements first.\<close>

fun clear :: "nat \<Rightarrow> cell \<Rightarrow> heap \<Rightarrow> heap hres"
  and clear_cells :: "nat \<Rightarrow> cell list \<Rightarrow> heap \<Rightarrow> heap hres" where
  "clear fuel (String_cell a) h = Some (delete_block a h)"
| "clear 0 (Array_cell a) h = None"
| "clear (Suc fuel) (Array_cell a) h =
     (case blocks h a of
        Some (Array_block cs) \<Rightarrow> bind_h (clear_cells fuel cs h) (\<lambda>h'. Some (delete_block a h'))
      | _ \<Rightarrow> Some (Inl (UB Use_after_free)))"
| "clear 0 (Object_cell a) h = None"
| "clear (Suc fuel) (Object_cell a) h =
     (case blocks h a of
        Some (Object_block kcs) \<Rightarrow> bind_h (clear_cells fuel (map snd kcs) h) (\<lambda>h'. Some (delete_block a h'))
      | _ \<Rightarrow> Some (Inl (UB Use_after_free)))"
| "clear fuel c h = give h"
| "clear_cells fuel [] h = give h"
| "clear_cells 0 (c # cs) h = None"
| "clear_cells (Suc fuel) (c # cs) h = bind_h (clear fuel c h) (\<lambda>h1. clear_cells fuel cs h1)"

section \<open>Assignment, move and set\<close>

text \<open>\<^verbatim>\<open>operator=\<close> copies, swaps, and destroys the temporary; \<open>self\<close> is the test \<^verbatim>\<open>this == &x\<close>.\<close>

definition swap_cells :: "cell \<times> cell \<Rightarrow> cell \<times> cell" where
  "swap_cells p = (snd p, fst p)"

definition assign_cell :: "bool \<Rightarrow> nat \<Rightarrow> cell \<Rightarrow> cell \<Rightarrow> heap \<Rightarrow> (cell \<times> heap) hres" where
  "assign_cell self fuel this x h =
     (if self then give (this, h)
      else bind_h (copy_cell fuel x h) (\<lambda>(t, h1).
        case swap_cells (this, t) of (this', t') \<Rightarrow>
          bind_h (clear fuel t' h1) (\<lambda>h2. give (this', h2))))"

text \<open>The move constructor swaps with a null value, move assignment with the target. Both return the new
  value and what is left in the source.\<close>

definition move_construct :: "cell \<Rightarrow> cell \<times> cell" where
  "move_construct x = swap_cells (value_null, x)"

definition move_assign :: "cell \<Rightarrow> cell \<Rightarrow> cell \<times> cell" where
  "move_assign this x = swap_cells (this, x)"

text \<open>\<^verbatim>\<open>set<T>(const T&)\<close> clears first and copies its argument then. The argument is a reference: to an object outside the
  heap, or to one that some value owns.\<close>

datatype 'a reference = Outside 'a | Owned addr

definition set_string :: "nat \<Rightarrow> cell \<Rightarrow> string reference \<Rightarrow> heap \<Rightarrow> (cell \<times> heap) hres" where
  "set_string fuel this val h =
     bind_h (clear fuel this h) (\<lambda>h1.
       case val of
         Outside s \<Rightarrow> give (value_string s h1)
       | Owned a \<Rightarrow>
           (case blocks h1 a of
              Some (String_block s) \<Rightarrow> give (value_string s h1)
            | _ \<Rightarrow> Some (Inl (UB Use_after_free))))"

definition set_array :: "nat \<Rightarrow> cell \<Rightarrow> cell list reference \<Rightarrow> heap \<Rightarrow> (cell \<times> heap) hres" where
  "set_array fuel this val h =
     bind_h (clear fuel this h) (\<lambda>h1.
       bind_h
         (case val of
            Outside cs \<Rightarrow> give cs
          | Owned a \<Rightarrow>
              (case blocks h1 a of Some (Array_block cs) \<Rightarrow> give cs | _ \<Rightarrow> Some (Inl (UB Use_after_free))))
         (\<lambda>cs. bind_h (copy_cells fuel cs h1) (\<lambda>(cs', h2). give (value_array_move cs' h2))))"

definition set_object :: "nat \<Rightarrow> cell \<Rightarrow> (string \<times> cell) list reference \<Rightarrow> heap \<Rightarrow> (cell \<times> heap) hres" where
  "set_object fuel this val h =
     bind_h (clear fuel this h) (\<lambda>h1.
       bind_h
         (case val of
            Outside kcs \<Rightarrow> give kcs
          | Owned a \<Rightarrow>
              (case blocks h1 a of Some (Object_block kcs) \<Rightarrow> give kcs | _ \<Rightarrow> Some (Inl (UB Use_after_free))))
         (\<lambda>kcs. bind_h (copy_cells fuel (map snd kcs) h1) (\<lambda>(cs', h2).
            give (value_object_move (zip (map fst kcs) cs') h2))))"

text \<open>\<^verbatim>\<open>set<T>(T&&)\<close> takes its argument over instead, here from outside the heap.\<close>

definition set_string_move :: "nat \<Rightarrow> cell \<Rightarrow> string \<Rightarrow> heap \<Rightarrow> (cell \<times> heap) hres" where
  "set_string_move fuel this s h = bind_h (clear fuel this h) (\<lambda>h1. give (value_string s h1))"

definition set_array_move :: "nat \<Rightarrow> cell \<Rightarrow> cell list \<Rightarrow> heap \<Rightarrow> (cell \<times> heap) hres" where
  "set_array_move fuel this cs h = bind_h (clear fuel this h) (\<lambda>h1. give (value_array_move cs h1))"

definition set_object_move :: "nat \<Rightarrow> cell \<Rightarrow> (string \<times> cell) list \<Rightarrow> heap \<Rightarrow> (cell \<times> heap) hres" where
  "set_object_move fuel this kcs h = bind_h (clear fuel this h) (\<lambda>h1. give (value_object_move kcs h1))"

definition set_bool :: "nat \<Rightarrow> cell \<Rightarrow> bool \<Rightarrow> heap \<Rightarrow> (cell \<times> heap) hres" where
  "set_bool fuel this b h = bind_h (clear fuel this h) (\<lambda>h1. give (Bool_cell b, h1))"

definition set_double :: "nat \<Rightarrow> cell \<Rightarrow> double \<Rightarrow> heap \<Rightarrow> (cell \<times> heap) hres" where
  "set_double fuel this n h = bind_h (clear fuel this h) (\<lambda>h1. give (Number_cell n, h1))"

definition set_int64 :: "nat \<Rightarrow> cell \<Rightarrow> int \<Rightarrow> heap \<Rightarrow> (cell \<times> heap) hres" where
  "set_int64 fuel this i h = bind_h (clear fuel this h) (\<lambda>h1. give (Int64_cell i, h1))"

section \<open>What a cell stands for\<close>

text \<open>\<open>rep b c j F\<close>: with the blocks \<open>b\<close>, the cell \<open>c\<close> stands for \<open>j\<close> and owns exactly the
  blocks at \<open>F\<close>, each of them once.\<close>

inductive rep :: "(addr \<Rightarrow> block option) \<Rightarrow> cell \<Rightarrow> json \<Rightarrow> addr set \<Rightarrow> bool"
  and reps :: "(addr \<Rightarrow> block option) \<Rightarrow> cell list \<Rightarrow> json list \<Rightarrow> addr set \<Rightarrow> bool"
  for b where
  rep_null: "rep b Null_cell JNull {}"
| rep_bool: "rep b (Bool_cell v) (JBool v) {}"
| rep_number: "rep b (Number_cell d) (JNumber d) {}"
| rep_int64: "rep b (Int64_cell i) (JInt i) {}"
| rep_string: "b a = Some (String_block s) \<Longrightarrow> rep b (String_cell a) (JString s) {a}"
| rep_array:
    "b a = Some (Array_block cs) \<Longrightarrow> reps b cs js F \<Longrightarrow> a \<notin> F \<Longrightarrow> rep b (Array_cell a) (JArray js) (insert a F)"
| rep_object:
    "b a = Some (Object_block kcs) \<Longrightarrow> map fst kcs = map fst kvs \<Longrightarrow> reps b (map snd kcs) (map snd kvs) F \<Longrightarrow> a \<notin> F \<Longrightarrow>
     rep b (Object_cell a) (JObject kvs) (insert a F)"
| reps_nil: "reps b [] [] {}"
| reps_cons: "rep b c j F \<Longrightarrow> reps b cs js G \<Longrightarrow> F \<inter> G = {} \<Longrightarrow> reps b (c # cs) (j # js) (F \<union> G)"

inductive_cases rep_stringE: "rep b (String_cell a) j F"
inductive_cases reps_nilE: "reps b [] js F"
inductive_cases reps_consE: "reps b (c # cs) js F"

lemma rep_dom: "rep b c j F \<Longrightarrow> F \<subseteq> dom b"
  and reps_dom: "reps b cs js F \<Longrightarrow> F \<subseteq> dom b"
  by (induction rule: rep_reps.inducts) auto

text \<open>A cell keeps its value as long as its own blocks stay as they are.\<close>

lemma rep_frame: "rep b c j F \<Longrightarrow> (\<forall>a\<in>F. b' a = b a) \<longrightarrow> rep b' c j F"
  and reps_frame: "reps b cs js F \<Longrightarrow> (\<forall>a\<in>F. b' a = b a) \<longrightarrow> reps b' cs js F"
  by (induction rule: rep_reps.inducts) (auto intro: rep_reps.intros)

lemma reps_length: "reps b cs js F \<Longrightarrow> length cs = length js"
  by (induction cs arbitrary: js F) (auto elim: reps_nilE reps_consE)

lemma zip_members:
  assumes "reps b cs (map snd kvs) F" and "map fst kcs = map fst kvs"
  shows "map fst (zip (map fst kcs) cs) = map fst kvs" and "map snd (zip (map fst kcs) cs) = cs"
proof -
  have "length (map fst kcs) = length cs"
    using reps_length [OF assms(1)] assms(2) by (metis length_map)
  then show "map fst (zip (map fst kcs) cs) = map fst kvs" "map snd (zip (map fst kcs) cs) = cs"
    using assms(2) by (simp_all add: map_fst_zip map_snd_zip del: length_map)
qed

section \<open>Growing heaps\<close>

definition heap_ok :: "heap \<Rightarrow> bool" where
  "heap_ok h \<longleftrightarrow> dom (blocks h) \<subseteq> {..<next_addr h}"

text \<open>\<open>grown h h' G\<close>: the blocks at \<open>G\<close> are new in \<open>h'\<close>, and nothing else differs from \<open>h\<close>.\<close>

definition grown :: "heap \<Rightarrow> heap \<Rightarrow> addr set \<Rightarrow> bool" where
  "grown h h' G \<longleftrightarrow>
     next_addr h \<le> next_addr h' \<and> G \<subseteq> {next_addr h..<next_addr h'} \<and>
     dom (blocks h') = dom (blocks h) \<union> G \<and> (\<forall>a\<in>dom (blocks h). blocks h' a = blocks h a)"

lemma grown_refl: "grown h h {}"
  by (simp add: grown_def)

lemma grown_trans: "grown h h1 G \<Longrightarrow> grown h1 h2 H \<Longrightarrow> grown h h2 (G \<union> H)"
  by (auto simp: grown_def)

lemma grown_ok: "heap_ok h \<Longrightarrow> grown h h' G \<Longrightarrow> heap_ok h'"
  by (fastforce simp: heap_ok_def grown_def)

lemma grown_disjoint: "heap_ok h \<Longrightarrow> grown h h' G \<Longrightarrow> dom (blocks h) \<inter> G = {}"
  by (fastforce simp: heap_ok_def grown_def)

lemma grown_disjoint_grown: "grown h h1 G \<Longrightarrow> grown h1 h2 H \<Longrightarrow> G \<inter> H = {}"
  by (fastforce simp: grown_def)

lemma grown_rep: "rep (blocks h) c j F \<Longrightarrow> grown h h' G \<Longrightarrow> rep (blocks h') c j F"
  using rep_dom [of "blocks h"] rep_frame [of "blocks h"] unfolding grown_def by (meson subsetD)

lemma grown_reps: "reps (blocks h) cs js F \<Longrightarrow> grown h h' G \<Longrightarrow> reps (blocks h') cs js F"
  using reps_dom [of "blocks h"] reps_frame [of "blocks h"] unfolding grown_def by (meson subsetD)

text \<open>One allocation.\<close>

lemma new_block_grown: "new_block blk h = (a, h') \<Longrightarrow> heap_ok h \<Longrightarrow>
  grown h h' {a} \<and> blocks h' a = Some blk \<and> a \<notin> dom (blocks h)"
  by (auto simp: new_block_def grown_def heap_ok_def)

lemma value_string_rep:
  assumes "heap_ok h" and "value_string s h = (c, h')"
  shows "\<exists>G. grown h h' G \<and> rep (blocks h') c (JString s) G"
  using assms new_block_grown [of "String_block s" h] rep_string
  by (auto simp: value_string_def split: prod.splits)

lemma value_array_rep:
  assumes "heap_ok h" and "reps (blocks h) cs js F" and "value_array_move cs h = (c, h')"
  shows "\<exists>a. grown h h' {a} \<and> rep (blocks h') c (JArray js) (insert a F)"
proof -
  obtain a where a: "new_block (Array_block cs) h = (a, h')" "c = Array_cell a"
    using assms(3) by (auto simp: value_array_move_def split: prod.splits)
  note new = new_block_grown [OF a(1) assms(1)]
  have "reps (blocks h') cs js F"
    using grown_reps [OF assms(2)] new by blast
  then show ?thesis
    using new a(2) reps_dom [OF assms(2)] by (blast intro: rep_array)
qed

lemma value_object_rep:
  assumes "heap_ok h" and "reps (blocks h) (map snd kcs) (map snd kvs) F" and "map fst kcs = map fst kvs"
    and "value_object_move kcs h = (c, h')"
  shows "\<exists>a. grown h h' {a} \<and> rep (blocks h') c (JObject kvs) (insert a F)"
proof -
  obtain a where a: "new_block (Object_block kcs) h = (a, h')" "c = Object_cell a"
    using assms(4) by (auto simp: value_object_move_def split: prod.splits)
  note new = new_block_grown [OF a(1) assms(1)]
  have "reps (blocks h') (map snd kcs) (map snd kvs) F"
    using grown_reps [OF assms(2)] new by blast
  then show ?thesis
    using new a(2) assms(3) reps_dom [OF assms(2)] by (blast intro: rep_object)
qed

section \<open>Copy and destroy\<close>

lemma size_members: "size_list size (map snd kvs) \<le> size_list (size_prod (\<lambda>_. 0) size) kvs"
  by (induction kvs) auto

lemma agree_grown: "(\<forall>a\<in>F. blocks h a = b a) \<Longrightarrow> F \<subseteq> dom b \<Longrightarrow> grown h h' G \<Longrightarrow> \<forall>a\<in>F. blocks h' a = b a"
  unfolding grown_def by (metis domIff subsetD)

text \<open>The copy of a value is a value of its own: all of its blocks are new, and nothing else is touched.\<close>

definition copies :: "nat \<Rightarrow> cell \<Rightarrow> json \<Rightarrow> heap \<Rightarrow> bool" where
  "copies fuel c j h \<longleftrightarrow>
     (\<exists>c' h' G. copy_cell fuel c h = give (c', h') \<and> grown h h' G \<and> rep (blocks h') c' j G)"

definition copies_all :: "nat \<Rightarrow> cell list \<Rightarrow> json list \<Rightarrow> heap \<Rightarrow> bool" where
  "copies_all fuel cs js h \<longleftrightarrow>
     (\<exists>cs' h' G. copy_cells fuel cs h = give (cs', h') \<and> grown h h' G \<and> reps (blocks h') cs' js G)"

lemma copies_string:
  assumes "blocks h a = Some (String_block s)" and "heap_ok h"
  shows "copies fuel (String_cell a) (JString s) h"
proof -
  obtain c' h' where c': "value_string s h = (c', h')"
    by fastforce
  then show ?thesis
    using value_string_rep [OF assms(2) c'] assms(1) by (auto simp: copies_def)
qed

lemma copies_array:
  assumes "blocks h a = Some (Array_block cs)" and "heap_ok h" and "copies_all fuel cs js h"
  shows "copies (Suc fuel) (Array_cell a) (JArray js) h"
proof -
  obtain cs' h1 G where cs': "copy_cells fuel cs h = give (cs', h1)" "grown h h1 G" "reps (blocks h1) cs' js G"
    using assms(3) by (auto simp: copies_all_def)
  obtain c' h' where c': "value_array_move cs' h1 = (c', h')"
    by fastforce
  obtain a' where "grown h1 h' {a'}" "rep (blocks h') c' (JArray js) (insert a' G)"
    using value_array_rep [OF grown_ok [OF assms(2) cs'(2)] cs'(3) c'] by blast
  moreover have "copy_cell (Suc fuel) (Array_cell a) h = give (c', h')"
    using assms(1) cs'(1) c' by (simp add: give_def)
  ultimately show ?thesis
    using grown_trans [OF cs'(2), of h' "{a'}"] by (auto simp: copies_def)
qed

lemma copies_object:
  assumes "blocks h a = Some (Object_block kcs)" and "heap_ok h" and "map fst kcs = map fst kvs"
    and "copies_all fuel (map snd kcs) (map snd kvs) h"
  shows "copies (Suc fuel) (Object_cell a) (JObject kvs) h"
proof -
  obtain cs' h1 G where
    cs': "copy_cells fuel (map snd kcs) h = give (cs', h1)" "grown h h1 G" "reps (blocks h1) cs' (map snd kvs) G"
    using assms(4) by (auto simp: copies_all_def)
  define kcs' where "kcs' = zip (map fst kcs) cs'"
  have kcs': "map fst kcs' = map fst kvs" "map snd kcs' = cs'"
    using zip_members [OF cs'(3) assms(3)] by (simp_all add: kcs'_def)
  obtain c' h' where c': "value_object_move kcs' h1 = (c', h')"
    by fastforce
  obtain a' where "grown h1 h' {a'}" "rep (blocks h') c' (JObject kvs) (insert a' G)"
    using value_object_rep [OF grown_ok [OF assms(2) cs'(2)] _ kcs'(1) c'] cs'(3) kcs'(2) by blast
  moreover have "copy_cell (Suc fuel) (Object_cell a) h = give (c', h')"
    using assms(1) cs'(1) c' by (simp add: give_def kcs'_def)
  ultimately show ?thesis
    using grown_trans [OF cs'(2), of h' "{a'}"] by (auto simp: copies_def)
qed

lemma copies_all_cons:
  assumes "copies fuel c j h" and rest: "\<And>h1 G. grown h h1 G \<Longrightarrow> copies_all fuel cs js h1" and "heap_ok h"
  shows "copies_all (Suc fuel) (c # cs) (j # js) h"
proof -
  obtain c' h1 G where c': "copy_cell fuel c h = give (c', h1)" "grown h h1 G" "rep (blocks h1) c' j G"
    using assms(1) by (auto simp: copies_def)
  obtain cs' h2 H where cs': "copy_cells fuel cs h1 = give (cs', h2)" "grown h1 h2 H" "reps (blocks h2) cs' js H"
    using rest [OF c'(2)] by (auto simp: copies_all_def)
  have "reps (blocks h2) (c' # cs') (j # js) (G \<union> H)"
    by (rule reps_cons [OF grown_rep [OF c'(3) cs'(2)] cs'(3) grown_disjoint_grown [OF c'(2) cs'(2)]])
  then show ?thesis
    using c'(1) cs'(1) grown_trans [OF c'(2) cs'(2)] by (auto simp: copies_all_def give_def)
qed

lemma rep_copies:
  "rep b c j F \<Longrightarrow> \<forall>h fuel. (\<forall>a\<in>F. blocks h a = b a) \<longrightarrow> heap_ok h \<longrightarrow> size j \<le> fuel \<longrightarrow> copies fuel c j h"
  and reps_copies:
  "reps b cs js F \<Longrightarrow>
   \<forall>h fuel. (\<forall>a\<in>F. blocks h a = b a) \<longrightarrow> heap_ok h \<longrightarrow> size_list size js \<le> fuel \<longrightarrow> copies_all fuel cs js h"
proof (induction rule: rep_reps.inducts)
  case (rep_string a s)
  then show ?case
    by (auto intro!: copies_string)
next
  case (rep_array a cs js F)
  show ?case
  proof (intro allI impI)
    fix h :: heap and fuel
    assume h: "\<forall>x\<in>insert a F. blocks h x = b x" "heap_ok h" and "size (JArray js) \<le> fuel"
    then obtain n where "fuel = Suc n" "size_list size js \<le> n"
      by (auto dest!: Suc_le_D)
    then show "copies fuel (Array_cell a) (JArray js) h"
      using rep_array h by (auto intro!: copies_array)
  qed
next
  case (rep_object a kcs kvs F)
  show ?case
  proof (intro allI impI)
    fix h :: heap and fuel
    assume h: "\<forall>x\<in>insert a F. blocks h x = b x" "heap_ok h" and "size (JObject kvs) \<le> fuel"
    then obtain n where "fuel = Suc n" "size_list size (map snd kvs) \<le> n"
      using size_members [of kvs] by (auto dest!: Suc_le_D)
    then show "copies fuel (Object_cell a) (JObject kvs) h"
      using rep_object h by (auto intro!: copies_object)
  qed
next
  case (reps_cons c j F cs js G)
  show ?case
  proof (intro allI impI)
    fix h :: heap and fuel
    assume h: "\<forall>x\<in>F \<union> G. blocks h x = b x" "heap_ok h" and "size_list size (j # js) \<le> fuel"
    then obtain n where n: "fuel = Suc n" "size j \<le> n" "size_list size js \<le> n"
      by (auto dest!: Suc_le_D)
    have "copies_all n cs js h1" if "grown h h1 H" for h1 H
      using reps_cons(4) h n(3) agree_grown [OF _ reps_dom [OF reps_cons(3)] that] grown_ok [OF h(2) that] by blast
    then show "copies_all fuel (c # cs) (j # js) h"
      using reps_cons(2) h n by (auto intro!: copies_all_cons)
  qed
qed (auto simp: copies_def copies_all_def give_def intro!: exI [of _ "{}"] grown_refl rep_reps.intros)

text \<open>The destructor deletes what the cell owns, each block once, and nothing else.\<close>

definition released :: "heap \<Rightarrow> addr set \<Rightarrow> heap" where
  "released h F = h\<lparr>blocks := blocks h |` (- F)\<rparr>"

lemma released_twice: "released (released h F) G = released h (F \<union> G)"
  by (simp add: released_def Int_commute)

lemma blocks_released [simp]: "blocks (released h F) a = (if a \<in> F then None else blocks h a)"
  by (simp add: released_def)

lemma released_empty [simp]: "released h {} = h"
  by (simp add: released_def restrict_map_def)

lemma delete_block_released: "blocks h a \<noteq> None \<Longrightarrow> delete_block a h = Inr (released h {a})"
  by (auto simp: delete_block_def released_def restrict_map_def fun_eq_iff)

lemma rep_clear:
  "rep b c j F \<Longrightarrow> \<forall>h fuel. (\<forall>a\<in>F. blocks h a = b a) \<longrightarrow> size j \<le> fuel \<longrightarrow> clear fuel c h = give (released h F)"
  and reps_clear:
  "reps b cs js F \<Longrightarrow>
   \<forall>h fuel. (\<forall>a\<in>F. blocks h a = b a) \<longrightarrow> size_list size js \<le> fuel \<longrightarrow> clear_cells fuel cs h = give (released h F)"
proof (induction rule: rep_reps.inducts)
  case (rep_array a cs js F)
  show ?case
  proof (intro allI impI)
    fix h :: heap and fuel
    assume h: "\<forall>x\<in>insert a F. blocks h x = b x" and "size (JArray js) \<le> fuel"
    then obtain n where "fuel = Suc n" "size_list size js \<le> n"
      by (auto dest!: Suc_le_D)
    then show "clear fuel (Array_cell a) h = give (released h (insert a F))"
      using rep_array h by (simp add: give_def delete_block_released released_twice)
  qed
next
  case (rep_object a kcs kvs F)
  show ?case
  proof (intro allI impI)
    fix h :: heap and fuel
    assume h: "\<forall>x\<in>insert a F. blocks h x = b x" and "size (JObject kvs) \<le> fuel"
    then obtain n where "fuel = Suc n" "size_list size (map snd kvs) \<le> n"
      using size_members [of kvs] by (auto dest!: Suc_le_D)
    then show "clear fuel (Object_cell a) h = give (released h (insert a F))"
      using rep_object h by (simp add: give_def delete_block_released released_twice)
  qed
next
  case (reps_cons c j F cs js G)
  show ?case
  proof (intro allI impI)
    fix h :: heap and fuel
    assume h: "\<forall>x\<in>F \<union> G. blocks h x = b x" and "size_list size (j # js) \<le> fuel"
    then obtain n where "fuel = Suc n" "size j \<le> n" "size_list size js \<le> n"
      by (auto dest!: Suc_le_D)
    moreover have "\<forall>x\<in>G. blocks (released h F) x = b x"
      using h reps_cons(5) by auto
    ultimately show "clear_cells fuel (c # cs) h = give (released h (F \<union> G))"
      using reps_cons(2,4) h by (simp add: give_def released_twice)
  qed
qed (auto simp: give_def delete_block_released)

section \<open>Assignment and set are assignments of values\<close>

text \<open>What replacing a value does to the heap: the blocks \<open>F\<close> of the old value are gone, the blocks \<open>F'\<close> of the
  new one are new, and every value that shares nothing with the old one is still there.\<close>

definition replaced :: "heap \<Rightarrow> addr set \<Rightarrow> heap \<Rightarrow> addr set \<Rightarrow> bool" where
  "replaced h F h' F' \<longleftrightarrow>
     heap_ok h' \<and> dom (blocks h') = dom (blocks h) - F \<union> F' \<and> F' \<inter> dom (blocks h) = {} \<and>
     (\<forall>y l H. rep (blocks h) y l H \<and> H \<inter> F = {} \<longrightarrow> rep (blocks h') y l H)"

lemma dom_released [simp]: "dom (blocks (released h F)) = dom (blocks h) - F"
  by (auto simp: dom_def split: if_splits)

lemma next_addr_released [simp]: "next_addr (released h F) = next_addr h"
  by (simp add: released_def)

lemma released_ok: "heap_ok h \<Longrightarrow> heap_ok (released h F)"
  by (auto simp: heap_ok_def)

lemma released_rep: "rep (blocks h) c j H \<Longrightarrow> H \<inter> F = {} \<Longrightarrow> rep (blocks (released h F)) c j H"
  using rep_frame [of "blocks h" c j H "blocks (released h F)"] by auto

lemma released_reps: "reps (blocks h) cs js H \<Longrightarrow> H \<inter> F = {} \<Longrightarrow> reps (blocks (released h F)) cs js H"
  using reps_frame [of "blocks h" cs js H "blocks (released h F)"] by auto

text \<open>Growing and then releasing, as assignment does, and releasing and then growing, as \<^verbatim>\<open>set\<close> does.\<close>

lemma grown_released_replaced:
  assumes "heap_ok h" and "F \<subseteq> dom (blocks h)" and "grown h h1 F'"
  shows "replaced h F (released h1 F) F'"
  unfolding replaced_def
proof (intro conjI allI impI)
  show "heap_ok (released h1 F)"
    by (rule released_ok [OF grown_ok [OF assms(1,3)]])
  have new: "dom (blocks h) \<inter> F' = {}"
    by (rule grown_disjoint [OF assms(1,3)])
  then show "dom (blocks (released h1 F)) = dom (blocks h) - F \<union> F'"
    using assms(2,3) unfolding grown_def dom_released by blast
  show "F' \<inter> dom (blocks h) = {}"
    using new by blast
  fix y l H
  assume "rep (blocks h) y l H \<and> H \<inter> F = {}"
  then show "rep (blocks (released h1 F)) y l H"
    by (intro released_rep grown_rep [OF _ assms(3)]) simp_all
qed

lemma released_grown_replaced:
  assumes "heap_ok h" and "grown (released h F) h' F'"
  shows "replaced h F h' F'"
  unfolding replaced_def
proof (intro conjI allI impI)
  show "heap_ok h'"
    by (rule grown_ok [OF released_ok [OF assms(1)] assms(2)])
  show "dom (blocks h') = dom (blocks h) - F \<union> F'"
    using assms(2) by (auto simp: grown_def)
  have "dom (blocks h) \<subseteq> {..<next_addr h}" "F' \<subseteq> {next_addr h..<next_addr h'}"
    using assms by (simp_all add: grown_def heap_ok_def)
  then show "F' \<inter> dom (blocks h) = {}"
    by fastforce
  fix y l H
  assume "rep (blocks h) y l H \<and> H \<inter> F = {}"
  then show "rep (blocks h') y l H"
    by (intro grown_rep [OF _ assms(2)] released_rep) simp_all
qed

lemma clear_of: "rep (blocks h) c j F \<Longrightarrow> size j \<le> fuel \<Longrightarrow> clear fuel c h = give (released h F)"
  using rep_clear [of "blocks h" c j F] by simp

lemma copies_of: "rep (blocks h) c j F \<Longrightarrow> heap_ok h \<Longrightarrow> size j \<le> fuel \<Longrightarrow> copies fuel c j h"
  using rep_copies [of "blocks h" c j F] by simp

lemma assign_cell_replaces:
  assumes "heap_ok h" and old: "rep (blocks h) this j F" and x: "rep (blocks h) x k G"
    and "size j \<le> fuel" and "size k \<le> fuel"
  shows "\<exists>this' h' F'. assign_cell False fuel this x h = give (this', h') \<and> rep (blocks h') this' k F' \<and> replaced h F h' F'"
proof -
  obtain t h1 F' where t: "copy_cell fuel x h = give (t, h1)" "grown h h1 F'" "rep (blocks h1) t k F'"
    using copies_of [OF x assms(1,5)] by (auto simp: copies_def)
  have F: "F \<subseteq> dom (blocks h)"
    by (rule rep_dom [OF old])
  have "clear fuel this h1 = give (released h1 F)"
    by (rule clear_of [OF grown_rep [OF old t(2)] assms(4)])
  moreover have "rep (blocks (released h1 F)) t k F'"
    by (rule released_rep [OF t(3)]) (use grown_disjoint [OF assms(1) t(2)] F in blast)
  ultimately show ?thesis
    using t(1) grown_released_replaced [OF assms(1) F t(2)] by (auto simp: assign_cell_def swap_cells_def give_def)
qed

text \<open>\<^verbatim>\<open>set\<close> replaces the value too, as long as its argument is not part of what the value owns.\<close>

lemma set_string_replaces:
  assumes "heap_ok h" and old: "rep (blocks h) this j F" and "size j \<le> fuel"
  shows "\<exists>this' h' F'. set_string fuel this (Outside s) h = give (this', h') \<and>
    rep (blocks h') this' (JString s) F' \<and> replaced h F h' F'"
proof -
  obtain c h' where c: "value_string s (released h F) = (c, h')"
    by fastforce
  then show ?thesis
    using value_string_rep [OF released_ok [OF assms(1)] c] clear_of [OF old assms(3)]
      released_grown_replaced [OF assms(1)]
    by (fastforce simp: set_string_def give_def)
qed

lemma set_array_move_replaces:
  assumes "heap_ok h" and old: "rep (blocks h) this j F" and "size j \<le> fuel"
    and val: "reps (blocks h) cs js G" "G \<inter> F = {}"
  shows "\<exists>this' h' a. set_array_move fuel this cs h = give (this', h') \<and>
    rep (blocks h') this' (JArray js) (insert a G) \<and> replaced h F h' {a}"
proof -
  obtain c h' where c: "value_array_move cs (released h F) = (c, h')"
    by fastforce
  obtain a where "grown (released h F) h' {a}" "rep (blocks h') c (JArray js) (insert a G)"
    using value_array_rep [OF released_ok [OF assms(1)] released_reps [OF val] c] by blast
  then show ?thesis
    using c clear_of [OF old assms(3)] released_grown_replaced [OF assms(1)]
    by (auto simp: set_array_move_def give_def)
qed

lemma set_array_replaces:
  assumes "heap_ok h" and old: "rep (blocks h) this j F" and "size j \<le> fuel"
    and val: "reps (blocks h) cs js G" "G \<inter> F = {}" "size_list size js \<le> fuel"
  shows "\<exists>this' h' F'. set_array fuel this (Outside cs) h = give (this', h') \<and>
    rep (blocks h') this' (JArray js) F' \<and> replaced h F h' F'"
proof -
  let ?h = "released h F"
  note ok = released_ok [OF assms(1), of F]
  have "copies_all fuel cs js ?h"
    using reps_copies [OF released_reps [OF val(1,2)]] ok val(3) by blast
  then obtain cs' h2 F2 where cs': "copy_cells fuel cs ?h = give (cs', h2)" "grown ?h h2 F2" "reps (blocks h2) cs' js F2"
    by (auto simp: copies_all_def)
  obtain c h' where c: "value_array_move cs' h2 = (c, h')"
    by fastforce
  obtain a where a: "grown h2 h' {a}" "rep (blocks h') c (JArray js) (insert a F2)"
    using value_array_rep [OF grown_ok [OF ok cs'(2)] cs'(3) c] by blast
  have "replaced h F h' (insert a F2)"
    using released_grown_replaced [OF assms(1)] grown_trans [OF cs'(2) a(1)] by simp
  then show ?thesis
    using a(2) cs'(1) c clear_of [OF old assms(3)] by (auto simp: set_array_def give_def)
qed

lemma set_object_replaces:
  assumes "heap_ok h" and old: "rep (blocks h) this j F" and "size j \<le> fuel"
    and val: "reps (blocks h) (map snd kcs) (map snd kvs) G" "map fst kcs = map fst kvs" "G \<inter> F = {}"
      "size_list size (map snd kvs) \<le> fuel"
  shows "\<exists>this' h' F'. set_object fuel this (Outside kcs) h = give (this', h') \<and>
    rep (blocks h') this' (JObject kvs) F' \<and> replaced h F h' F'"
proof -
  let ?h = "released h F"
  note ok = released_ok [OF assms(1), of F]
  have "copies_all fuel (map snd kcs) (map snd kvs) ?h"
    using reps_copies [OF released_reps [OF val(1,3)]] ok val(4) by blast
  then obtain cs' h2 F2 where cs': "copy_cells fuel (map snd kcs) ?h = give (cs', h2)" "grown ?h h2 F2"
      "reps (blocks h2) cs' (map snd kvs) F2"
    by (auto simp: copies_all_def)
  note zip = zip_members [OF cs'(3) val(2)]
  obtain c h' where c: "value_object_move (zip (map fst kcs) cs') h2 = (c, h')"
    by fastforce
  obtain a where a: "grown h2 h' {a}" "rep (blocks h') c (JObject kvs) (insert a F2)"
    using value_object_rep [OF grown_ok [OF ok cs'(2)] _ zip(1) c] cs'(3) zip(2) by auto
  have "replaced h F h' (insert a F2)"
    using released_grown_replaced [OF assms(1)] grown_trans [OF cs'(2) a(1)] by simp
  then show ?thesis
    using a(2) cs'(1) c clear_of [OF old assms(3)] by (auto simp: set_object_def give_def)
qed

text \<open>Destroying a copy leaves the heap as it was before the copy.\<close>

lemma copy_then_clear:
  assumes "heap_ok h" and x: "rep (blocks h) x k G" and "size k \<le> fuel"
  shows "\<exists>h'. bind_h (copy_cell fuel x h) (\<lambda>(t, h1). clear fuel t h1) = give h' \<and> blocks h' = blocks h"
proof -
  obtain t h1 F' where t: "copy_cell fuel x h = give (t, h1)" "grown h h1 F'" "rep (blocks h1) t k F'"
    using copies_of [OF x assms(1,3)] by (auto simp: copies_def)
  have "blocks (released h1 F') = blocks h"
  proof
    fix a
    show "blocks (released h1 F') a = blocks h a"
      using t(2) grown_disjoint [OF assms(1) t(2)] unfolding grown_def blocks_released
      by (metis IntI UnE domIff empty_iff)
  qed
  then show ?thesis
    using t(1) clear_of [OF t(3) assms(3)] by (auto simp: give_def)
qed

text \<open>The constructor that the parser uses for a value of a given type.\<close>

fun initial_value :: "type_tag \<Rightarrow> json" where
  "initial_value Boolean_type = JBool False"
| "initial_value Number_type = JNumber 0"
| "initial_value Int64_type = JInt 0"
| "initial_value String_type = JString []"
| "initial_value Array_type = JArray []"
| "initial_value Object_type = JObject []"
| "initial_value Null_type = JNull"

lemma value_of_type_rep:
  assumes "heap_ok h" and "value_of_type ty h = (c, h')"
  shows "\<exists>G. grown h h' G \<and> rep (blocks h') c (initial_value ty) G"
proof (cases ty)
  case String_type
  then show ?thesis using value_string_rep [OF assms(1)] assms(2) by simp
next
  case Array_type
  then show ?thesis using value_array_rep [OF assms(1) reps_nil] assms(2) by auto
next
  case Object_type
  then show ?thesis using value_object_rep [OF assms(1), of "[]" "[]" "{}" c h'] reps_nil [of "blocks h"] assms(2) by auto
qed (use assms(2) in \<open>auto intro!: exI [of _ "{}"] grown_refl rep_reps.intros\<close>)

text \<open>C11: Copy assignment of a \<^verbatim>\<open>picojson::value\<close> assigns values: whatever the two values are, also when one
  owns the other, as in \<^verbatim>\<open>v = v.get(0)\<close>, it returns without using a deleted block; the target then stands for
  the value of the source, in blocks of its own; all blocks of its old value are deleted and no others, so that
  nothing leaks; and every value that is not part of the old one keeps its meaning.\<close>

theorem value_assign_refines:
  assumes "heap_ok h" and "rep (blocks h) this j F" and "rep (blocks h) x k G"
    and "size j \<le> fuel" and "size k \<le> fuel"
  shows "\<exists>this' h' F'. assign_cell False fuel this x h = Some (Inr (this', h')) \<and>
    rep (blocks h') this' k F' \<and> heap_ok h' \<and>
    F' \<inter> dom (blocks h) = {} \<and> dom (blocks h') = dom (blocks h) - F \<union> F' \<and>
    (\<forall>y l H. rep (blocks h) y l H \<and> H \<inter> F = {} \<longrightarrow> rep (blocks h') y l H)"
  using assign_cell_replaces [OF assms] by (auto simp: give_def replaced_def)

text \<open>The array \<^verbatim>\<open>["a", null]\<close> that is assigned its own first element.\<close>

definition sample_heap :: heap where
  "sample_heap =
     \<lparr>blocks = [0 \<mapsto> Array_block [String_cell 1, Null_cell], 1 \<mapsto> String_block ''a''], next_addr = 2\<rparr>"

lemma sample_heap_reps:
  "heap_ok sample_heap"
  "rep (blocks sample_heap) (String_cell 1) (JString ''a'') {1}"
  "rep (blocks sample_heap) (Array_cell 0) (JArray [JString ''a'', JNull]) {0, 1}"
proof -
  show "heap_ok sample_heap"
    by (auto simp: heap_ok_def sample_heap_def)
  show s: "rep (blocks sample_heap) (String_cell 1) (JString ''a'') {1}"
    by (rule rep_string) (simp add: sample_heap_def)
  have "reps (blocks sample_heap) [String_cell 1, Null_cell] [JString ''a'', JNull] ({1} \<union> ({} \<union> {}))"
    by (intro reps_cons s rep_null reps_nil) simp_all
  then show "rep (blocks sample_heap) (Array_cell 0) (JArray [JString ''a'', JNull]) {0, 1}"
    using rep_array [of "blocks sample_heap" 0] by (simp add: sample_heap_def)
qed

theorem value_assign_refines_witness:
  "\<exists>this' h' F'. assign_cell False 3 (Array_cell 0) (String_cell 1) sample_heap = Some (Inr (this', h')) \<and>
    rep (blocks h') this' (JString ''a'') F' \<and> heap_ok h' \<and>
    F' \<inter> dom (blocks sample_heap) = {} \<and> dom (blocks h') = dom (blocks sample_heap) - {0, 1} \<union> F' \<and>
    (\<forall>y l H. rep (blocks sample_heap) y l H \<and> H \<inter> {0, 1} = {} \<longrightarrow> rep (blocks h') y l H)"
  by (rule value_assign_refines [OF sample_heap_reps(1,3,2)]) simp_all

text \<open>\<^verbatim>\<open>set\<close> destroys the old value before it copies its argument, unlike assignment: setting a string value to the string
  that it holds, which \<^verbatim>\<open>get<std::string>()\<close> gives by reference, copies from deleted memory.\<close>

lemma set_string_own_string:
  assumes "rep (blocks h) (String_cell a) (JString s) F"
  shows "set_string fuel (String_cell a) (Owned a) h = Some (Inl (UB Use_after_free))"
  using assms by (auto elim!: rep_stringE simp: set_string_def delete_block_def)

end
