(* ===== verification/JsonValues.thy ===== *)
theory JsonValues
  imports JsonRoundTrip
begin

text \<open>
  The accessors of the class \<^verbatim>\<open>value\<close> of \<^verbatim>\<open>picojson.h\<close> and its comparison. Values are those of the
  datatype \<open>json\<close>; an accessor that returns a reference returns the value there. \<^verbatim>\<open>get<double>()\<close> changes the
  value that it is called for, even a constant one, from an integer to a double, so it returns the value that is left as well, and the
  comparison returns what is left of both operands. These are different objects: comparing an object with itself is not
  modelled.
\<close>

section \<open>Accessors\<close>

fun is_null :: "json \<Rightarrow> bool" where
  "is_null JNull = True"
| "is_null _ = False"

fun is_bool :: "json \<Rightarrow> bool" where
  "is_bool (JBool _) = True"
| "is_bool _ = False"

fun is_int64 :: "json \<Rightarrow> bool" where
  "is_int64 (JInt _) = True"
| "is_int64 _ = False"

fun is_string :: "json \<Rightarrow> bool" where
  "is_string (JString _) = True"
| "is_string _ = False"

fun is_array :: "json \<Rightarrow> bool" where
  "is_array (JArray _) = True"
| "is_array _ = False"

fun is_object :: "json \<Rightarrow> bool" where
  "is_object (JObject _) = True"
| "is_object _ = False"

fun is_double :: "json \<Rightarrow> bool" where
  "is_double (JNumber _) = True"
| "is_double (JInt _) = True"
| "is_double _ = False"

text \<open>\<^verbatim>\<open>PICOJSON_ASSERT\<close> throws \<^verbatim>\<open>std::runtime_error\<close>.\<close>

fun get_bool :: "json \<Rightarrow> bool res" where
  "get_bool (JBool b) = Inr b"
| "get_bool _ = Inl (Exn Runtime_error)"

fun get_string :: "json \<Rightarrow> string res" where
  "get_string (JString s) = Inr s"
| "get_string _ = Inl (Exn Runtime_error)"

fun get_array :: "json \<Rightarrow> json list res" where
  "get_array (JArray vs) = Inr vs"
| "get_array _ = Inl (Exn Runtime_error)"

fun get_object :: "json \<Rightarrow> (string \<times> json) list res" where
  "get_object (JObject kvs) = Inr kvs"
| "get_object _ = Inl (Exn Runtime_error)"

fun get_int64 :: "json \<Rightarrow> int res" where
  "get_int64 (JInt i) = Inr i"
| "get_int64 _ = Inl (Exn Runtime_error)"

fun get_double :: "c_double \<Rightarrow> json \<Rightarrow> (double \<times> json) res" where
  "get_double L (JNumber d) = Inr (d, JNumber d)"
| "get_double L (JInt i) = Inr (of_int64 L i, JNumber (of_int64 L i))"
| "get_double L _ = Inl (Exn Runtime_error)"

fun evaluate_as_boolean :: "c_double \<Rightarrow> json \<Rightarrow> bool" where
  "evaluate_as_boolean L JNull = False"
| "evaluate_as_boolean L (JBool b) = b"
| "evaluate_as_boolean L (JNumber d) = (\<not> double_eq L d 0)"
| "evaluate_as_boolean L (JInt i) = (i \<noteq> 0)"
| "evaluate_as_boolean L (JString s) = (s \<noteq> [])"
| "evaluate_as_boolean L _ = True"

text \<open>\<^verbatim>\<open>get(idx)\<close> and \<^verbatim>\<open>get(key)\<close> return the null value \<^verbatim>\<open>s_null\<close> for what is not there.\<close>

definition get_idx :: "json \<Rightarrow> nat \<Rightarrow> json res" where
  "get_idx v idx = bind_res (get_array v) (\<lambda>vs. Inr (if idx < length vs then vs ! idx else JNull))"

definition get_key :: "json \<Rightarrow> string \<Rightarrow> json res" where
  "get_key v key = bind_res (get_object v) (\<lambda>kvs. Inr (case map_find kvs key of Some w \<Rightarrow> w | None \<Rightarrow> JNull))"

definition contains_idx :: "json \<Rightarrow> nat \<Rightarrow> bool res" where
  "contains_idx v idx = bind_res (get_array v) (\<lambda>vs. Inr (idx < length vs))"

definition contains_key :: "json \<Rightarrow> string \<Rightarrow> bool res" where
  "contains_key v key = bind_res (get_object v) (\<lambda>kvs. Inr (map_find kvs key \<noteq> None))"

text \<open>The forms that are not constant return a reference that can be written through, and \<open>s_null\<close>, one static variable of
  the function for all values, is among what can be written: reading and writing through the result of \<^verbatim>\<open>get(key)\<close>,
  the latter with the value and \<open>s_null\<close> afterwards.\<close>

definition get_key_ref :: "json \<Rightarrow> json \<Rightarrow> string \<Rightarrow> json res" where
  "get_key_ref s_null v key = bind_res (get_object v) (\<lambda>kvs. Inr (case map_find kvs key of Some w \<Rightarrow> w | None \<Rightarrow> s_null))"

definition assign_key_ref :: "json \<Rightarrow> json \<Rightarrow> string \<Rightarrow> json \<Rightarrow> (json \<times> json) res" where
  "assign_key_ref s_null v key w =
     bind_res (get_object v) (\<lambda>kvs. Inr (case map_find kvs key of
        Some _ \<Rightarrow> (JObject (map_assign key w kvs), s_null)
      | None \<Rightarrow> (v, w)))"

text \<open>The same for \<^verbatim>\<open>get(idx)\<close>, which has a static variable of its own.\<close>

definition get_idx_ref :: "json \<Rightarrow> json \<Rightarrow> nat \<Rightarrow> json res" where
  "get_idx_ref s_null v idx = bind_res (get_array v) (\<lambda>vs. Inr (if idx < length vs then vs ! idx else s_null))"

definition assign_idx_ref :: "json \<Rightarrow> json \<Rightarrow> nat \<Rightarrow> json \<Rightarrow> (json \<times> json) res" where
  "assign_idx_ref s_null v idx w =
     bind_res (get_array v) (\<lambda>vs. Inr (if idx < length vs then (JArray (vs[idx := w]), s_null) else (v, w)))"

section \<open>Comparison\<close>

text \<open>\<^verbatim>\<open>operator==\<close>, with the comparison of vectors and maps of the standard library: first the sizes, then the elements from
  the front up to the first difference, for a map the key before the value. The second and the third component are
  what is left of the operands.\<close>

fun value_eq :: "c_double \<Rightarrow> json \<Rightarrow> json \<Rightarrow> bool \<times> json \<times> json"
  and items_eq :: "c_double \<Rightarrow> json list \<Rightarrow> json list \<Rightarrow> bool \<times> json list \<times> json list"
  and members_eq :: "c_double \<Rightarrow> (string \<times> json) list \<Rightarrow> (string \<times> json) list \<Rightarrow>
    bool \<times> (string \<times> json) list \<times> (string \<times> json) list" where
  "value_eq L JNull y = (is_null y, JNull, y)"
| "value_eq L (JBool a) y =
     (case get_bool y of Inr b \<Rightarrow> (a = b, JBool a, y) | Inl _ \<Rightarrow> (False, JBool a, y))"
| "value_eq L (JNumber a) y =
     (case get_double L y of Inr (b, y') \<Rightarrow> (double_eq L a b, JNumber a, y') | Inl _ \<Rightarrow> (False, JNumber a, y))"
| "value_eq L (JInt i) y =
     (case get_double L y of
        Inr (b, y') \<Rightarrow> (double_eq L (of_int64 L i) b, JNumber (of_int64 L i), y')
      | Inl _ \<Rightarrow> (False, JInt i, y))"
| "value_eq L (JString s) y =
     (case get_string y of Inr t \<Rightarrow> (s = t, JString s, y) | Inl _ \<Rightarrow> (False, JString s, y))"
| "value_eq L (JArray vs) y =
     (case get_array y of
        Inr ws \<Rightarrow>
          if length vs = length ws
          then (case items_eq L vs ws of (e, vs', ws') \<Rightarrow> (e, JArray vs', JArray ws'))
          else (False, JArray vs, y)
      | Inl _ \<Rightarrow> (False, JArray vs, y))"
| "value_eq L (JObject kvs) y =
     (case get_object y of
        Inr kws \<Rightarrow>
          if length kvs = length kws
          then (case members_eq L kvs kws of (e, kvs', kws') \<Rightarrow> (e, JObject kvs', JObject kws'))
          else (False, JObject kvs, y)
      | Inl _ \<Rightarrow> (False, JObject kvs, y))"
| "items_eq L (v # vs) (w # ws) =
     (case value_eq L v w of
        (True, v', w') \<Rightarrow> (case items_eq L vs ws of (e, vs', ws') \<Rightarrow> (e, v' # vs', w' # ws'))
      | (False, v', w') \<Rightarrow> (False, v' # vs, w' # ws))"
| "items_eq L vs ws = (True, vs, ws)"
| "members_eq L ((k, v) # kvs) ((k', w) # kws) =
     (if k \<noteq> k' then (False, (k, v) # kvs, (k', w) # kws)
      else (case value_eq L v w of
        (True, v', w') \<Rightarrow>
          (case members_eq L kvs kws of (e, kvs', kws') \<Rightarrow> (e, (k, v') # kvs', (k', w') # kws'))
      | (False, v', w') \<Rightarrow> (False, (k, v') # kvs, (k', w') # kws)))"
| "members_eq L kvs kws = (True, kvs, kws)"

definition value_neq :: "c_double \<Rightarrow> json \<Rightarrow> json \<Rightarrow> bool \<times> json \<times> json" where
  "value_neq L x y = (case value_eq L x y of (e, x', y') \<Rightarrow> (\<not> e, x', y'))"

section \<open>What the comparison decides, and what it leaves behind\<close>

text \<open>The reference: equal values once every integer is read as a double.\<close>

fun same_value :: "c_double \<Rightarrow> json \<Rightarrow> json \<Rightarrow> bool" where
  "same_value L JNull y \<longleftrightarrow> y = JNull"
| "same_value L (JBool a) y \<longleftrightarrow> y = JBool a"
| "same_value L (JNumber a) y \<longleftrightarrow> (case y of JNumber b \<Rightarrow> double_eq L a b | JInt j \<Rightarrow> double_eq L a (of_int64 L j) | _ \<Rightarrow> False)"
| "same_value L (JInt i) y \<longleftrightarrow>
     (case y of JNumber b \<Rightarrow> double_eq L (of_int64 L i) b | JInt j \<Rightarrow> double_eq L (of_int64 L i) (of_int64 L j) | _ \<Rightarrow> False)"
| "same_value L (JString s) y \<longleftrightarrow> y = JString s"
| "same_value L (JArray vs) y \<longleftrightarrow> (case y of JArray ws \<Rightarrow> list_all2 (same_value L) vs ws | _ \<Rightarrow> False)"
| "same_value L (JObject kvs) y \<longleftrightarrow>
     (case y of JObject kws \<Rightarrow> list_all2 (\<lambda>(k, v) (k', w). k = k' \<and> same_value L v w) kvs kws | _ \<Rightarrow> False)"

text \<open>All integers turned into doubles.\<close>

fun as_doubles :: "c_double \<Rightarrow> json \<Rightarrow> json" where
  "as_doubles L (JInt i) = JNumber (of_int64 L i)"
| "as_doubles L (JArray vs) = JArray (map (as_doubles L) vs)"
| "as_doubles L (JObject kvs) = JObject (map (\<lambda>(k, v). (k, as_doubles L v)) kvs)"
| "as_doubles L v = v"

text \<open>How a comparison of two lists or values with result \<open>r\<close> relates to the operands, by the reference \<open>p\<close> and the
  conversion \<open>f\<close>.\<close>

definition compared :: "('a \<Rightarrow> 'a) \<Rightarrow> bool \<Rightarrow> 'a \<Rightarrow> 'a \<Rightarrow> bool \<times> 'a \<times> 'a \<Rightarrow> bool" where
  "compared f p x y r \<longleftrightarrow>
     (case r of (e, x', y') \<Rightarrow> e = p \<and> f x' = f x \<and> f y' = f y \<and> (e \<longrightarrow> x' = f x \<and> y' = f y))"

definition member_as_doubles :: "c_double \<Rightarrow> string \<times> json \<Rightarrow> string \<times> json" where
  "member_as_doubles L = (\<lambda>(k, v). (k, as_doubles L v))"

definition same_member :: "c_double \<Rightarrow> string \<times> json \<Rightarrow> string \<times> json \<Rightarrow> bool" where
  "same_member L = (\<lambda>(k, v) (k', w). k = k' \<and> same_value L v w)"

lemma as_doubles_object: "as_doubles L (JObject kvs) = JObject (map (member_as_doubles L) kvs)"
  by (simp add: member_as_doubles_def)

lemma same_value_object:
  "same_value L (JObject kvs) y = (case y of JObject kws \<Rightarrow> list_all2 (same_member L) kvs kws | _ \<Rightarrow> False)"
  by (cases y) (simp_all add: same_member_def)

lemma value_eq_compared:
  "compared (as_doubles L) (same_value L x y) x y (value_eq L x y)"
  "length vs = length ws \<Longrightarrow>
     compared (map (as_doubles L)) (list_all2 (same_value L) vs ws) vs ws (items_eq L vs ws)"
  "length kvs = length kws \<Longrightarrow>
     compared (map (member_as_doubles L)) (list_all2 (same_member L) kvs kws) kvs kws (members_eq L kvs kws)"
proof (induction L x y and L vs ws and L kvs kws rule: value_eq_items_eq_members_eq.induct)
  case (6 L vs y)
  then show ?case
    by (cases y) (auto simp: compared_def list_all2_lengthD split: prod.splits)
next
  case (7 L kvs y)
  then show ?case
    by (cases y) (auto simp: compared_def same_value_object as_doubles_object list_all2_lengthD
        simp del: same_value.simps(7) as_doubles.simps(3) split: prod.splits)
next
  case (8 L v vs w ws)
  then show ?case
    by (auto simp: compared_def split: prod.splits bool.splits)
next
  case (10 L k v kvs k' w kws)
  then show ?case
    by (auto simp: compared_def same_member_def member_as_doubles_def split: prod.splits bool.splits)
qed (auto simp: compared_def split: json.splits sum.splits elim: is_null.elims get_bool.elims get_string.elims get_double.elims)

text \<open>The accessors of a type succeed exactly on the values of which the test for the type holds.\<close>

lemma get_when_is:
  "(\<exists>b. get_bool v = Inr b) = is_bool v" "(\<exists>s. get_string v = Inr s) = is_string v"
  "(\<exists>vs. get_array v = Inr vs) = is_array v" "(\<exists>kvs. get_object v = Inr kvs) = is_object v"
  "(\<exists>i. get_int64 v = Inr i) = is_int64 v" "(\<exists>r. get_double L v = Inr r) = is_double v"
  by (cases v; simp)+

lemma contains_get:
  "contains_key v k = Inr False \<Longrightarrow> get_key v k = Inr JNull"
  "contains_idx v i = Inr False \<Longrightarrow> get_idx v i = Inr JNull"
  by (cases v; simp add: contains_key_def get_key_def contains_idx_def get_idx_def)+

text \<open>A write to a member that is not there changes what every later look-up of a missing member returns, of any value.\<close>

lemma missing_member_write:
  assumes "contains_key v k = Inr False" and "assign_key_ref s_null v k w = Inr (v', s_null')"
    and "contains_key u k' = Inr False"
  shows "v' = v \<and> get_key_ref s_null' u k' = Inr w"
  using assms by (cases v; cases u; simp add: contains_key_def assign_key_ref_def get_key_ref_def split: option.splits)

lemma item_write_read:
  assumes "assign_idx_ref s_null (JArray vs) i w = Inr (v', s_null')"
  shows "get_idx_ref s_null' v' i = Inr w \<and> (i < length vs \<longrightarrow> s_null' = s_null) \<and> (length vs \<le> i \<longrightarrow> v' = JArray vs)"
  using assms by (auto simp: assign_idx_ref_def get_idx_ref_def split: if_splits)

lemma member_write_read:
  assumes "map_sorted kvs" and "map_find kvs k \<noteq> None" and "assign_key_ref s_null (JObject kvs) k w = Inr (v', s_null')"
  shows "s_null' = s_null \<and> get_key_ref s_null' v' k' = (if k' = k then Inr w else get_key_ref s_null (JObject kvs) k')"
  using assms by (auto simp: assign_key_ref_def get_key_ref_def map_find_assign split: option.splits)

text \<open>C27: The comparison \<^verbatim>\<open>operator==\<close> of \<^verbatim>\<open>picojson::value\<close> decides equality of the values with every integer read as a
  double, and it does not leave its operands alone, although they are constant: they may have lost integers to
  doubles, which is the only difference, and when it finds them equal, every integer in both of them has become a
  double.\<close>

theorem value_eq_decides:
  "\<exists>e x' y'. value_eq L x y = (e, x', y') \<and> e = same_value L x y \<and>
     as_doubles L x' = as_doubles L x \<and> as_doubles L y' = as_doubles L y \<and>
     (e \<longrightarrow> x' = as_doubles L x \<and> y' = as_doubles L y)"
  using value_eq_compared(1) [of L x y] by (auto simp: compared_def split: prod.splits)

theorem value_eq_decides_witness:
  "\<exists>x' y'. value_eq sample_c_double (JObject [(''id'', JInt 7)]) (JObject [(''id'', JNumber 7)]) = (True, x', y') \<and>
     x' = JObject [(''id'', JNumber 7)] \<and> y' = JObject [(''id'', JNumber 7)]"
  using value_eq_decides [of sample_c_double "JObject [(''id'', JInt 7)]" "JObject [(''id'', JNumber 7)]"]
  by (auto simp: sample_c_double_def)

text \<open>So two integers that round to the same double are equal, and both are lost.\<close>

lemma value_eq_rounded:
  assumes "of_int64 L i = of_int64 L j" and "double_eq L (of_int64 L i) (of_int64 L i)"
  shows "value_eq L (JInt i) (JInt j) = (True, JNumber (of_int64 L i), JNumber (of_int64 L i))"
  using assms by simp

end
