(* ===== verification/JsonTraits.thy ===== *)
theory JsonTraits
  imports JwtVerify
begin

text \<open>
  The traits through which \<^verbatim>\<open>jwt.h\<close> uses a JSON library: besides those of picojson, which the server takes and the
  theory Jwt models, those of Boost.JSON, jsoncons and nlohmann JSON under \<^verbatim>\<open>jwt-cpp/traits\<close>. The libraries are
  parameters: Boost.JSON and jsoncons are not part of the repository, and of \<^verbatim>\<open>nlohmann/json.hpp\<close> the value type and
  the conversions \<^verbatim>\<open>get<T>()\<close> are modelled, while its parser and printer are parameters too. An accessor of Boost.JSON or jsoncons
  is only called on a value of its kind, where it returns.

  The locale \<open>json_traits_laws\<close> has what \<^verbatim>\<open>jwt.h\<close> relies on: the accessor of the type that
  \<^verbatim>\<open>get_type\<close> reports does not throw. All four traits satisfy it.
\<close>

section \<open>The interface\<close>

record ('v, 'o, 'a) json_traits =
  tr_get_type :: "'v \<Rightarrow> json_type res"
  tr_as_object :: "'v \<Rightarrow> 'o res"
  tr_as_array :: "'v \<Rightarrow> 'a res"
  tr_as_string :: "'v \<Rightarrow> string res"
  tr_as_int :: "'v \<Rightarrow> int res"
  tr_as_bool :: "'v \<Rightarrow> bool res"
  tr_as_number :: "'v \<Rightarrow> double res"
  tr_parse :: "string \<Rightarrow> 'v option res"
  tr_serialize :: "'v \<Rightarrow> string res"

text \<open>\<^verbatim>\<open>matches\<close> of \<^verbatim>\<open>equals_claim\<close> for any traits.\<close>

definition claims_match_with :: "('v, 'o, 'a) json_traits \<Rightarrow> c_double \<Rightarrow> 'v \<Rightarrow> 'v \<Rightarrow> bool res" where
  "claims_match_with T L expected jc =
     bind_res (tr_get_type T expected) (\<lambda>t. case t of
        Type_boolean \<Rightarrow> bind_res (tr_as_bool T expected) (\<lambda>a. bind_res (tr_as_bool T jc) (\<lambda>b. Inr (a = b)))
      | Type_integer \<Rightarrow> bind_res (tr_as_int T expected) (\<lambda>a. bind_res (tr_as_int T jc) (\<lambda>b. Inr (a = b)))
      | Type_number \<Rightarrow> bind_res (tr_as_number T expected) (\<lambda>a. bind_res (tr_as_number T jc) (\<lambda>b. Inr (double_eq L a b)))
      | Type_string \<Rightarrow> bind_res (tr_as_string T expected) (\<lambda>a. bind_res (tr_as_string T jc) (\<lambda>b. Inr (a = b)))
      | Type_array \<Rightarrow> bind_res (tr_serialize T expected) (\<lambda>a. bind_res (tr_serialize T jc) (\<lambda>b. Inr (a = b)))
      | Type_object \<Rightarrow> bind_res (tr_serialize T expected) (\<lambda>a. bind_res (tr_serialize T jc) (\<lambda>b. Inr (a = b))))"

section \<open>kazuho-picojson\<close>

definition picojson_traits :: "c_double \<Rightarrow> (json, claims, json list) json_traits" where
  "picojson_traits L =
     \<lparr>tr_get_type = get_type, tr_as_object = as_object, tr_as_array = as_array, tr_as_string = as_string,
      tr_as_int = as_int, tr_as_bool = as_bool, tr_as_number = as_number L,
      tr_parse = traits_parse L, tr_serialize = (\<lambda>v. Inr (traits_serialize L v))\<rparr>"

section \<open>boost-json\<close>

datatype boost_kind = Kind_null | Kind_bool | Kind_int64 | Kind_uint64 | Kind_double | Kind_string | Kind_array | Kind_object

record ('v, 'o, 'a) boost_json =
  kind :: "'v \<Rightarrow> boost_kind"
  bj_get_object :: "'v \<Rightarrow> 'o"
  bj_get_array :: "'v \<Rightarrow> 'a"
  bj_get_string :: "'v \<Rightarrow> string"
  bj_get_int64 :: "'v \<Rightarrow> int"
  bj_get_uint64 :: "'v \<Rightarrow> 64 word"
  bj_get_bool :: "'v \<Rightarrow> bool"
  bj_get_double :: "'v \<Rightarrow> double"
  bj_parse :: "string \<Rightarrow> 'v res"
  bj_serialize :: "'v \<Rightarrow> string"

definition boost_get_type :: "('v, 'o, 'a) boost_json \<Rightarrow> 'v \<Rightarrow> json_type res" where
  "boost_get_type B val =
     (if kind B val = Kind_bool then Inr Type_boolean
      else if kind B val = Kind_int64 then Inr Type_integer
      else if kind B val = Kind_uint64 then Inr Type_integer
      else if kind B val = Kind_double then Inr Type_number
      else if kind B val = Kind_string then Inr Type_string
      else if kind B val = Kind_array then Inr Type_array
      else if kind B val = Kind_object then Inr Type_object
      else Inl (Exn Logic_error))"

definition boost_as_object :: "('v, 'o, 'a) boost_json \<Rightarrow> 'v \<Rightarrow> 'o res" where
  "boost_as_object B val = (if kind B val \<noteq> Kind_object then Inl (Exn Bad_cast) else Inr (bj_get_object B val))"

definition boost_as_array :: "('v, 'o, 'a) boost_json \<Rightarrow> 'v \<Rightarrow> 'a res" where
  "boost_as_array B val = (if kind B val \<noteq> Kind_array then Inl (Exn Bad_cast) else Inr (bj_get_array B val))"

definition boost_as_string :: "('v, 'o, 'a) boost_json \<Rightarrow> 'v \<Rightarrow> string res" where
  "boost_as_string B val = (if kind B val \<noteq> Kind_string then Inl (Exn Bad_cast) else Inr (bj_get_string B val))"

text \<open>\<^verbatim>\<open>static_cast<int64_t>\<close> of an unsigned integer reads its bits as two's complement.\<close>

definition boost_as_int :: "('v, 'o, 'a) boost_json \<Rightarrow> 'v \<Rightarrow> int res" where
  "boost_as_int B val =
     (case kind B val of
        Kind_int64 \<Rightarrow> Inr (bj_get_int64 B val)
      | Kind_uint64 \<Rightarrow> Inr (sint (bj_get_uint64 B val))
      | _ \<Rightarrow> Inl (Exn Bad_cast))"

definition boost_as_bool :: "('v, 'o, 'a) boost_json \<Rightarrow> 'v \<Rightarrow> bool res" where
  "boost_as_bool B val = (if kind B val \<noteq> Kind_bool then Inl (Exn Bad_cast) else Inr (bj_get_bool B val))"

definition boost_as_number :: "('v, 'o, 'a) boost_json \<Rightarrow> 'v \<Rightarrow> double res" where
  "boost_as_number B val = (if kind B val \<noteq> Kind_double then Inl (Exn Bad_cast) else Inr (bj_get_double B val))"

definition boost_parse :: "('v, 'o, 'a) boost_json \<Rightarrow> string \<Rightarrow> 'v option res" where
  "boost_parse B str = bind_res (bj_parse B str) (\<lambda>val. Inr (Some val))"

definition boost_traits :: "('v, 'o, 'a) boost_json \<Rightarrow> ('v, 'o, 'a) json_traits" where
  "boost_traits B =
     \<lparr>tr_get_type = boost_get_type B, tr_as_object = boost_as_object B, tr_as_array = boost_as_array B,
      tr_as_string = boost_as_string B, tr_as_int = boost_as_int B, tr_as_bool = boost_as_bool B,
      tr_as_number = boost_as_number B, tr_parse = boost_parse B, tr_serialize = (\<lambda>v. Inr (bj_serialize B v))\<rparr>"

section \<open>danielaparker-jsoncons\<close>

datatype jsoncons_type =
    Null_value | Bool_value | Int64_value | Uint64_value | Half_value | Double_value | String_value
  | Byte_string_value | Array_value | Object_value

record 'v jsoncons =
  jc_type :: "'v \<Rightarrow> jsoncons_type"
  jc_object_value :: "'v \<Rightarrow> (string, 'v) std_map"
  jc_array_value :: "'v \<Rightarrow> 'v list"
  jc_as_string :: "'v \<Rightarrow> string"
  jc_as_double :: "'v \<Rightarrow> double"
  jc_as_int64 :: "'v \<Rightarrow> int"
  jc_as_bool :: "'v \<Rightarrow> bool"
  jc_parse :: "string \<Rightarrow> 'v res"
  jc_print :: "'v \<Rightarrow> string res"

definition jsoncons_get_type :: "'v jsoncons \<Rightarrow> 'v \<Rightarrow> json_type res" where
  "jsoncons_get_type K val =
     (if jc_type K val = Bool_value then Inr Type_boolean
      else if jc_type K val = Int64_value then Inr Type_integer
      else if jc_type K val = Uint64_value then Inr Type_integer
      else if jc_type K val = Half_value then Inr Type_number
      else if jc_type K val = Double_value then Inr Type_number
      else if jc_type K val = String_value then Inr Type_string
      else if jc_type K val = Array_value then Inr Type_array
      else if jc_type K val = Object_value then Inr Type_object
      else Inl (Exn Logic_error))"

definition jsoncons_as_object :: "'v jsoncons \<Rightarrow> 'v \<Rightarrow> (string, 'v) std_map res" where
  "jsoncons_as_object K val =
     (if jc_type K val \<noteq> Object_value then Inl (Exn Bad_cast) else Inr (jc_object_value K val))"

definition jsoncons_as_array :: "'v jsoncons \<Rightarrow> 'v \<Rightarrow> 'v list res" where
  "jsoncons_as_array K val =
     (if jc_type K val \<noteq> Array_value then Inl (Exn Bad_cast) else Inr (jc_array_value K val))"

definition jsoncons_as_string :: "'v jsoncons \<Rightarrow> 'v \<Rightarrow> string res" where
  "jsoncons_as_string K val =
     (if jc_type K val \<noteq> String_value then Inl (Exn Bad_cast) else Inr (jc_as_string K val))"

text \<open>These two ask \<^verbatim>\<open>get_type\<close>, which itself throws for a null value.\<close>

definition jsoncons_as_number :: "'v jsoncons \<Rightarrow> 'v \<Rightarrow> double res" where
  "jsoncons_as_number K val =
     bind_res (jsoncons_get_type K val) (\<lambda>t.
       if t \<noteq> Type_number then Inl (Exn Bad_cast) else Inr (jc_as_double K val))"

definition jsoncons_as_int :: "'v jsoncons \<Rightarrow> 'v \<Rightarrow> int res" where
  "jsoncons_as_int K val =
     bind_res (jsoncons_get_type K val) (\<lambda>t.
       if t \<noteq> Type_integer then Inl (Exn Bad_cast) else Inr (jc_as_int64 K val))"

definition jsoncons_as_bool :: "'v jsoncons \<Rightarrow> 'v \<Rightarrow> bool res" where
  "jsoncons_as_bool K val =
     (if jc_type K val \<noteq> Bool_value then Inl (Exn Bad_cast) else Inr (jc_as_bool K val))"

definition jsoncons_parse :: "'v jsoncons \<Rightarrow> string \<Rightarrow> 'v option res" where
  "jsoncons_parse K str = bind_res (jc_parse K str) (\<lambda>val. Inr (Some val))"

definition jsoncons_traits :: "'v jsoncons \<Rightarrow> ('v, (string, 'v) std_map, 'v list) json_traits" where
  "jsoncons_traits K =
     \<lparr>tr_get_type = jsoncons_get_type K, tr_as_object = jsoncons_as_object K, tr_as_array = jsoncons_as_array K,
      tr_as_string = jsoncons_as_string K, tr_as_int = jsoncons_as_int K, tr_as_bool = jsoncons_as_bool K,
      tr_as_number = jsoncons_as_number K, tr_parse = jsoncons_parse K, tr_serialize = jc_print K\<rparr>"

text \<open>The class \<^verbatim>\<open>object_type\<close>: the members in the order of their keys, as \<^verbatim>\<open>jsoncons::json\<close> keeps them.
  \<open>lower_bound\<close> is the search of the standard library, from \<open>first\<close> over \<open>len\<close> elements.\<close>

function lower_bound :: "(string, 'v) std_map \<Rightarrow> string \<Rightarrow> nat \<Rightarrow> nat \<Rightarrow> nat" where
  "lower_bound m key first len =
     (if len = 0 then first
      else
        let half = len div 2; middle = first + half
        in if fst (m ! middle) < key then lower_bound m key (middle + 1) (len - half - 1)
           else lower_bound m key first half)"
  by auto

termination
  by (relation "measure (\<lambda>(m, key, first, len). len)") auto

declare lower_bound.simps [simp del]

definition binary_search :: "(string, 'v) std_map \<Rightarrow> string \<Rightarrow> bool" where
  "binary_search m key =
     (let first = lower_bound m key 0 (length m)
      in first \<noteq> length m \<and> \<not> key < fst (m ! first))"

definition jsoncons_count :: "(string, 'v) std_map \<Rightarrow> string \<Rightarrow> nat" where
  "jsoncons_count m key = (if binary_search m key then 1 else 0)"

definition jsoncons_at :: "(string, 'v) std_map \<Rightarrow> string \<Rightarrow> 'v res" where
  "jsoncons_at m key = (case map_find m key of Some v \<Rightarrow> Inr v | None \<Rightarrow> Inl (Exn Out_of_range))"

text \<open>\<^verbatim>\<open>operator[]\<close> returns a reference to the member, which is a default value \<open>dflt\<close> when it is new: the value there,
  and the members.\<close>

definition jsoncons_subscript :: "'v \<Rightarrow> (string, 'v) std_map \<Rightarrow> string \<Rightarrow> 'v option \<times> (string, 'v) std_map" where
  "jsoncons_subscript dflt m key = (let m' = map_insert key dflt m in (map_find m' key, m'))"

text \<open>\<^verbatim>\<open>map_of_claims::get_claim\<close> over this class; \<^verbatim>\<open>claim_not_present_exception\<close> is a \<^verbatim>\<open>std::out_of_range\<close>, and so is what \<^verbatim>\<open>at\<close>
  throws.\<close>

definition jsoncons_get_claim :: "(string, 'v) std_map \<Rightarrow> string \<Rightarrow> 'v res" where
  "jsoncons_get_claim m name =
     (if jsoncons_count m name = 0 then Inl (Exn Out_of_range) else jsoncons_at m name)"

section \<open>nlohmann-json\<close>

text \<open>\<^verbatim>\<open>basic_json\<close> with its \<^verbatim>\<open>value_t\<close>.\<close>

datatype nl_json =
    NNull
  | NObject "(string \<times> nl_json) list"
  | NArray "nl_json list"
  | NString string
  | NBoolean bool
  | NInteger int
  | NUnsigned "64 word"
  | NFloat double
  | NBinary string
  | NDiscarded

datatype value_t =
    V_null | V_object | V_array | V_string | V_boolean | V_number_integer | V_number_unsigned | V_number_float
  | V_binary | V_discarded

fun nl_type :: "nl_json \<Rightarrow> value_t" where
  "nl_type NNull = V_null"
| "nl_type (NObject _) = V_object"
| "nl_type (NArray _) = V_array"
| "nl_type (NString _) = V_string"
| "nl_type (NBoolean _) = V_boolean"
| "nl_type (NInteger _) = V_number_integer"
| "nl_type (NUnsigned _) = V_number_unsigned"
| "nl_type (NFloat _) = V_number_float"
| "nl_type (NBinary _) = V_binary"
| "nl_type NDiscarded = V_discarded"

text \<open>The conversions between arithmetic types that belong to the C++ implementation, the parser and the printer.\<close>

record nl_lib =
  nl_double_of_uint64 :: "64 word \<Rightarrow> double"
  nl_double_of_int64 :: "int \<Rightarrow> double"
  nl_int64_of_double :: "double \<Rightarrow> int res"
  nl_parse :: "string \<Rightarrow> nl_json res"
  nl_dump :: "nl_json \<Rightarrow> string res"

text \<open>\<^verbatim>\<open>get<T>()\<close> calls \<^verbatim>\<open>from_json\<close>; \<^const>\<open>Other_exception\<close> is the \<^verbatim>\<open>type_error\<close> 302.\<close>

fun nl_get_int64 :: "nl_lib \<Rightarrow> nl_json \<Rightarrow> int res" where
  "nl_get_int64 N (NUnsigned u) = Inr (sint u)"
| "nl_get_int64 N (NInteger i) = Inr i"
| "nl_get_int64 N (NFloat d) = nl_int64_of_double N d"
| "nl_get_int64 N _ = Inl (Exn Other_exception)"

fun nl_get_double :: "nl_lib \<Rightarrow> nl_json \<Rightarrow> double res" where
  "nl_get_double N (NUnsigned u) = Inr (nl_double_of_uint64 N u)"
| "nl_get_double N (NInteger i) = Inr (nl_double_of_int64 N i)"
| "nl_get_double N (NFloat d) = Inr d"
| "nl_get_double N _ = Inl (Exn Other_exception)"

fun nl_get_bool :: "nl_json \<Rightarrow> bool res" where
  "nl_get_bool (NBoolean b) = Inr b"
| "nl_get_bool _ = Inl (Exn Other_exception)"

fun nl_get_string :: "nl_json \<Rightarrow> string res" where
  "nl_get_string (NString s) = Inr s"
| "nl_get_string _ = Inl (Exn Other_exception)"

fun nl_get_array :: "nl_json \<Rightarrow> nl_json list res" where
  "nl_get_array (NArray vs) = Inr vs"
| "nl_get_array _ = Inl (Exn Other_exception)"

text \<open>The members are copied one by one into a new map.\<close>

fun nl_get_object :: "nl_json \<Rightarrow> (string, nl_json) std_map res" where
  "nl_get_object (NObject kvs) = Inr (fold (\<lambda>(k, v) m. map_insert k v m) kvs [])"
| "nl_get_object _ = Inl (Exn Other_exception)"

definition nlohmann_get_type :: "nl_json \<Rightarrow> json_type res" where
  "nlohmann_get_type val =
     (if nl_type val = V_boolean then Inr Type_boolean
      else if nl_type val = V_number_integer then Inr Type_integer
      else if nl_type val = V_number_unsigned then Inr Type_integer
      else if nl_type val = V_number_float then Inr Type_number
      else if nl_type val = V_string then Inr Type_string
      else if nl_type val = V_array then Inr Type_array
      else if nl_type val = V_object then Inr Type_object
      else Inl (Exn Logic_error))"

definition nlohmann_as_object :: "nl_json \<Rightarrow> (string, nl_json) std_map res" where
  "nlohmann_as_object val = (if nl_type val \<noteq> V_object then Inl (Exn Bad_cast) else nl_get_object val)"

definition nlohmann_as_string :: "nl_json \<Rightarrow> string res" where
  "nlohmann_as_string val = (if nl_type val \<noteq> V_string then Inl (Exn Bad_cast) else nl_get_string val)"

definition nlohmann_as_array :: "nl_json \<Rightarrow> nl_json list res" where
  "nlohmann_as_array val = (if nl_type val \<noteq> V_array then Inl (Exn Bad_cast) else nl_get_array val)"

definition nlohmann_as_int :: "nl_lib \<Rightarrow> nl_json \<Rightarrow> int res" where
  "nlohmann_as_int N val =
     (case nl_type val of
        V_number_integer \<Rightarrow> nl_get_int64 N val
      | V_number_unsigned \<Rightarrow> nl_get_int64 N val
      | _ \<Rightarrow> Inl (Exn Bad_cast))"

definition nlohmann_as_bool :: "nl_json \<Rightarrow> bool res" where
  "nlohmann_as_bool val = (if nl_type val \<noteq> V_boolean then Inl (Exn Bad_cast) else nl_get_bool val)"

definition nlohmann_as_number :: "nl_lib \<Rightarrow> nl_json \<Rightarrow> double res" where
  "nlohmann_as_number N val = (if nl_type val \<noteq> V_number_float then Inl (Exn Bad_cast) else nl_get_double N val)"

definition nlohmann_parse :: "nl_lib \<Rightarrow> string \<Rightarrow> nl_json option res" where
  "nlohmann_parse N str = bind_res (nl_parse N str) (\<lambda>val. Inr (Some val))"

definition nlohmann_traits :: "nl_lib \<Rightarrow> (nl_json, (string, nl_json) std_map, nl_json list) json_traits" where
  "nlohmann_traits N =
     \<lparr>tr_get_type = nlohmann_get_type, tr_as_object = nlohmann_as_object, tr_as_array = nlohmann_as_array,
      tr_as_string = nlohmann_as_string, tr_as_int = nlohmann_as_int N, tr_as_bool = nlohmann_as_bool,
      tr_as_number = nlohmann_as_number N, tr_parse = nlohmann_parse N, tr_serialize = nl_dump N\<rparr>"

section \<open>What jwt.h relies on\<close>

locale json_traits_laws =
  fixes T :: "('v, 'o, 'a) json_traits"
  assumes get_type_fault: "tr_get_type T v = Inl e \<Longrightarrow> e = Exn Logic_error"
    and object_iff: "(\<exists>x. tr_as_object T v = Inr x) \<longleftrightarrow> tr_get_type T v = Inr Type_object"
    and array_iff: "(\<exists>x. tr_as_array T v = Inr x) \<longleftrightarrow> tr_get_type T v = Inr Type_array"
    and string_iff: "(\<exists>x. tr_as_string T v = Inr x) \<longleftrightarrow> tr_get_type T v = Inr Type_string"
    and int_iff: "(\<exists>x. tr_as_int T v = Inr x) \<longleftrightarrow> tr_get_type T v = Inr Type_integer"
    and bool_iff: "(\<exists>x. tr_as_bool T v = Inr x) \<longleftrightarrow> tr_get_type T v = Inr Type_boolean"
    and number_if: "tr_get_type T v = Inr Type_number \<Longrightarrow> \<exists>x. tr_as_number T v = Inr x"
begin

text \<open>The comparison of two claims of one type can only fail in the printer.\<close>

lemma claims_match_fault:
  assumes a: "tr_get_type T a = Inr t" and b: "tr_get_type T b = Inr t" and fault: "claims_match_with T L a b = Inl e"
  shows "t \<in> {Type_array, Type_object} \<and> (tr_serialize T a = Inl e \<or> tr_serialize T b = Inl e)"
proof (cases t)
  case Type_boolean
  then obtain x y where "tr_as_bool T a = Inr x" "tr_as_bool T b = Inr y"
    using a b bool_iff by blast
  then show ?thesis using a fault Type_boolean by (simp add: claims_match_with_def bind_res_def)
next
  case Type_integer
  then obtain x y where "tr_as_int T a = Inr x" "tr_as_int T b = Inr y"
    using a b int_iff by blast
  then show ?thesis using a fault Type_integer by (simp add: claims_match_with_def bind_res_def)
next
  case Type_number
  then obtain x y where "tr_as_number T a = Inr x" "tr_as_number T b = Inr y"
    using a b number_if by blast
  then show ?thesis using a fault Type_number by (simp add: claims_match_with_def bind_res_def)
next
  case Type_string
  then obtain x y where "tr_as_string T a = Inr x" "tr_as_string T b = Inr y"
    using a b string_iff by blast
  then show ?thesis using a fault Type_string by (simp add: claims_match_with_def bind_res_def)
qed (use a fault in \<open>auto simp: claims_match_with_def bind_res_def split: sum.splits\<close>)

end

interpretation picojson_tr: json_traits_laws "picojson_traits L" for L
proof unfold_locales
  fix v e
  show "tr_get_type (picojson_traits L) v = Inl e \<Longrightarrow> e = Exn Logic_error"
    by (cases v) (auto simp: picojson_traits_def)
qed (auto simp: picojson_traits_def elim: as_object.elims as_array.elims as_string.elims as_int.elims as_bool.elims get_type.elims)

lemmas boost_defs = boost_traits_def boost_get_type_def boost_as_object_def boost_as_array_def boost_as_string_def
  boost_as_int_def boost_as_bool_def boost_as_number_def

interpretation boost_tr: json_traits_laws "boost_traits B" for B
proof unfold_locales
  fix v
  show "(\<exists>x. tr_as_int (boost_traits B) v = Inr x) = (tr_get_type (boost_traits B) v = Inr Type_integer)"
    by (simp add: boost_defs split: boost_kind.splits)
qed (auto simp: boost_defs split: if_splits)

lemmas jsoncons_defs = jsoncons_traits_def jsoncons_get_type_def jsoncons_as_object_def jsoncons_as_array_def
  jsoncons_as_string_def jsoncons_as_int_def jsoncons_as_bool_def jsoncons_as_number_def bind_res_def

interpretation jsoncons_tr: json_traits_laws "jsoncons_traits K" for K
  by unfold_locales (auto simp: jsoncons_defs split: if_splits)

lemmas nlohmann_defs = nlohmann_traits_def nlohmann_get_type_def nlohmann_as_object_def nlohmann_as_array_def
  nlohmann_as_string_def nlohmann_as_int_def nlohmann_as_bool_def nlohmann_as_number_def

interpretation nlohmann_tr: json_traits_laws "nlohmann_traits N" for N
proof unfold_locales
  fix v e
  show "tr_get_type (nlohmann_traits N) v = Inl e \<Longrightarrow> e = Exn Logic_error"
    by (auto simp: nlohmann_defs split: if_splits)
  show "(\<exists>x. tr_as_object (nlohmann_traits N) v = Inr x) = (tr_get_type (nlohmann_traits N) v = Inr Type_object)"
    "(\<exists>x. tr_as_array (nlohmann_traits N) v = Inr x) = (tr_get_type (nlohmann_traits N) v = Inr Type_array)"
    "(\<exists>x. tr_as_string (nlohmann_traits N) v = Inr x) = (tr_get_type (nlohmann_traits N) v = Inr Type_string)"
    "(\<exists>x. tr_as_int (nlohmann_traits N) v = Inr x) = (tr_get_type (nlohmann_traits N) v = Inr Type_integer)"
    "(\<exists>x. tr_as_bool (nlohmann_traits N) v = Inr x) = (tr_get_type (nlohmann_traits N) v = Inr Type_boolean)"
    by (cases v; simp add: nlohmann_defs)+
  show "tr_get_type (nlohmann_traits N) v = Inr Type_number \<Longrightarrow> \<exists>x. tr_as_number (nlohmann_traits N) v = Inr x"
    by (cases v) (simp_all add: nlohmann_defs)
qed

text \<open>With picojson the comparison is the one that the verifier of the server uses.\<close>

lemma claims_match_picojson: "claims_match_with (picojson_traits L) L a b = claims_match L a b"
  by (simp add: claims_match_with_def claims_match_def picojson_traits_def bind_res_def
      split: sum.splits json_type.splits)

section \<open>Looking up a claim by binary search\<close>

text \<open>\<open>splits_at m key i\<close>: the keys before position \<open>i\<close> are smaller, those from \<open>i\<close> on are not.\<close>

definition splits_at :: "(string, 'v) std_map \<Rightarrow> string \<Rightarrow> nat \<Rightarrow> bool" where
  "splits_at m key i \<longleftrightarrow>
     i \<le> length m \<and> (\<forall>j<i. fst (m ! j) < key) \<and> (\<forall>j. i \<le> j \<and> j < length m \<longrightarrow> key \<le> fst (m ! j))"

lemma map_sorted_nth: "map_sorted m \<Longrightarrow> i \<le> j \<Longrightarrow> j < length m \<Longrightarrow> fst (m ! i) \<le> fst (m ! j)"
  unfolding map_sorted_def sorted_wrt_iff_nth_less
  by (cases "i = j") (auto intro!: less_imp_le)

lemma lower_bound_splits:
  "map_sorted m \<Longrightarrow> first + len \<le> length m \<Longrightarrow> \<forall>j<first. fst (m ! j) < key \<Longrightarrow>
   \<forall>j. first + len \<le> j \<and> j < length m \<longrightarrow> key \<le> fst (m ! j) \<Longrightarrow> splits_at m key (lower_bound m key first len)"
proof (induction m key first len rule: lower_bound.induct)
  case (1 m key first len)
  show ?case
  proof (cases "len = 0")
    case True
    then show ?thesis
      using "1.prems" by (simp add: lower_bound.simps [of m key first 0] splits_at_def)
  next
    case False
    let ?middle = "first + len div 2"
    have middle: "?middle < length m" "?middle + 1 + (len - len div 2 - 1) = first + len"
      using False "1.prems"(2) by auto
    show ?thesis
    proof (cases "fst (m ! ?middle) < key")
      case True
      have "fst (m ! j) < key" if "j < ?middle + 1" for j
        using map_sorted_nth [OF "1.prems"(1), of j ?middle] True middle(1) that by simp
      then show ?thesis
        using "1.IH"(1) [OF False refl refl True "1.prems"(1)] "1.prems" False True middle
        by (simp add: lower_bound.simps [of m key first len] Let_def)
    next
      case less: False
      have "key \<le> fst (m ! j)" if "?middle \<le> j" "j < length m" for j
        using map_sorted_nth [OF "1.prems"(1) that] less by simp
      then show ?thesis
        using "1.IH"(2) [OF False refl refl less "1.prems"(1)] "1.prems" False less
        by (simp add: lower_bound.simps [of m key first len] Let_def)
    qed
  qed
qed

lemma binary_search_iff:
  assumes "map_sorted m"
  shows "binary_search m key \<longleftrightarrow> map_find m key \<noteq> None"
proof -
  define i where "i = lower_bound m key 0 (length m)"
  have i: "splits_at m key i"
    unfolding i_def by (rule lower_bound_splits [OF assms]) auto
  have "binary_search m key \<longleftrightarrow> i < length m \<and> fst (m ! i) = key"
    using i by (auto simp: binary_search_def i_def [symmetric] splits_at_def Let_def not_less intro: antisym)
  also have "\<dots> \<longleftrightarrow> key \<in> fst ` set m"
  proof
    assume "i < length m \<and> fst (m ! i) = key"
    then show "key \<in> fst ` set m" by (metis image_eqI nth_mem)
  next
    assume "key \<in> fst ` set m"
    then obtain j where j: "j < length m" "fst (m ! j) = key"
      by (auto simp: in_set_conv_nth)
    then have "i \<le> j"
      using i by (auto simp: splits_at_def not_less [symmetric])
    then have "fst (m ! i) \<le> key"
      using map_sorted_nth [OF assms, of i j] j by simp
    then show "i < length m \<and> fst (m ! i) = key"
      using i j \<open>i \<le> j\<close> by (auto simp: splits_at_def intro: antisym)
  qed
  also have "\<dots> \<longleftrightarrow> map_find m key \<noteq> None"
    by (simp add: map_find_def map_of_eq_None_iff)
  finally show ?thesis .
qed

lemma jsoncons_subscript_claim:
  assumes "map_sorted m" and "jsoncons_subscript dflt m key = (v, m')"
  shows "map_sorted m' \<and> v = Some (case map_find m key of Some w \<Rightarrow> w | None \<Rightarrow> dflt)"
  using assms map_sorted_insert [OF assms(1)]
  by (auto simp: jsoncons_subscript_def Let_def map_find_insert split: option.splits)

text \<open>C39: With the members in the order of their keys, the look-up of a claim over the \<^verbatim>\<open>object_type\<close> of the jsoncons traits, which
  tests for the claim by a binary search and then fetches it, returns the claim, or throws \<^verbatim>\<open>std::out_of_range\<close> when there is
  none, as over a \<^verbatim>\<open>std::map\<close>; and \<^verbatim>\<open>count\<close> counts one exactly for the claims that are there.\<close>

theorem jsoncons_claim_lookup:
  assumes "map_sorted m"
  shows "jsoncons_get_claim m name = (case map_find m name of Some v \<Rightarrow> Inr v | None \<Rightarrow> Inl (Exn Out_of_range)) \<and>
    jsoncons_count m name = (if name \<in> fst ` set m then 1 else 0)"
proof -
  have "name \<in> fst ` set m \<longleftrightarrow> map_find m name \<noteq> None"
    by (simp add: map_find_def map_of_eq_None_iff)
  then show ?thesis
    using binary_search_iff [OF assms, of name]
    by (cases "map_find m name") (simp_all add: jsoncons_get_claim_def jsoncons_count_def jsoncons_at_def)
qed

theorem jsoncons_claim_lookup_witness:
  "jsoncons_get_claim [(''exp'', 1 :: nat), (''iss'', 2), (''sub'', 3)] ''iss'' = Inr 2 \<and>
   jsoncons_count [(''exp'', 1 :: nat), (''iss'', 2), (''sub'', 3)] ''nbf'' = 0"
  using jsoncons_claim_lookup [of "[(''exp'', 1 :: nat), (''iss'', 2), (''sub'', 3)]" "''iss''"]
    jsoncons_claim_lookup [of "[(''exp'', 1 :: nat), (''iss'', 2), (''sub'', 3)]" "''nbf''"]
  by (simp add: map_sorted_def map_find_def)

text \<open>For all four JSON libraries, the comparison of a claim with the expected value of the same type, with which the
  verifier checks claims, leaves by no exception of its own: a fault can only come from printing an array or an object.\<close>

lemma claim_comparison_faults:
  "(\<forall>a b t e. get_type a = Inr t \<and> get_type b = Inr t \<longrightarrow> claims_match_with (picojson_traits L) L a b \<noteq> Inl e) \<and>
   (\<forall>a b t e. boost_get_type B a = Inr t \<and> boost_get_type B b = Inr t \<longrightarrow>
      claims_match_with (boost_traits B) L a b \<noteq> Inl e) \<and>
   (\<forall>a b t e. jsoncons_get_type K a = Inr t \<and> jsoncons_get_type K b = Inr t \<and>
      claims_match_with (jsoncons_traits K) L a b = Inl e \<longrightarrow>
      t \<in> {Type_array, Type_object} \<and> (jc_print K a = Inl e \<or> jc_print K b = Inl e)) \<and>
   (\<forall>a b t e. nlohmann_get_type a = Inr t \<and> nlohmann_get_type b = Inr t \<and>
      claims_match_with (nlohmann_traits N) L a b = Inl e \<longrightarrow>
      t \<in> {Type_array, Type_object} \<and> (nl_dump N a = Inl e \<or> nl_dump N b = Inl e))"
  using picojson_tr.claims_match_fault [of L] boost_tr.claims_match_fault [of B] jsoncons_tr.claims_match_fault [of K]
    nlohmann_tr.claims_match_fault [of N]
  by (simp add: picojson_traits_def boost_traits_def jsoncons_traits_def nlohmann_traits_def) blast

text \<open>What the libraries make of the same input differs: an unsigned integer that does not fit is read as a negative one, a null
  claim makes the jsoncons traits throw another exception, and a text that is no JSON is reported by an exception of the library
  instead of the value that stands for \<^verbatim>\<open>invalid_json_exception\<close>.\<close>

lemma unsigned_claim_wraps:
  assumes "2 ^ 63 \<le> uint u"
  shows "nlohmann_as_int N (NUnsigned u) = Inr (uint u - 2 ^ 64)"
proof -
  have "(uint u + 2 ^ 63) mod 2 ^ 64 = uint u + 2 ^ 63 - 2 ^ 64"
    using assms uint_lt2p [of u] by (simp add: mod_pos_geq)
  then have "sint u = uint u - 2 ^ 64"
    by (simp add: sint_uint signed_take_bit_eq_take_bit_shift take_bit_eq_mod)
  then show ?thesis by (simp add: nlohmann_as_int_def)
qed

lemma jsoncons_null_claim: "jc_type K v = Null_value \<Longrightarrow> jsoncons_as_int K v = Inl (Exn Logic_error)"
  by (simp add: jsoncons_defs)

lemma parse_reports_by_exception:
  "boost_parse B s \<noteq> Inr None" "jsoncons_parse K s \<noteq> Inr None" "nlohmann_parse N s \<noteq> Inr None"
  by (auto simp: boost_parse_def jsoncons_parse_def nlohmann_parse_def bind_res_def split: sum.splits)

end
