(* ===== verification/JwtExamples.thy ===== *)
theory JwtExamples
  imports TokenProperties Jwk JsonStreams JsonValues JsonTraits
begin

text \<open>
  The example programs of \<^verbatim>\<open>jwt-cpp/example\<close>, clients of the whole library: they build, sign, print, decode and verify
  tokens. A program that prints at its end only is its output, or the exception that leaves \<^verbatim>\<open>main\<close>; one that prints
  earlier is the pair of its output and of how it ends. The keys, the tokens and the key set that the sources
  have as literals are arguments, and so are the times at which the clock is read. Of the example
  with nlohmann JSON only its own check of a claim is modelled.
\<close>

section \<open>Programs\<close>

definition newline :: string where "newline = [CHR 0x0A]"

text \<open>A program that may throw before it prints, and one that prints and goes on.\<close>

definition and_then :: "'a res \<Rightarrow> ('a \<Rightarrow> string \<times> unit res) \<Rightarrow> string \<times> unit res" where
  "and_then m f = (case m of Inl e \<Rightarrow> ([], Inl e) | Inr x \<Rightarrow> f x)"

definition printing :: "string \<Rightarrow> string \<times> unit res \<Rightarrow> string \<times> unit res" where
  "printing out p = (out @ fst p, snd p)"

lemma and_then_simps [simp]: "and_then (Inl e) f = ([], Inl e)" "and_then (Inr x) f = f x"
  by (simp_all add: and_then_def)

text \<open>The loop that prints claims, in the order of the \<^verbatim>\<open>std::unordered_map\<close>.\<close>

definition print_claims :: "jwt_lib \<Rightarrow> claims \<Rightarrow> string" where
  "print_claims M cs =
     concat (List.map_filter
       (\<lambda>k. map_option (\<lambda>v. write_value (num M) (k @ '' = '') v @ newline) (get_claims cs k))
       (iteration M (map fst cs)))"

text \<open>print-claims.cpp\<close>

definition print_claims_main :: "jwt_lib \<Rightarrow> string \<Rightarrow> string res" where
  "print_claims_main M token =
     bind_res (decode_token (num M) token) (\<lambda>decoded. Inr (print_claims M (payload_claims decoded)))"

text \<open>The token that es256k.cpp and rsa-create.cpp build.\<close>

definition example_token :: "int \<Rightarrow> string \<Rightarrow> int \<Rightarrow> int \<Rightarrow> builder" where
  "example_token rate name iat expiry =
     set_payload_claim ''sample'' (JString ''test'')
      (set_expires_at rate expiry
       (set_issued_at rate iat
        (set_id name
         (set_type ''JWT''
          (set_issuer ''auth0'' new_builder)))))"

text \<open>rsa-create.cpp, with the times that the clock gives for the two dates; and rsa-verify.cpp.\<close>

definition rsa_create_main :: "jwt_lib \<Rightarrow> int \<Rightarrow> int \<Rightarrow> string \<Rightarrow> string res" where
  "rsa_create_main M t1 t2 rsa_priv_key =
     bind_res (plus_seconds (tick_rate M) t2 36000) (\<lambda>expiry.
     bind_res (rs256 (ssl M) [] rsa_priv_key [] []) (\<lambda>alg.
     bind_res (sign M alg (example_token (tick_rate M) ''rsa-create-example'' t1 expiry)) (\<lambda>token.
       Inr (''token:'' @ newline @ token @ newline))))"

definition rsa_verify_main :: "jwt_lib \<Rightarrow> int \<Rightarrow> string \<Rightarrow> string \<Rightarrow> string res" where
  "rsa_verify_main M now rsa_pub_key token =
     bind_res (rs256 (ssl M) rsa_pub_key [] [] []) (\<lambda>alg.
     let v = with_issuer (num M) ''auth0'' (allow_algorithm alg (new_verifier (tick_rate M)))
     in bind_res (decode_token (num M) token) (\<lambda>decoded.
        bind_res (verify M now v decoded) (\<lambda>_.
          Inr (print_claims M (header_claims decoded) @ print_claims M (payload_claims decoded)))))"

text \<open>es256k.cpp; the third time is that of the verification.\<close>

definition es256k_main :: "jwt_lib \<Rightarrow> int \<Rightarrow> int \<Rightarrow> int \<Rightarrow> string \<Rightarrow> string \<Rightarrow> string \<times> unit res" where
  "es256k_main M t1 t2 now pub_key priv_key =
     and_then (plus_seconds (tick_rate M) t2 36000) (\<lambda>expiry.
     and_then (es256k (ssl M) pub_key priv_key [] []) (\<lambda>alg.
     and_then (sign M alg (example_token (tick_rate M) ''es256k-create-example'' t1 expiry)) (\<lambda>token.
     printing (''token:'' @ newline @ token @ newline)
    (and_then (es256k (ssl M) pub_key priv_key [] []) (\<lambda>alg'.
     let v = with_issuer (num M) ''auth0'' (allow_algorithm alg' (new_verifier (tick_rate M)))
     in and_then (decode_token (num M) token) (\<lambda>decoded.
        and_then (verify M now v decoded) (\<lambda>_.
          (print_claims M (header_claims decoded) @ print_claims M (payload_claims decoded), Inr ()))))))))"

text \<open>jwks-verify.cpp: it prints nothing.\<close>

definition jwks_verify_main :: "jwt_lib \<Rightarrow> int \<Rightarrow> string \<Rightarrow> string \<Rightarrow> unit res" where
  "jwks_verify_main M now raw_jwks token =
     bind_res (decode_token (num M) token) (\<lambda>decoded.
     bind_res (parse_jwks (num M) raw_jwks) (\<lambda>jwks.
     bind_res (get_key_id decoded) (\<lambda>kid.
     bind_res (get_jwk jwks kid) (\<lambda>jwk.
     bind_res (get_issuer decoded) (\<lambda>issuer.
     bind_res (jwk_get_x5c_key_value jwk) (\<lambda>x5c.
       if x5c \<noteq> [] \<and> issuer \<noteq> [] then
         bind_res (convert_base64_der_to_pem (ssl M) x5c) (\<lambda>pem.
         bind_res (rs256 (ssl M) pem [] [] []) (\<lambda>alg.
           verify M now (with_leeway 60 (with_issuer (num M) issuer (allow_algorithm alg (new_verifier (tick_rate M)))))
             decoded))
       else Inr ()))))))"

section \<open>private-claims.cpp\<close>

definition quote :: string where "quote = [CHR 0x22]"

definition raw_json :: string where
  "raw_json = ''{'' @ quote @ ''api'' @ quote @ '':{'' @ quote @ ''array'' @ quote @ '':[1,2,3],'' @
     quote @ ''null'' @ quote @ '':null}}''"

text \<open>The double \<open>12.345\<close>.\<close>

definition precision :: double where "precision = 0x4028B0A3D70A3D71"

definition private_token :: "int \<Rightarrow> int \<Rightarrow> int \<Rightarrow> int \<Rightarrow> json \<Rightarrow> builder" where
  "private_token rate time not_before expiry from_raw_json =
     set_payload_claim ''object'' from_raw_json
      (set_payload_claim ''array'' (JArray (map JInt [727663072, 770979831, 427239169, 525936436]))
       (set_payload_claim ''strings'' (claim_of_set [''once'', ''twice''])
        (set_payload_claim ''precision'' (JNumber precision)
         (set_payload_claim ''integer'' (JInt 12345)
          (set_payload_claim ''boolean'' (JBool True)
           (set_expires_at rate expiry
            (set_not_before rate not_before
             (set_issued_at rate time
              (set_audience ''mydomain.io''
               (set_issuer ''auth.mydomain.io''
                (set_type ''JWT'' new_builder)))))))))))"

text \<open>\<^verbatim>\<open>claims["object"]\<close> of the copied \<^verbatim>\<open>std::unordered_map\<close> is a null claim when there is none.\<close>

definition claim_at :: "claims \<Rightarrow> string \<Rightarrow> json" where
  "claim_at cs name = (case get_claims cs name of Some v \<Rightarrow> v | None \<Rightarrow> JNull)"

definition private_verifier :: "jwt_lib \<Rightarrow> json \<Rightarrow> verifier" where
  "private_verifier M from_raw_json =
     with_claim (num M) ''object'' from_raw_json
      (with_audience ''mydomain.io''
       (with_issuer (num M) ''auth.mydomain.io''
        (allow_algorithm Alg_none (new_verifier (tick_rate M)))))"

definition private_claims_main :: "jwt_lib \<Rightarrow> int \<Rightarrow> int \<Rightarrow> string \<times> unit res" where
  "private_claims_main M time now =
     and_then (read_value (num M) \<lparr>is_text = raw_json, is_failed = False\<rparr> []) (\<lambda>(r, _, _).
     let from_raw_json = (case r of Some v \<Rightarrow> v | None \<Rightarrow> JNull)
     in and_then (plus_seconds (tick_rate M) time 15) (\<lambda>not_before.
        and_then (plus_seconds (tick_rate M) time 15) (\<lambda>soon.
        and_then (plus_seconds (tick_rate M) soon 120) (\<lambda>expiry.
        and_then (sign M Alg_none (private_token (tick_rate M) time not_before expiry from_raw_json)) (\<lambda>token.
        and_then (decode_token (num M) token) (\<lambda>decoded.
        and_then (get_key (claim_at (payload_claims decoded) ''object'') ''api'') (\<lambda>api.
        and_then (get_key api ''array'') (\<lambda>api_array.
          (write_value (num M) ''api array = '' api_array @ newline,
           verify M now (private_verifier M from_raw_json) decoded)))))))))"

text \<open>traits/kazuho-picojson.cpp: the same program but for the dates.\<close>

definition kazuho_picojson_main :: "jwt_lib \<Rightarrow> int \<Rightarrow> int \<Rightarrow> string \<times> unit res" where
  "kazuho_picojson_main M time now =
     and_then (read_value (num M) \<lparr>is_text = raw_json, is_failed = False\<rparr> []) (\<lambda>(r, _, _).
     let from_raw_json = (case r of Some v \<Rightarrow> v | None \<Rightarrow> JNull)
     in and_then (plus_seconds (tick_rate M) time 120) (\<lambda>soon.
        and_then (plus_seconds (tick_rate M) soon 15) (\<lambda>expiry.
        and_then (sign M Alg_none (private_token (tick_rate M) time time expiry from_raw_json)) (\<lambda>token.
        and_then (decode_token (num M) token) (\<lambda>decoded.
        and_then (get_key (claim_at (payload_claims decoded) ''object'') ''api'') (\<lambda>api.
        and_then (get_key api ''array'') (\<lambda>api_array.
          (write_value (num M) ''api array = '' api_array @ newline,
           verify M now (private_verifier M from_raw_json) decoded))))))))"

section \<open>partial-claim-verifier.cpp\<close>

text \<open>\<^verbatim>\<open>operator[]\<close> of nlohmann JSON with a key: a null value becomes an object, a new member is null.\<close>

fun nl_subscript :: "nl_json \<Rightarrow> string \<Rightarrow> nl_json res" where
  "nl_subscript NNull key = Inr NNull"
| "nl_subscript (NObject kvs) key = Inr (case map_find kvs key of Some v \<Rightarrow> v | None \<Rightarrow> NNull)"
| "nl_subscript _ key = Inl (Exn Other_exception)"

text \<open>\<^verbatim>\<open>role_verifier\<close> after the claim was found.\<close>

definition role_verifier :: "nl_json \<Rightarrow> error_code \<Rightarrow> error_code res" where
  "role_verifier c ec =
     bind_res (nlohmann_get_type c) (\<lambda>t.
       if t = Type_object then
         (case bind_res (nl_subscript c ''my-service'') (\<lambda>s. bind_res (nl_subscript s ''roles'') nl_get_array) of
            Inr roles \<Rightarrow> Inr (if NString ''foo'' \<notin> set roles then Tok_code Tok_claim_value_missmatch else ec)
          | Inl (Exn _) \<Rightarrow> Inr (Tok_code Tok_claim_value_missmatch)
          | Inl u \<Rightarrow> Inl u)
       else Inr (Tok_code Tok_claim_type_missmatch))"

section \<open>Dates\<close>

lemma seconds64_small: "n < 2 ^ 63 \<Longrightarrow> seconds64 n = int n"
  by (simp add: seconds64_def signed_of_nat signed_take_bit_int_eq_self)

lemma truncated_bounds:
  assumes "0 < (rate :: int)"
  shows "d div rate * rate \<le> d" and "d - rate < d div rate * rate"
  using pos_mod_bound [OF assms, of d] pos_mod_sign [OF assms, of d] by (simp_all add: minus_mod_eq_div_mult [symmetric])

lemma claim_of_date_time:
  assumes "0 < rate" and "0 \<le> d" and "d \<le> int64_max"
  shows "as_date rate (claim_of_date rate d) = Inr (d div rate * rate)"
    and "int64_min \<le> to_time_t rate d" and "to_time_t rate d \<le> int64_max"
proof -
  have "0 \<le> d div rate * rate" "d div rate * rate \<le> d" "0 \<le> d div rate" "d div rate \<le> d"
    using assms truncated_bounds(1) [OF assms(1), of d] zdiv_mono2 [of d 1 rate] by (simp_all add: pos_imp_zdiv_nonneg_iff)
  moreover from this have "int64_min \<le> d div rate * rate" "int64_min \<le> d div rate"
    by (linarith | simp add: int64_min_def)+
  ultimately show "as_date rate (claim_of_date rate d) = Inr (d div rate * rate)"
    "int64_min \<le> to_time_t rate d" "to_time_t rate d \<le> int64_max"
    using assms by (simp_all add: as_date_def from_time_t_def claim_of_date_def to_time_t_def)
qed

lemma plus_seconds_small:
  assumes "0 < rate" and "0 \<le> d" and "d + int n * rate \<le> int64_max" and "n < 2 ^ 63"
  shows "plus_seconds rate d n = Inr (d + int n * rate)"
proof -
  have "0 \<le> int n * rate" using assms(1) by simp
  moreover have "int n * rate \<le> int64_max" using assms(2,3) by simp
  ultimately show ?thesis
    using assms(2-4) by (simp add: plus_seconds_def seconds64_small bind_res_eq_Inr_conv int64_min_def)
qed

section \<open>What was created is verified\<close>

text \<open>The clock counts from the epoch, does not run back, and the token is verified within its ten hours but one second.\<close>

definition example_times :: "int \<Rightarrow> int \<Rightarrow> int \<Rightarrow> int \<Rightarrow> bool" where
  "example_times rate t1 t2 now \<longleftrightarrow>
     0 < rate \<and> 0 \<le> t1 \<and> t1 \<le> now \<and> 0 \<le> t2 \<and> now \<le> t2 + 35999 * rate \<and> t2 + 36000 * rate \<le> int64_max"

lemma example_token_claims:
  "b_header (example_token rate name iat expiry) = [(''typ'', JString ''JWT'')]"
  "b_payload (example_token rate name iat expiry) =
     [(''exp'', claim_of_date rate expiry), (''iat'', claim_of_date rate iat), (''iss'', JString ''auth0''),
      (''jti'', JString name), (''sample'', JString ''test'')]"
  by (simp_all add: example_token_def set_payload_claim_def set_expires_at_def set_issued_at_def set_id_def set_type_def
      set_issuer_def set_header_claim_def new_builder_def)

lemma example_header:
  "signed_header a (example_token rate name iat expiry) = [(''alg'', JString (alg_name a)), (''typ'', JString ''JWT'')]"
  by (simp add: signed_header_def example_token_claims map_find_def)

lemma example_token_ready:
  fixes M :: jwt_lib and name :: string and t1 t2 now :: int
  assumes "example_times (tick_rate M) t1 t2 now"
  defines "b \<equiv> example_token (tick_rate M) name t1 (t2 + 36000 * tick_rate M)"
  shows "timely M now ''auth0'' b" and "storable_claims (num M) (signed_header a b)"
    and "storable_claims (num M) (b_payload b)" and "plus_seconds (tick_rate M) t2 36000 = Inr (t2 + 36000 * tick_rate M)"
proof -
  let ?r = "tick_rate M"
  have r: "0 < ?r" and t1: "0 \<le> t1" "t1 \<le> int64_max" and e: "0 \<le> t2 + 36000 * ?r" "t2 + 36000 * ?r \<le> int64_max"
    using assms(1) by (auto simp: example_times_def)
  note times = claim_of_date_time [OF r t1] claim_of_date_time [OF r e]
  show "timely M now ''auth0'' b"
    using times(1,4) truncated_bounds [OF r, of t1] truncated_bounds [OF r, of "t2 + 36000 * ?r"] assms(1)
    by (simp add: timely_def b_def example_token_claims map_find_def map_sorted_def date_claim_def example_times_def)
  show "storable_claims (num M) (signed_header a b)" "storable_claims (num M) (b_payload b)"
    using times by (simp_all add: storable_claims_def b_def example_header example_token_claims(2) map_sorted_def
        default_max_depths_def claim_of_date_def)
  show "plus_seconds ?r t2 36000 = Inr (t2 + 36000 * ?r)"
    using plus_seconds_small [OF r, of t2 36000] assms(1) by (simp add: example_times_def)
qed

lemma example_verified:
  assumes "iterates_all M" and "example_times (tick_rate M) t1 t2 now"
    and "sign M a (example_token (tick_rate M) name t1 (t2 + 36000 * tick_rate M)) = Inr token"
    and "matching (ssl M) a v" and "alg_name a = alg_name v"
  obtains j where "decode_token (num M) token = Inr j"
    and "header_claims j = [(''alg'', JString (alg_name a)), (''typ'', JString ''JWT'')]"
    and "payload_claims j = b_payload (example_token (tick_rate M) name t1 (t2 + 36000 * tick_rate M))"
    and "verify M now (with_issuer (num M) ''auth0'' (allow_algorithm v (new_verifier (tick_rate M)))) j = Inr ()"
proof -
  note ready = example_token_ready(1-3) [OF assms(2), where name = name]
  obtain j where "decode_token (num M) token = Inr j"
    "header_claims j = signed_header a (example_token (tick_rate M) name t1 (t2 + 36000 * tick_rate M))"
    "payload_claims j = b_payload (example_token (tick_rate M) name t1 (t2 + 36000 * tick_rate M))"
    "acceptable M now ''auth0'' v j"
    by (rule signed_acceptable [OF assms(3) ready(2,3) assms(4,5) ready(1)])
  then show ?thesis
    using that by (simp add: verify_server server_verify_iff [OF assms(1)] example_header)
qed

lemma rsa_examples:
  assumes "iterates_all M" and "example_times (tick_rate M) t1 t2 now"
    and "rs256 (ssl M) [] priv_key [] [] = Inr (rs256_with priv)" and "rs256 (ssl M) pub_key [] [] [] = Inr (rs256_with pub)"
    and "key_pair (ssl M) priv pub" and "rsa_create_main M t1 t2 priv_key = Inr (''token:'' @ newline @ token @ newline)"
  shows "rsa_verify_main M now pub_key token =
    Inr (print_claims M [(''alg'', JString ''RS256''), (''typ'', JString ''JWT'')] @
         print_claims M [(''exp'', claim_of_date (tick_rate M) (t2 + 36000 * tick_rate M)),
           (''iat'', claim_of_date (tick_rate M) t1), (''iss'', JString ''auth0''),
           (''jti'', JString ''rsa-create-example''), (''sample'', JString ''test'')])"
proof -
  have s: "sign M (rs256_with priv) (example_token (tick_rate M) ''rsa-create-example'' t1 (t2 + 36000 * tick_rate M)) = Inr token"
    using assms(3,6) example_token_ready(4) [OF assms(2)] by (simp add: rsa_create_main_def bind_res_eq_Inr_conv)
  from assms(5) have "matching (ssl M) (rs256_with priv) (rs256_with pub)" by simp
  from example_verified [OF assms(1,2) s this] obtain j where "decode_token (num M) token = Inr j"
    "header_claims j = [(''alg'', JString ''RS256''), (''typ'', JString ''JWT'')]"
    "payload_claims j = b_payload (example_token (tick_rate M) ''rsa-create-example'' t1 (t2 + 36000 * tick_rate M))"
    "verify M now (with_issuer (num M) ''auth0'' (allow_algorithm (rs256_with pub) (new_verifier (tick_rate M)))) j = Inr ()"
    by auto
  then show ?thesis
    using assms(4) by (simp add: rsa_verify_main_def Let_def example_token_claims(2))
qed

section \<open>A token that is not yet valid\<close>

text \<open>When one check fails with the code \<open>e\<close> and the others pass, the result does not depend on the order.\<close>

lemma run_checks_one_error:
  assumes "\<And>k c. (k, c) \<in> set cs \<Longrightarrow>
      passes c (ctx\<lparr>claim_key := k\<rparr>) \<or> c (ctx\<lparr>claim_key := k\<rparr>) No_error = Inr e"
    and "is_error e" and "(k0, c0) \<in> set cs" and "c0 (ctx\<lparr>claim_key := k0\<rparr>) No_error = Inr e"
  shows "run_checks cs ctx No_error = Inr e"
  using assms
proof (induction cs arbitrary: ctx)
  case (Cons kc cs)
  obtain k c where kc: "kc = (k, c)" by fastforce
  consider "c (ctx\<lparr>claim_key := k\<rparr>) No_error = Inr e"
    | "passes c (ctx\<lparr>claim_key := k\<rparr>)" "c (ctx\<lparr>claim_key := k\<rparr>) No_error \<noteq> Inr e"
    using Cons.prems(1) [of k c] kc by auto
  then show ?case
  proof cases
    case 1
    then show ?thesis using kc Cons.prems(2) by simp
  next
    case 2
    then have "(k0, c0) \<in> set cs" using Cons.prems(3,4) kc by auto
    then have "run_checks cs (ctx\<lparr>claim_key := k\<rparr>) No_error = Inr e"
      using Cons.prems by (intro Cons.IH) auto
    with 2(1) kc show ?thesis by (simp add: passes_def)
  qed
qed simp

definition raw_value :: json where
  "raw_value = JObject [(''api'', JObject [(''array'', JArray [JInt 1, JInt 2, JInt 3]), (''null'', JNull)])]"

lemma to_string_digits: "to_string 1 = ''1''" "to_string 2 = ''2''" "to_string 3 = ''3''"
  by code_simp+

lemma raw_json_serialized: "raw_json = serialize L False raw_value"
  by (simp add: raw_json_def raw_value_def serialize_def quote_def serialize_str_def serialize_str_char_def
      inner_indent_def close_indent_def final_newline_def to_string_digits)

lemma raw_value_storable: "1 < d \<Longrightarrow> storable L d raw_value"
  by (simp add: raw_value_def map_sorted_def int64_min_def int64_max_def)

lemma read_raw_json:
  "read_value L \<lparr>is_text = raw_json, is_failed = False\<rparr> [] = Inr (Some raw_value, \<lparr>is_text = [], is_failed = False\<rparr>, [])"
  using parse_values_serialized [of L raw_value "[]" "[]"] raw_value_storable [of default_max_depths L]
  by (simp add: read_value_def raw_json_serialized [of L] default_max_depths_def)

lemma private_token_claims:
  "b_header (private_token rate time nbf expiry v) = [(''typ'', JString ''JWT'')]"
  "b_payload (private_token rate time nbf expiry v) =
     [(''array'', JArray (map JInt [727663072, 770979831, 427239169, 525936436])), (''aud'', JString ''mydomain.io''),
      (''boolean'', JBool True), (''exp'', claim_of_date rate expiry), (''iat'', claim_of_date rate time),
      (''integer'', JInt 12345), (''iss'', JString ''auth.mydomain.io''), (''nbf'', claim_of_date rate nbf),
      (''object'', v), (''precision'', JNumber precision), (''strings'', claim_of_set [''once'', ''twice''])]"
  by (simp_all add: private_token_def set_payload_claim_def set_expires_at_def set_not_before_def set_issued_at_def
      set_audience_def set_type_def set_issuer_def set_header_claim_def new_builder_def)

lemma private_verifier_sel:
  "default_leeway (private_verifier M v) = 0" "v_algs (private_verifier M v) = [(''none'', Alg_none)]"
  "v_claims (private_verifier M v) =
     [(''aud'', is_subset_claim False [''mydomain.io'']), (''exp'', exp_check (tick_rate M)),
      (''iat'', iat_check (tick_rate M)), (''iss'', equals_claim (num M) False (JString ''auth.mydomain.io'')),
      (''nbf'', nbf_check (tick_rate M)), (''object'', equals_claim (num M) False v)]"
  by (simp_all add: private_verifier_def with_issuer_def with_claim_def with_audience_def with_audiences_def with_check_def
      allow_algorithm_def new_verifier_def)

text \<open>The times of a run that ends within fourteen seconds.\<close>

definition private_times :: "int \<Rightarrow> int \<Rightarrow> int \<Rightarrow> bool" where
  "private_times rate time now \<longleftrightarrow>
     0 < rate \<and> 0 \<le> time \<and> time \<le> now \<and> now \<le> time + 14 * rate \<and> time + 135 * rate \<le> int64_max"

lemma private_dates:
  assumes "private_times rate time now" and "time \<le> nbf" and "nbf \<le> time + 15 * rate"
  shows "0 < rate" and "0 \<le> time" and "time \<le> int64_max" and "0 \<le> nbf" and "nbf \<le> int64_max"
    and "0 \<le> time + 135 * rate" and "time + 135 * rate \<le> int64_max"
  using assms by (auto simp: private_times_def)

lemma private_checks:
  assumes "private_times (tick_rate M) time now" and "time \<le> nbf" and "nbf \<le> time + 15 * tick_rate M"
    and "claim_key ctx = k" and "ctx_leeway ctx = 0" and "current_time ctx = now"
    and "payload_claims (ctx_jwt ctx) = b_payload (private_token (tick_rate M) time nbf (time + 135 * tick_rate M) raw_value)"
  shows "k = ''aud'' \<Longrightarrow> passes (is_subset_claim False [''mydomain.io'']) ctx"
    and "passes (exp_check (tick_rate M)) ctx" and "passes (iat_check (tick_rate M)) ctx"
    and "k = ''iss'' \<Longrightarrow> passes (equals_claim (num M) False (JString ''auth.mydomain.io'')) ctx"
    and "k = ''object'' \<Longrightarrow> passes (equals_claim (num M) False raw_value) ctx"
    and "nbf_check (tick_rate M) ctx No_error =
      Inr (if now < nbf div tick_rate M * tick_rate M then Tok_code Tok_token_expired else No_error)"
proof -
  let ?r = "tick_rate M"
  note d = private_dates [OF assms(1-3)]
  note dates = claim_of_date_time(1) [OF d(1,2,3)] claim_of_date_time(1) [OF d(1,4,5)] claim_of_date_time(1) [OF d(1,6,7)]
  note bounds = truncated_bounds [OF d(1), of time] truncated_bounds [OF d(1), of "time + 135 * ?r"]
  note times = assms(1) [unfolded private_times_def]
  show "passes (exp_check ?r) ctx"
    using bounds times unfolding exp_check_passes [OF assms(5)] by (simp add: assms(6,7) private_token_claims(2) date_claim_def
        map_find_def dates)
  show "passes (iat_check ?r) ctx"
    using bounds times unfolding iat_check_passes [OF assms(5)] by (simp add: assms(6,7) private_token_claims(2) date_claim_def
        map_find_def dates)
  show "nbf_check ?r ctx No_error = Inr (if now < nbf div ?r * ?r then Tok_code Tok_token_expired else No_error)"
    using seconds_zero(2) [OF dates(2)] by (simp add: nbf_check_def date_tests date_getters claim_defs assms(5-7)
        private_token_claims(2) map_find_def dates(2))
  show "k = ''aud'' \<Longrightarrow> passes (is_subset_claim False [''mydomain.io'']) ctx"
    using assms(4) by (simp add: passes_def is_subset_claim_def ctx_get_claim_def claim_defs assms(7) private_token_claims(2) map_find_def)
  show "k = ''iss'' \<Longrightarrow> passes (equals_claim (num M) False (JString ''auth.mydomain.io'')) ctx"
    using assms(4) by (simp add: issuer_check_passes assms(7) private_token_claims(2) map_find_def)
  show "k = ''object'' \<Longrightarrow> passes (equals_claim (num M) False raw_value) ctx"
    using assms(4) by (simp add: passes_def equals_claim_def ctx_get_typed_claim_def ctx_get_claim_def claim_defs assms(7)
        private_token_claims(2) map_find_def raw_value_def claims_match_def)
qed

lemma private_token_storable:
  assumes "private_times (tick_rate M) time now" and "time \<le> nbf" and "nbf \<le> time + 15 * tick_rate M"
    and "reads_number (num M) precision"
  shows "storable_claims (num M) (signed_header Alg_none (private_token (tick_rate M) time nbf (time + 135 * tick_rate M) raw_value))"
    and "storable_claims (num M) (b_payload (private_token (tick_rate M) time nbf (time + 135 * tick_rate M) raw_value))"
proof -
  note d = private_dates [OF assms(1-3)]
  note dates = claim_of_date_time(2,3) [OF d(1,2,3)] claim_of_date_time(2,3) [OF d(1,4,5)] claim_of_date_time(2,3) [OF d(1,6,7)]
  show "storable_claims (num M) (signed_header Alg_none (private_token (tick_rate M) time nbf (time + 135 * tick_rate M) raw_value))"
    by (simp add: storable_claims_def signed_header_def private_token_claims(1) map_find_def map_sorted_def
        default_max_depths_def)
  have "storable (num M) default_max_depths raw_value"
    by (rule raw_value_storable) (simp add: default_max_depths_def)
  then show "storable_claims (num M) (b_payload (private_token (tick_rate M) time nbf (time + 135 * tick_rate M) raw_value))"
    using dates assms(4)
    by (simp add: storable_claims_def private_token_claims(2) map_sorted_def claim_of_date_def claim_of_set_def)
      (simp add: default_max_depths_def int64_min_def int64_max_def)
qed

lemma run_checks_all_pass:
  "(\<And>k c. (k, c) \<in> set cs \<Longrightarrow> passes c (ctx\<lparr>claim_key := k\<rparr>)) \<Longrightarrow> run_checks cs ctx No_error = Inr No_error"
proof (induction cs arbitrary: ctx)
  case (Cons kc cs)
  obtain k c where kc: "kc = (k, c)" by fastforce
  have "passes c (ctx\<lparr>claim_key := k\<rparr>)" using Cons.prems [of k c] kc by simp
  moreover have "run_checks cs (ctx\<lparr>claim_key := k\<rparr>) No_error = Inr No_error"
    using Cons.prems by (intro Cons.IH) simp
  ultimately show ?case using kc by (simp add: passes_def)
qed simp

text \<open>What the checks make of the token, by the second in which it becomes valid.\<close>

lemma private_checks_run:
  assumes "iterates_all M" and "private_times (tick_rate M) time now" and "time \<le> nbf" and "nbf \<le> time + 15 * tick_rate M"
    and "payload_claims j = b_payload (private_token (tick_rate M) time nbf (time + 135 * tick_rate M) raw_value)"
  defines "v \<equiv> private_verifier M raw_value"
  shows "run_checks (checks_in_order M (v_claims v)) (context_at now v j []) No_error =
    Inr (if now < nbf div tick_rate M * tick_rate M then Tok_code Tok_token_expired else No_error)"
proof -
  let ?cs = "checks_in_order M (v_claims v)" and ?n = "nbf_check (tick_rate M)"
  note checks = private_checks [OF assms(2-4), where k = k and ctx = "context_at now v j k" for k]
  have other: "passes c (context_at now v j k) \<or> (k, c) = (''nbf'', ?n)" if "(k, c) \<in> set ?cs" for k c
    using that checks(1-5) [of k] assms(5)
    by (auto simp: set_checks_in_order [OF assms(1)] v_def private_verifier_sel map_find_def split: if_splits)
  have nbf: "?n (context_at now v j ''nbf'') No_error =
      Inr (if now < nbf div tick_rate M * tick_rate M then Tok_code Tok_token_expired else No_error)"
    using checks(6) [of "''nbf''"] assms(5) by (simp add: v_def private_verifier_sel)
  show ?thesis
  proof (cases "now < nbf div tick_rate M * tick_rate M")
    case True
    show ?thesis
      unfolding if_P [OF True]
    proof (rule run_checks_one_error [where ?k0.0 = "''nbf''" and ?c0.0 = ?n])
      show "passes c ((context_at now v j [])\<lparr>claim_key := k\<rparr>) \<or>
          c ((context_at now v j [])\<lparr>claim_key := k\<rparr>) No_error = Inr (Tok_code Tok_token_expired)"
        if "(k, c) \<in> set ?cs" for k c
        using other [OF that] nbf True by auto
      show "(''nbf'', ?n) \<in> set ?cs"
        by (simp add: set_checks_in_order [OF assms(1)] v_def private_verifier_sel map_find_def)
    qed (use nbf True in simp_all)
  next
    case False
    have "passes c ((context_at now v j [])\<lparr>claim_key := k\<rparr>)" if "(k, c) \<in> set ?cs" for k c
      using other [OF that] nbf False by (auto simp: passes_def)
    then show ?thesis using False by (simp add: run_checks_all_pass)
  qed
qed

text \<open>From the builder to the verdict.\<close>

lemma private_verified:
  assumes "iterates_all M" and "private_times (tick_rate M) time now" and "time \<le> nbf" and "nbf \<le> time + 15 * tick_rate M"
    and "reads_number (num M) precision"
  defines "b \<equiv> private_token (tick_rate M) time nbf (time + 135 * tick_rate M) raw_value"
  obtains token j where "sign M Alg_none b = Inr token" and "decode_token (num M) token = Inr j"
    and "claim_at (payload_claims j) ''object'' = raw_value"
    and "verify M now (private_verifier M raw_value) j =
      throw_if_error (if now < nbf div tick_rate M * tick_rate M then Tok_code Tok_token_expired else No_error)"
proof -
  let ?v = "private_verifier M raw_value"
  obtain token where s: "sign_ec M Alg_none b = Inr (token, No_error)"
    by (simp add: sign_ec_def sign_with_def Let_def none_sign_def)
  from decode_signed [OF s [unfolded b_def] _ private_token_storable [OF assms(2-5)]]
  obtain j where j: "decode_token (num M) token = Inr j" "header_claims j = signed_header Alg_none b"
    "payload_claims j = b_payload b" "get_signature j = []"
    by (auto simp: none_sign_def b_def)
  have "get_algorithm j = Inr ''none''"
    using j(2) by (simp add: get_algorithm_def get_header_claim_def get_claim_def signed_header_def b_def private_token_claims(1)
        map_find_def)
  then have "verify_ec M now ?v j = run_checks (checks_in_order M (v_claims ?v)) (context_at now ?v j []) No_error"
    using j(4) by (simp add: verify_ec_def private_verifier_sel(2) map_find_def none_verify_def Let_def)
  with private_checks_run [OF assms(1-4) j(3) [unfolded b_def]] have "verify M now ?v j =
      throw_if_error (if now < nbf div tick_rate M * tick_rate M then Tok_code Tok_token_expired else No_error)"
    by (simp add: verify_def)
  moreover have "claim_at (payload_claims j) ''object'' = raw_value"
    by (simp add: j(3) b_def claim_at_def get_claims_def private_token_claims(2) map_find_def)
  moreover have "sign M Alg_none b = Inr token" using s by (simp add: sign_def throwing_Inr)
  ultimately show ?thesis using that j(1) by blast
qed

lemma raw_value_api:
  "get_key raw_value ''api'' = Inr (JObject [(''array'', JArray [JInt 1, JInt 2, JInt 3]), (''null'', JNull)])"
  "get_key (JObject [(''array'', JArray [JInt 1, JInt 2, JInt 3]), (''null'', JNull)]) ''array'' =
     Inr (JArray [JInt 1, JInt 2, JInt 3])"
  by (simp_all add: raw_value_def get_key_def map_find_def)

lemma write_api_array:
  "write_value L ''api array = '' (JArray [JInt 1, JInt 2, JInt 3]) @ newline = ''api array = [1,2,3]'' @ newline"
  by (simp add: write_value_def serialize_def inner_indent_def close_indent_def final_newline_def to_string_digits)

text \<open>C38: two runs of the whole token library, from JSON text to the verdict of the verifier, with nothing known of the clock but that
  it does not run back and that no more than fourteen seconds pass. The example traits/kazuho-picojson.cpp prints the array that it
  finds in its token and ends. The example private-claims.cpp, which is the same but makes its token valid
  fifteen seconds later and verifies it at once, prints the array too and then always ends with the exception for a token that has expired, whatever the order of
  the checks.\<close>

theorem private_claims_examples:
  assumes "iterates_all M" and "private_times (tick_rate M) time now" and "reads_number (num M) precision"
  shows "kazuho_picojson_main M time now = (''api array = [1,2,3]'' @ newline, Inr ()) \<and>
    private_claims_main M time now =
      (''api array = [1,2,3]'' @ newline,
        Inl (Exn (Token_verification_exception (code_value (Tok_code Tok_token_expired)))))"
proof
  let ?r = "tick_rate M"
  note times = assms(2) [unfolded private_times_def]
  have r: "0 < ?r" and plus: "plus_seconds ?r time 15 = Inr (time + 15 * ?r)" "plus_seconds ?r (time + 15 * ?r) 120 = Inr (time + 135 * ?r)"
    "plus_seconds ?r time 120 = Inr (time + 120 * ?r)" "plus_seconds ?r (time + 120 * ?r) 15 = Inr (time + 135 * ?r)"
    using plus_seconds_small [of ?r time 15] plus_seconds_small [of ?r "time + 15 * ?r" 120]
      plus_seconds_small [of ?r time 120] plus_seconds_small [of ?r "time + 120 * ?r" 15] times
    by simp_all
  have early: "\<not> now < time div ?r * ?r" using truncated_bounds(1) [OF r, of time] times by simp
  have late: "now < (time + 15 * ?r) div ?r * ?r" using truncated_bounds(2) [OF r, of "time + 15 * ?r"] times by simp
  have order: "time \<le> time + 15 * ?r" using r by simp
  obtain token j where "sign M Alg_none (private_token ?r time time (time + 135 * ?r) raw_value) = Inr token"
    "decode_token (num M) token = Inr j" "claim_at (payload_claims j) ''object'' = raw_value"
    "verify M now (private_verifier M raw_value) j =
      throw_if_error (if now < time div ?r * ?r then Tok_code Tok_token_expired else No_error)"
    by (rule private_verified [OF assms(1,2) order_refl order assms(3)])
  then show "kazuho_picojson_main M time now = (''api array = [1,2,3]'' @ newline, Inr ())"
    using early by (simp add: kazuho_picojson_main_def read_raw_json plus raw_value_api write_api_array throw_if_error.simps)
  obtain token j where "sign M Alg_none (private_token ?r time (time + 15 * ?r) (time + 135 * ?r) raw_value) = Inr token"
    "decode_token (num M) token = Inr j" "claim_at (payload_claims j) ''object'' = raw_value"
    "verify M now (private_verifier M raw_value) j =
      throw_if_error (if now < (time + 15 * ?r) div ?r * ?r then Tok_code Tok_token_expired else No_error)"
    by (rule private_verified [OF assms(1,2) order order_refl assms(3)])
  then show "private_claims_main M time now =
      (''api array = [1,2,3]'' @ newline,
        Inl (Exn (Token_verification_exception (code_value (Tok_code Tok_token_expired)))))"
    using late by (simp add: private_claims_main_def read_raw_json plus raw_value_api write_api_array throw_if_error.simps)
qed

definition example_lib :: jwt_lib where
  "example_lib = sample_lib\<lparr>num := sample_c_double\<lparr>strtod := (\<lambda>s. (precision, length s)), print_17g := (\<lambda>d. ''12.345'')\<rparr>\<rparr>"

theorem private_claims_examples_witness:
  "kazuho_picojson_main example_lib 1000000000 5000000000 = (''api array = [1,2,3]'' @ newline, Inr ()) \<and>
   private_claims_main example_lib 1000000000 5000000000 =
      (''api array = [1,2,3]'' @ newline,
        Inl (Exn (Token_verification_exception (code_value (Tok_code Tok_token_expired)))))"
proof (rule private_claims_examples)
  show "iterates_all example_lib"
    using iterates_all_sample by (simp add: iterates_all_def example_lib_def)
  show "private_times (tick_rate example_lib) 1000000000 5000000000"
    by (simp add: private_times_def example_lib_def sample_lib_def int64_max_def)
  show "reads_number (num example_lib) precision"
    by (simp add: example_lib_def sample_lib_def) code_simp
qed

section \<open>The other programs\<close>

lemma es256k_example:
  assumes "iterates_all M" and "example_times (tick_rate M) t1 t2 now"
    and "es256k (ssl M) pub_key priv_key [] [] = Inr a" and "matching (ssl M) a a"
    and "sign M a (example_token (tick_rate M) ''es256k-create-example'' t1 (t2 + 36000 * tick_rate M)) = Inr token"
  shows "\<exists>claims. es256k_main M t1 t2 now pub_key priv_key = (''token:'' @ newline @ token @ newline @ claims, Inr ())"
proof -
  from example_verified [OF assms(1,2,5,4) refl] obtain j where "decode_token (num M) token = Inr j"
    "verify M now (with_issuer (num M) ''auth0'' (allow_algorithm a (new_verifier (tick_rate M)))) j = Inr ()"
    by metis
  then show ?thesis
    using assms(3,5) example_token_ready(4) [OF assms(2)] by (simp add: es256k_main_def printing_def Let_def)
qed

text \<open>jwks-verify.cpp ends well only if the key that the token names verifies the token, or has no certificate.\<close>

lemma jwks_verify_success:
  "jwks_verify_main M now raw_jwks token = Inr () \<Longrightarrow>
   \<exists>j ks kid k iss x5c. decode_token (num M) token = Inr j \<and> parse_jwks (num M) raw_jwks = Inr ks \<and>
     get_key_id j = Inr kid \<and> get_jwk ks kid = Inr k \<and> get_issuer j = Inr iss \<and> jwk_get_x5c_key_value k = Inr x5c \<and>
     (x5c = [] \<or> iss = [] \<or>
      (\<exists>pem a. convert_base64_der_to_pem (ssl M) x5c = Inr pem \<and> rs256 (ssl M) pem [] [] [] = Inr a \<and>
         verify M now (with_leeway 60 (with_issuer (num M) iss (allow_algorithm a (new_verifier (tick_rate M))))) j = Inr ()))"
  unfolding jwks_verify_main_def bind_res_eq_Inr_conv by (auto simp: bind_res_eq_Inr_conv split: if_splits)

text \<open>The check of roles accepts exactly the objects that have the role in the right place, and throws nothing for an object.\<close>

lemma role_verifier_accepts:
  "role_verifier c No_error = Inr No_error \<longleftrightarrow>
     (\<exists>kvs svc roles. c = NObject kvs \<and> map_find kvs ''my-service'' = Some (NObject svc) \<and>
        map_find svc ''roles'' = Some (NArray roles) \<and> NString ''foo'' \<in> set roles)"
proof (cases c)
  case (NObject kvs)
  show ?thesis
  proof (cases "map_find kvs ''my-service''")
    case None
    then show ?thesis using NObject by (simp add: role_verifier_def nlohmann_get_type_def)
  next
    case (Some s)
    show ?thesis
    proof (cases s)
      case (NObject svc)
      then show ?thesis
        using Some \<open>c = NObject kvs\<close>
        by (cases "map_find svc ''roles''"; cases "the (map_find svc ''roles'')")
          (auto simp: role_verifier_def nlohmann_get_type_def)
    qed (use Some NObject in \<open>simp_all add: role_verifier_def nlohmann_get_type_def\<close>)
  qed
qed (simp_all add: role_verifier_def nlohmann_get_type_def)

end
