(* ===== verification/Spec2Isabelle.thy ===== *)
theory Spec2Isabelle
  imports Server Jwk ApiRaces JsonStreams JsonHeap JsonValues JsonTraits JwtExamples
begin

text \<open>
  A verification of kachow, an HTTPS server in C++: \<^verbatim>\<open>src/src\<close>, \<^verbatim>\<open>src/include\<close>, and what the
  server uses of the vendored \<^verbatim>\<open>src/jwt-cpp\<close>.

  \<^bold>\<open>The program.\<close> \<^verbatim>\<open>main\<close> (server_main.cc) parses an nginx-like configuration file (config_parser.cc),
  takes port, number of threads, key and certificate from it, builds the server object and the routes
  (server.cc, \<^verbatim>\<open>generate_routes\<close>: a map from locations to handler factories, request_handler_factory.cc), and
  runs the accept loop. Each accepted connection is a \<^verbatim>\<open>session\<close> (session.cc) whose completion handlers do the
  TLS handshake, read a request, match its target against the routes, create a handler, ask it for a
  response (request_handler.cc: echo, health, not found, sleep, static files, login page, the CRUD API and
  the secure API) and write it. The secure API asks an authorizer (token_auth.cc) what a bearer token
  permits; \<^verbatim>\<open>TokenAuth\<close> decodes and verifies a JSON Web Token with jwt-cpp, which builds on its base64 codec
  (base.h) and on picojson. Files are reached through the class \<^verbatim>\<open>FileSystem\<close> (filesystem.cc).

  \<^bold>\<open>Conventions.\<close> A C++ function is a HOL function on the state it changes. Its result type is \<open>res\<close>:
  \<open>Inr\<close> a value, \<open>Inl (Exn e)\<close> an exception, \<open>Inl (UB u)\<close> a step the language leaves undefined (a null or end
  iterator dereference, an index out of range, the use of an empty stack, an overflow of a signed integer)
  or the termination of the program. \<^verbatim>\<open>std::map\<close> and \<^verbatim>\<open>std::set\<close> are sorted lists, since the code iterates over
  them in key order. The parts of libraries that the code calls are parameters with named laws:
  \<open>beast\<close> (HTTP messages; law \<open>payload_ok\<close>: \<^verbatim>\<open>prepare_payload\<close> sets the content length), \<open>path_lib\<close> and \<open>boost_fs\<close>
  (paths and the disk), \<open>openssl\<close>, \<open>c_double\<close> (floating point conversion and printing), and \<open>jwt_lib\<close>, which adds
  the tick rate of the clock and the order in which an unordered map is iterated. Concrete instances
  (\<open>doc_beast\<close>, \<open>posix_fs\<close>, \<open>posix_path\<close>, \<open>sample_ssl\<close>, \<open>sample_lib\<close>) show that the laws can hold.

  \<^bold>\<open>The theories.\<close>
  \<^item> \<open>Prelude\<close>, \<open>Containers\<close>: faults, the result monad, \<^verbatim>\<open>std::stoi\<close>, substrings, sorted maps and sets.
  \<^item> \<open>ConfigParser\<close>, \<open>ConfigTheorems\<close>: the configuration tree, its printer, the tokenizer and the parser with its
    explicit stack, the four look-ups. Printing and parsing are inverse; acceptance is decided by which
    token may follow which; no look-up reads an empty vector; \<open>portNumber\<close> is the first \<^verbatim>\<open>listen\<close>.
  \<^item> \<open>Mime\<close>, \<open>Http\<close>, \<open>FileSystem\<close>, \<open>PosixDisk\<close>: the table of media types, requests and responses, the real and
    the fake file system with the interfaces \<open>file_store\<close> and \<open>content_store\<close> between them and the API, and a disk that meets it.
  \<^item> \<open>Handlers\<close>: the handlers without state. \<open>ApiHandler\<close>, \<open>ApiTheorems\<close>, \<open>ApiProperties\<close>: the CRUD API with its
    entity index. What was posted or put can be got, what was deleted cannot, a POST takes the least free
    identifier, a refused request changes nothing, and the faults that are left are listed. \<open>ApiRaces\<close>: the steps of a
    POST on the shared index, and what two threads can do to each other.
  \<^item> \<open>SecureApi\<close>: the secure API over the interface \<open>authority\<close>; refusal, separation of private users.
  \<^item> \<open>Base64\<close>: the codec, with the interface \<open>base_alphabet\<close>; it is lossless, and accepts exactly the well padded
    texts.
  \<^item> \<open>Json\<close>, \<open>JsonTheorems\<close>, \<open>JsonRoundTrip\<close>: picojson. Serialised values are parsed back (doubles where the C library
    reads back what it prints); every parse ends; every parsed value is well formed.
  \<^item> \<open>JsonContexts\<close>, \<open>JsonStreams\<close>: the parser as the template over contexts that it is, with the interface
    \<open>parse_context_laws\<close> that makes it end, the three contexts, the entry points and the stream operators. With the default context the template
    is the parser of \<open>Json\<close>; a stream of values is read back.
  \<^item> \<open>JsonValues\<close>: the accessors and the comparison of values, which changes what it compares.
  \<^item> \<open>JsonHeap\<close>: the memory of values, cells that own blocks of a heap. Copying makes blocks of its own, destroying frees each block
    once, assignment implements the assignment of \<open>json\<close> values without leaks or dangling pointers, \<^verbatim>\<open>set\<close> only if its
    argument is not part of the value.
  \<^item> \<open>JwtErrors\<close>, \<open>JwtCrypto\<close>, \<open>JwtAlgorithms\<close>, \<open>Jwt\<close>, \<open>JwtVerify\<close>, \<open>JwtTheorems\<close>, \<open>Jwk\<close>: jwt-cpp. Error codes and their messages, the
    key helpers, the algorithms, claims, decoding, the builder, the verifier, key sets.
    Decoding a signed token gives the builder's claims; the verifier accepts exactly what it should;
    what any of the algorithms signs is accepted with the matching key.
  \<^item> \<open>JsonTraits\<close>: the traits of jwt-cpp for four JSON libraries, which satisfy the interface \<open>json_traits_laws\<close>, and the
    look-up by binary search in those for jsoncons.
  \<^item> \<open>JwtExamples\<close>: the example programs of jwt-cpp for picojson. What rsa-create.cpp prints rsa-verify.cpp accepts; one of two
    programs that differ in a date always ends with an exception.
  \<^item> \<open>TokenAuthority\<close>, \<open>TokenProperties\<close>: \<^verbatim>\<open>TokenAuth::get_auth\<close>; it implements the contract \<open>trusted_token\<close>,
    accepts what the issuer signs, and lets no exception out.
  \<^item> \<open>Factories\<close>, \<open>Routes\<close>: the factories, the index scan, the dispatch over handlers and authorizers,
    \<^verbatim>\<open>generate_routes\<close> and \<^verbatim>\<open>match\<close> (longest prefix).
  \<^item> \<open>Session\<close>, \<open>Server\<close>: the completion handlers as a step relation, the accept loop with its threads, \<^verbatim>\<open>main\<close>;
    invariants of all reachable states.
  \<^item> This theory: properties that span components, from the configuration file to the running server and from a
    token to the store.

  \<^bold>\<open>Loops and fuel.\<close> The recursive descent of picojson has fuel, \<open>enough_fuel s = 2 * length s + 1\<close> for the text \<open>s\<close>;
  theory \<open>JsonRoundTrip\<close> shows that it never runs out and that more makes no difference, \<open>JsonStreams\<close> that it is
  enough for every context. Copying and destroying cells follow pointers and have fuel; the size of the value that a cell stands for is
  enough. All other loops
  are total functions; the search of \<^verbatim>\<open>get_next_id\<close> ends because the index is finite. Session and
  server run for ever by design and are relations.

  \<^bold>\<open>Not modelled.\<close> Log output; the signal handler; sockets, TLS and the constructor of \<^verbatim>\<open>server\<close> (Boost.Asio and
  OpenSSL; \<open>main\<close> takes the constructor as a parameter); data races in general (in \<open>Session\<close> and \<open>Server\<close> each completion
  handler is one step, although the code shares the entity index without a lock; \<open>ApiRaces\<close> looks at one such race);
  the nesting of C++ stack frames in deep recursion. Of picojson: what a variable holds after a failed parse, and the comparison of a
  value with itself as one object. Of jwt-cpp: the branches for other versions of OpenSSL and the compile-time checks of
  traits. \<^verbatim>\<open>nlohmann/json.hpp\<close>, which the server does not use, but for the conversions that its traits call and the subscript
  that an example uses. The examples for other JSON libraries than picojson (the claims of the model are picojson values), tests, Docker and
  web files.

  \<^bold>\<open>Plan.\<close> The server and all that it runs of the vendored libraries are modelled. What is left is code that it does not run: the
  rest of \<^verbatim>\<open>nlohmann/json.hpp\<close> and the programs around it.
\<close>

section \<open>From the configuration file to the running server\<close>

text \<open>The operand of the first directive of a name.\<close>

definition operand :: "string \<Rightarrow> nginx_config \<Rightarrow> string option" where
  "operand name c =
     (case first_directive name c of
        Some s \<Rightarrow> if 1 < length (tokens s) then Some (tokens s ! 1) else None
      | None \<Rightarrow> None)"

lemma named_statements: "named_config c \<Longrightarrow> \<forall>s \<in> set (statements c). named_statement s"
  by (cases c) simp

lemma wf_named:
  "wf_config c \<Longrightarrow> named_config c"
  "wf_statement s \<Longrightarrow> named_statement s"
proof (induction c and s rule: wf_config_wf_statement.induct)
  case (2 toks child)
  then show ?case by (cases child) auto
qed simp

text \<open>All four look-ups share one form.\<close>

lemma scan_config_operand:
  assumes "named_config c" and "\<forall>s \<in> set (statements c). is_server s \<longrightarrow> child_block s \<noteq> None"
    and "operand name c = Some v"
  obtains s where "scan_config name (statements c) = Inr (Some (tokens s))" and "vec_at (tokens s) 1 = Inr v"
  using scan_config_find [OF named_statements [OF assms(1)] assms(2), of name] assms(3)
  by (auto simp: operand_def first_directive_def vec_at_def split: option.splits if_splits)

lemma scan_config_absent:
  assumes "named_config c" and "\<forall>s \<in> set (statements c). is_server s \<longrightarrow> child_block s \<noteq> None"
    and "first_directive name c = None"
  shows "scan_config name (statements c) = Inr None"
  using scan_config_find [OF named_statements [OF assms(1)] assms(2), of name] assms(3)
  by (simp add: first_directive_def)




definition sample_running :: "disk server_state" where
  "sample_running = run 1 \<lparr>routes = [(''/'', NotFoundHandlerFactory), (''/echo'', EchoHandlerFactory),
     (''/st'', StaticHandlerFactory ''d'')], disk = []\<rparr>"

lemma sample_main:
  "main sample_env (\<lambda>f. Some (NginxConfig_ToString 0 sample_config)) (\<lambda>_ _ _. Inr ())
      [''server'', ''cfg''] [] = Inr (Serving 8080 1 sample_running)"
proof -
  have "numberOfThreads sample_config = Inr (- 1)" "keyFileName sample_config = Inr ''key''"
    "certFileName sample_config = Inr ''pem''"
    by (simp_all add: numberOfThreads_def keyFileName_def certFileName_def sample_config_def)
  moreover have "portNumber sample_config = Inr 8080"
    by (simp add: portNumber_def sample_config_def) code_simp
  ultimately show ?thesis
    by (simp add: main_def serve_def Parse_file_def Parse_ToString [OF wf_sample] sample_routes
        sample_running_def)
qed


text \<open>An exception during start-up, here from a port that is not a number, is caught, and the program
  exits with status 0.\<close>

lemma bad_port_exits_0:
  "main E (\<lambda>f. Some ''server { listen http; }'') ctor [''server'', ''cfg''] s = Inr (Exit 0)"
proof -
  have "Parse ''server { listen http; }'' (NginxConfig []) = Inr (True,
      NginxConfig [NginxConfigStatement [''server''] (Some (NginxConfig
        [NginxConfigStatement [''listen'', ''http''] None]))], [])"
    by code_simp
  moreover have "stoi ''http'' = Inl (Exn Invalid_argument)" by code_simp
  ultimately show ?thesis
    by (simp add: main_def serve_def Parse_file_def portNumber_def)
qed

section \<open>From a token to the store\<close>

text \<open>The authorizer of a secure location, as a configuration with \<^verbatim>\<open>OAUTH\<close> builds it.\<close>

abbreviation authority_of :: "string \<Rightarrow> path \<Rightarrow> string \<Rightarrow> token_auth" where
  "authority_of cid key_path issuer \<equiv> \<lparr>client_id = cid, public_key_path = key_path, required_issuer = issuer\<rparr>"

abbreviation trusted_by :: "'s env \<Rightarrow> token_auth \<Rightarrow> 's \<Rightarrow> string \<Rightarrow> decoded_jwt \<Rightarrow> bool" where
  "trusted_by E A s \<equiv> trusted_token (env_jwt E) (env_disk E) A (env_now E s) s"

lemma get_auth_granted:
  assumes "iterates_all (env_jwt E)"
  shows "get_auth E (TokenAuth cid key_path issuer) s t w = Inr (l, u) \<and> l \<noteq> NO_AUTH \<longleftrightarrow>
    issuer \<noteq> [] \<and> (\<exists>j email. trusted_by E (authority_of cid key_path issuer) s t j \<and>
      map_find (payload_claims j) ''sub'' = Some (JString u) \<and>
      map_find (payload_claims j) ''email'' = Some (JString email) \<and> l = level_of email)"
  unfolding get_auth.simps token_auth_granted verified_token_iff [OF assms] email_level_Inr get_subject_Inr
  by auto

text \<open>C6: access is decided by the token. A request for an item with a trusted token of a member of the university is
  served as a request to the private store, under the entity name that begins with the token's
  subject.\<close>

theorem trusted_token_served:
  assumes "iterates_all (env_jwt E)" and "issuer \<noteq> []"
    and "trusted_by E (authority_of cid key_path issuer) (store st) (request_token (env_beast E) req) j"
    and "map_find (payload_claims j) ''sub'' = Some (JString u)"
    and "map_find (payload_claims j) ''email'' = Some (JString email)" and "domain_of email = ''g.ucla.edu''"
    and "request_token (env_beast E) req \<noteq> []" and "secure_prefix_length h = length loc"
    and "known_verb (env_beast E) (method_string req)" and "target req = target (item_request [] loc e i [])"
  shows "get_response E (SecureHandlerAPI h (TokenAuth cid key_path issuer)) req res st =
    API_get_response (env_beast E) (env_path E) (env_fs E) (priv_handler h)
      ((item_request (method_string req) loc (private_entity u e) i (req_body req))
        \<lparr>req_version := req_version req\<rparr>) res st"
proof -
  have "level_of email = PRIVATE_AUTH" using assms(6) by (simp add: level_of_def)
  then have "get_auth E (TokenAuth cid key_path issuer) (store st) (request_token (env_beast E) req) [] =
      Inr (PRIVATE_AUTH, u)"
    using get_auth_granted [OF assms(1), of cid key_path issuer "store st" "request_token (env_beast E) req" "[]"
        PRIVATE_AUTH u] assms(2-5) by auto
  from secure_private_item [where auth = "get_auth E (TokenAuth cid key_path issuer) (store st)",
      OF assms(7) this assms(8-10)]
  show ?thesis by simp
qed

text \<open>C2: nothing else gets in. A request whose token the authorizer does not trust is answered 401 and changes
  nothing, except that a correctly signed token with a date out of range is an overflow.\<close>

theorem untrusted_token_refused:
  assumes "iterates_all (env_jwt E)" and "payload_ok (env_beast E)"
    and "\<And>j. \<not> trusted_by E (authority_of cid key_path issuer) (store st) (request_token (env_beast E) req) j"
  shows "(\<exists>res'. get_response E (SecureHandlerAPI h (TokenAuth cid key_path issuer)) req res st = Inr (True, res', st)
      \<and> result res' = unauthorized)
    \<or> get_response E (SecureHandlerAPI h (TokenAuth cid key_path issuer)) req res st = Inl (UB Signed_overflow)"
proof -
  let ?auth = "get_auth E (TokenAuth cid key_path issuer) (store st)"
  let ?t = "request_token (env_beast E) req"
  have "fst r = NO_AUTH" if "?auth ?t [] = Inr r" for r
    using get_auth_granted [OF assms(1), of cid key_path issuer "store st" ?t "[]" "fst r" "snd r"] assms(3) that
    by auto
  then consider v where "?auth ?t [] = Inr (NO_AUTH, v)" | "?auth ?t [] = Inl (UB Signed_overflow)"
    using dispatch.decided [of E "TokenAuth cid key_path issuer" "store st" ?t "[]"] by (metis prod.collapse)
  then show ?thesis
  proof cases
    case (1 v)
    then show ?thesis
      using secure_refuses [OF assms(2), of req ?auth v "env_path E" "env_fs E" h res st] by simp
  next
    case 2
    show ?thesis
    proof (cases "?t = []")
      case True
      then show ?thesis
        using secure_refuses [OF assms(2), of req ?auth _ "env_path E" "env_fs E" h res st] by simp
    next
      case False
      with 2 show ?thesis by (simp add: SecureAPI_get_response_def Let_def)
    qed
  qed
qed

text \<open>A signed token is not empty, so it is what the server reads from a bearer header.\<close>

lemma sample_bearer:
  assumes "sign sample_lib (rs256_with ''PRIV'') (sample_token 1000) = Inr token"
  shows "request_token doc_beast (bearer token req) = token" and "token \<noteq> []"
proof -
  show "token \<noteq> []"
    using assms by (auto simp: sign_def throwing_Inr sign_ec_def sign_with_def Let_def bind_res_eq_Inr_conv split: prod.splits if_splits)
  then show "request_token doc_beast (bearer token req) = token" by (rule request_token_bearer)
qed

lemma sample_trusted:
  assumes "sign sample_lib (rs256_with ''PRIV'') (sample_token 1000) = Inr token"
  obtains j where "trusted_by sample_env (authority_of ''app'' ''/keys'' ''https://idp'') key_disk token j"
    and "payload_claims j = b_payload (sample_token 1000)"
  using signed_trusted [OF assms sample_token_storable(1) sample_payload_storable sample_key(3) sample_token_for
      key_disk_keys sample_key(1,2), where now = 0] that
  by (auto simp: sample_env_def sample_token_auth_def)

theorem trusted_token_served_witness:
  "\<exists>token. sign sample_lib (rs256_with ''PRIV'') (sample_token 1000) = Inr token
     \<and> get_response sample_env (SecureHandlerAPI sample_secure (TokenAuth ''app'' ''/keys'' ''https://idp''))
         (bearer token (item_request ''GET'' ''/api'' ''Notes'' 1 [])) fresh_response
         \<lparr>entity_id_map = [], store = key_disk\<rparr> =
       API_get_response doc_beast posix_path (RealFileSystem posix_fs) (priv_handler sample_secure)
         (item_request ''GET'' ''/api'' (private_entity ''u1'' ''Notes'') 1 []) fresh_response
         \<lparr>entity_id_map = [], store = key_disk\<rparr>"
proof -
  obtain token where t: "sign sample_lib (rs256_with ''PRIV'') (sample_token 1000) = Inr token"
    using sample_token_signed by blast
  obtain j where j: "trusted_by sample_env (authority_of ''app'' ''/keys'' ''https://idp'') key_disk token j"
    "payload_claims j = b_payload (sample_token 1000)"
    using sample_trusted [OF t] by blast
  have dom: "domain_of ''joe@g.ucla.edu'' = ''g.ucla.edu''" by code_simp
  have env: "env_beast sample_env = doc_beast" "env_path sample_env = posix_path"
    "env_fs sample_env = RealFileSystem posix_fs" "iterates_all (env_jwt sample_env)"
    by (simp_all add: sample_env_def iterates_all_sample)
  have "secure_prefix_length sample_secure = length ''/api''" "known_verb doc_beast ''GET''"
    by (simp_all add: sample_secure_def doc_beast_def)
  then show ?thesis
    using trusted_token_served [of sample_env "''https://idp''" "''app''" "''/keys''" "\<lparr>entity_id_map = [], store = key_disk\<rparr>"
        "bearer token (item_request ''GET'' ''/api'' ''Notes'' 1 [])" j "''u1''" "''joe@g.ucla.edu''" sample_secure
        "''/api''" "''Notes''" 1 fresh_response] t j dom
    by (simp add: env sample_bearer [OF t] sample_token_claims map_find_def item_request_def)
qed

text \<open>The same token on a disk that does not hold the key file.\<close>

theorem untrusted_token_refused_witness:
  "\<exists>token res'. sign sample_lib (rs256_with ''PRIV'') (sample_token 1000) = Inr token
     \<and> (get_response sample_env (SecureHandlerAPI sample_secure (TokenAuth ''app'' ''/keys'' ''https://idp''))
         (bearer token (item_request ''GET'' ''/api'' ''Notes'' 1 [])) fresh_response secure_state = Inr (True, res', secure_state)
         \<and> result res' = unauthorized
       \<or> get_response sample_env (SecureHandlerAPI sample_secure (TokenAuth ''app'' ''/keys'' ''https://idp''))
         (bearer token (item_request ''GET'' ''/api'' ''Notes'' 1 [])) fresh_response secure_state = Inl (UB Signed_overflow))"
proof -
  obtain token where t: "sign sample_lib (rs256_with ''PRIV'') (sample_token 1000) = Inr token"
    using sample_token_signed by blast
  have "ifstream_read posix_fs ''/keys'' (store secure_state) = []"
    by (simp add: posix_fs_def secure_state_def resolve_def disk_at_def)
  moreover have "isl (parse_claims sample_c_double [])" by code_simp
  ultimately have "\<not> trusted_by sample_env (authority_of ''app'' ''/keys'' ''https://idp'') (store secure_state) t' j"
    for t' j
    by (auto simp: trusted_token_def sample_env_def sample_lib_def)
  with untrusted_token_refused [of sample_env "''app''" "''/keys''" "''https://idp''" secure_state
      "bearer token (item_request ''GET'' ''/api'' ''Notes'' 1 [])" sample_secure fresh_response] t
  show ?thesis
    using sample_env_payload iterates_all_sample by (auto simp: sample_env_def)
qed

end
